(* ===== verification/Prelude.thy ===== *)
theory Prelude
  imports Complex_Main "HOL-Library.Word" "HOL-Library.Sublist" "HOL-Library.Char_ord"
    "HOL-Library.List_Lexorder" "HOL-Library.Multiset"
begin

text \<open>
  Shared vocabulary of the development: machine integers, the result type of fallible Rust code,
  the state-and-error monad every store and vault operation is written in (with its rules for
  success, for invariants and for frames), and association-list tables.
\<close>

section \<open>Machine types\<close>

type_synonym u8 = "8 word"
type_synonym u32 = "32 word"
type_synonym u64 = "64 word"
type_synonym bytes = "8 word list"

text \<open>
  A Rust string is the list of its UTF-8 bytes, one \<open>char\<close> each; \<open>as_bytes\<close> reads them as
  numbers.
\<close>

definition char_byte :: "char \<Rightarrow> u8" where
  "char_byte c = word_of_nat (of_char c)"

definition byte_char :: "u8 \<Rightarrow> char" where
  "byte_char b = char_of (unat b)"

definition as_bytes :: "string \<Rightarrow> bytes" where
  "as_bytes s = map char_byte s"

definition from_bytes :: "bytes \<Rightarrow> string" where
  "from_bytes bs = map byte_char bs"

lemma unat_char_byte: "unat (char_byte c) = of_char c"
  by (simp add: char_byte_def unsigned_of_nat take_bit_nat_eq_self)

lemma byte_char_char_byte [simp]: "byte_char (char_byte c) = c"
  by (simp add: byte_char_def unat_char_byte)

lemma char_byte_byte_char [simp]: "char_byte (byte_char b) = b"
proof -
  have "unat b < 256"
    using unsigned_less [of b] by simp
  then show ?thesis
    by (simp add: char_byte_def byte_char_def)
qed

lemma inj_char_byte: "inj char_byte"
  by (metis byte_char_char_byte injI)

lemma from_bytes_as_bytes [simp]: "from_bytes (as_bytes s) = s"
  by (simp add: from_bytes_def as_bytes_def comp_def)

lemma as_bytes_from_bytes [simp]: "as_bytes (from_bytes bs) = bs"
  by (simp add: from_bytes_def as_bytes_def comp_def)

lemma as_bytes_inject [simp]: "as_bytes s = as_bytes t \<longleftrightarrow> s = t"
  by (metis from_bytes_as_bytes)

lemma as_bytes_append [simp]: "as_bytes (s @ t) = as_bytes s @ as_bytes t"
  by (simp add: as_bytes_def)

lemma length_as_bytes [simp]: "length (as_bytes s) = length s"
  by (simp add: as_bytes_def)

section \<open>Results: a value, an error, or a panic\<close>

text \<open>
  Fallible Rust code returns \<open>Ok\<close> or \<open>Err\<close>; code that overflows or calls \<open>expect\<close> on a failure
  panics, which no caller observes as a value.
\<close>

datatype ('a, 'e) result = Ok (the_ok: 'a) | Err (the_err: 'e) | Panic

definition is_ok :: "('a, 'e) result \<Rightarrow> bool" where
  "is_ok r \<longleftrightarrow> (case r of Ok _ \<Rightarrow> True | _ \<Rightarrow> False)"

definition bind_r :: "('a, 'e) result \<Rightarrow> ('a \<Rightarrow> ('b, 'e) result) \<Rightarrow> ('b, 'e) result" where
  "bind_r r f = (case r of Ok x \<Rightarrow> f x | Err e \<Rightarrow> Err e | Panic \<Rightarrow> Panic)"

definition map_err :: "('e \<Rightarrow> 'f) \<Rightarrow> ('a, 'e) result \<Rightarrow> ('a, 'f) result" where
  "map_err f r = (case r of Ok x \<Rightarrow> Ok x | Err e \<Rightarrow> Err (f e) | Panic \<Rightarrow> Panic)"

definition ok_or :: "'a option \<Rightarrow> 'e \<Rightarrow> ('a, 'e) result" where
  "ok_or x e = (case x of Some v \<Rightarrow> Ok v | None \<Rightarrow> Err e)"

definition guard_r :: "bool \<Rightarrow> 'e \<Rightarrow> (unit, 'e) result" where
  "guard_r ok e = (if ok then Ok () else Err e)"

lemma is_ok_iff: "is_ok r \<longleftrightarrow> (\<exists>x. r = Ok x)"
  by (cases r) (simp_all add: is_ok_def)

lemma is_ok_simps [simp]: "is_ok (Ok x)" "\<not> is_ok (Err e)" "\<not> is_ok Panic"
  by (simp_all add: is_ok_def)

lemma bind_r_simps [simp]:
  "bind_r (Ok x) f = f x" "bind_r (Err e) f = Err e" "bind_r Panic f = Panic"
  by (simp_all add: bind_r_def)

lemma bind_r_Ok_iff: "bind_r r f = Ok y \<longleftrightarrow> (\<exists>x. r = Ok x \<and> f x = Ok y)"
  by (cases r) simp_all

lemma map_err_simps [simp]:
  "map_err f (Ok x) = Ok x" "map_err f (Err e) = Err (f e)" "map_err f Panic = Panic"
  by (simp_all add: map_err_def)

lemma map_err_Ok_iff [simp]: "map_err f r = Ok x \<longleftrightarrow> r = Ok x"
  by (cases r) simp_all

lemma ok_or_simps [simp]: "ok_or (Some v) e = Ok v" "ok_or None e = Err e"
  by (simp_all add: ok_or_def)

lemma ok_or_Ok_iff [simp]: "ok_or x e = Ok v \<longleftrightarrow> x = Some v"
  by (cases x) simp_all

lemma ok_or_not_Panic [simp]: "ok_or x e \<noteq> Panic"
  by (cases x) simp_all

lemma guard_r_simps [simp]: "guard_r True e = Ok ()" "guard_r False e = Err e"
  by (simp_all add: guard_r_def)

lemma guard_r_Ok_iff [simp]: "guard_r b e = Ok u \<longleftrightarrow> b"
  by (simp add: guard_r_def)

lemma guard_r_not_Panic [simp]: "guard_r b e \<noteq> Panic"
  by (simp add: guard_r_def)

text \<open>A chain of early returns, read one guard at a time.\<close>

lemma if_Err_Ok_iff: "(if b then Err e else m) = Ok x \<longleftrightarrow> \<not> b \<and> m = Ok x"
  by simp

section \<open>State, errors and panics in sequence\<close>

text \<open>
  An operation maps the state before it to its result and the state after it. The \<open>?\<close> of the
  source is \<open>bnd\<close>: the first error or panic ends the operation, keeping the state it left.
\<close>

type_synonym ('w, 'a, 'e) act = "'w \<Rightarrow> ('a, 'e) result \<times> 'w"

definition ret :: "'a \<Rightarrow> ('w, 'a, 'e) act" where
  "ret x = (\<lambda>w. (Ok x, w))"

definition fail :: "'e \<Rightarrow> ('w, 'a, 'e) act" where
  "fail e = (\<lambda>w. (Err e, w))"

definition bnd :: "('w, 'a, 'e) act \<Rightarrow> ('a \<Rightarrow> ('w, 'b, 'e) act) \<Rightarrow> ('w, 'b, 'e) act" where
  "bnd m f = (\<lambda>w. case m w of (Ok x, w') \<Rightarrow> f x w' | (Err e, w') \<Rightarrow> (Err e, w')
     | (Panic, w') \<Rightarrow> (Panic, w'))"

definition seq :: "('w, 'a, 'e) act \<Rightarrow> ('w, 'b, 'e) act \<Rightarrow> ('w, 'b, 'e) act" where
  "seq m n = bnd m (\<lambda>_. n)"

text \<open>A pure result lifted, an error converted by \<open>From\<close>, and a \<open>match\<close> on a result.\<close>

definition lift_r :: "('a, 'e) result \<Rightarrow> ('w, 'a, 'e) act" where
  "lift_r r = (\<lambda>w. (r, w))"

definition on_err :: "('e \<Rightarrow> 'f) \<Rightarrow> ('w, 'a, 'e) act \<Rightarrow> ('w, 'a, 'f) act" where
  "on_err f m = (\<lambda>w. case m w of (r, w') \<Rightarrow> (map_err f r, w'))"

definition handle :: "('w, 'a, 'e) act \<Rightarrow> ('a \<Rightarrow> ('w, 'b, 'f) act) \<Rightarrow> ('e \<Rightarrow> ('w, 'b, 'f) act)
    \<Rightarrow> ('w, 'b, 'f) act" where
  "handle m f g = (\<lambda>w. case m w of (Ok x, w') \<Rightarrow> f x w' | (Err e, w') \<Rightarrow> g e w'
     | (Panic, w') \<Rightarrow> (Panic, w'))"

lemma bnd_Ok_iff:
  "bnd m f w = (Ok y, w2) \<longleftrightarrow> (\<exists>x w1. m w = (Ok x, w1) \<and> f x w1 = (Ok y, w2))"
  by (auto simp: bnd_def split: prod.splits result.splits)

lemma seq_Ok_iff:
  "seq m n w = (Ok y, w2) \<longleftrightarrow> (\<exists>x w1. m w = (Ok x, w1) \<and> n w1 = (Ok y, w2))"
  by (simp add: seq_def bnd_Ok_iff)

lemma ret_Ok_iff [simp]: "ret x w = (Ok y, w2) \<longleftrightarrow> y = x \<and> w2 = w"
  by (auto simp: ret_def)

lemma fail_not_Ok [simp]: "fail e w \<noteq> (Ok y, w2)"
  by (simp add: fail_def)

lemma lift_r_Ok_iff [simp]: "lift_r r w = (Ok y, w2) \<longleftrightarrow> r = Ok y \<and> w2 = w"
  by (auto simp: lift_r_def)

lemma on_err_Ok_iff [simp]: "on_err f m w = (Ok y, w2) \<longleftrightarrow> m w = (Ok y, w2)"
  by (simp add: on_err_def split: prod.splits)

lemma on_err_map: "on_err f m w = (map_err f (fst (m w)), snd (m w))"
  by (simp add: on_err_def split: prod.splits)

lemma handle_Ok_iff:
  "handle m f g w = (Ok y, w2) \<longleftrightarrow>
     (\<exists>x w1. m w = (Ok x, w1) \<and> f x w1 = (Ok y, w2)) \<or>
     (\<exists>e w1. m w = (Err e, w1) \<and> g e w1 = (Ok y, w2))"
  by (auto simp: handle_def split: prod.splits result.splits)

lemmas act_Ok_iff = bnd_Ok_iff seq_Ok_iff handle_Ok_iff

lemma bnd_step: "m w = (Ok x, w1) \<Longrightarrow> bnd m f w = f x w1"
  by (simp add: bnd_def)

lemma bnd_fst: "fst (m w) = Ok x \<Longrightarrow> bnd m f w = f x (snd (m w))"
  by (cases "m w") (simp add: bnd_def)

lemma bnd_Err: "m w = (Err e, w1) \<Longrightarrow> bnd m f w = (Err e, w1)"
  by (simp add: bnd_def)

lemma seq_step: "m w = (Ok x, w1) \<Longrightarrow> seq m n w = n w1"
  by (simp add: seq_def bnd_def)

lemma seq_Err: "m w = (Err e, w1) \<Longrightarrow> seq m n w = (Err e, w1)"
  by (simp add: seq_def bnd_def)

lemmas act_run = bnd_def seq_def ret_def fail_def lift_r_def on_err_def handle_def

section \<open>What every run of an operation establishes\<close>

text \<open>
  \<open>triple P m Q R\<close>: from a state with \<open>P\<close>, a success leaves \<open>Q\<close> of the value and the state, an
  error or a panic leaves \<open>R\<close>. \<open>keeps I m\<close>: the operation keeps \<open>I\<close> however it ends.
\<close>

definition triple :: "('w \<Rightarrow> bool) \<Rightarrow> ('w, 'a, 'e) act \<Rightarrow> ('a \<Rightarrow> 'w \<Rightarrow> bool) \<Rightarrow> ('w \<Rightarrow> bool)
    \<Rightarrow> bool" where
  "triple P m Q R \<longleftrightarrow>
     (\<forall>w. P w \<longrightarrow> (case m w of (Ok x, w') \<Rightarrow> Q x w' | (Err e, w') \<Rightarrow> R w' | (Panic, w') \<Rightarrow> R w'))"

definition keeps :: "('w \<Rightarrow> bool) \<Rightarrow> ('w, 'a, 'e) act \<Rightarrow> bool" where
  "keeps I m \<longleftrightarrow> (\<forall>w. I w \<longrightarrow> I (snd (m w)))"

named_theorems keeps_intro

lemma keepsI: "(\<And>w r w'. I w \<Longrightarrow> m w = (r, w') \<Longrightarrow> I w') \<Longrightarrow> keeps I m"
  by (metis keeps_def prod.collapse)

lemma keepsD: "keeps I m \<Longrightarrow> I w \<Longrightarrow> m w = (r, w') \<Longrightarrow> I w'"
  by (metis keeps_def snd_conv)

lemma keeps_ret [keeps_intro]: "keeps I (ret x)"
  by (simp add: keeps_def ret_def)

lemma keeps_fail [keeps_intro]: "keeps I (fail e)"
  by (simp add: keeps_def fail_def)

lemma keeps_lift_r [keeps_intro]: "keeps I (lift_r r)"
  by (simp add: keeps_def lift_r_def)

lemma keeps_on_err [keeps_intro]: "keeps I m \<Longrightarrow> keeps I (on_err f m)"
  by (simp add: keeps_def on_err_map)

lemma keeps_bnd [keeps_intro]:
  "keeps I m \<Longrightarrow> (\<And>x. keeps I (f x)) \<Longrightarrow> keeps I (bnd m f)"
  by (fastforce simp: keeps_def bnd_def split: prod.splits result.splits)

lemma keeps_bnd_after: "I (snd (m w)) \<Longrightarrow> (\<And>x. keeps I (f x)) \<Longrightarrow> I (snd (bnd m f w))"
  by (cases "m w"; cases "fst (m w)") (auto simp: bnd_def keeps_def)

lemma keeps_seq [keeps_intro]: "keeps I m \<Longrightarrow> keeps I n \<Longrightarrow> keeps I (seq m n)"
  by (simp add: seq_def keeps_bnd)

lemma keeps_handle [keeps_intro]:
  "keeps I m \<Longrightarrow> (\<And>x. keeps I (f x)) \<Longrightarrow> (\<And>e. keeps I (g e)) \<Longrightarrow> keeps I (handle m f g)"
  by (fastforce simp: keeps_def handle_def split: prod.splits result.splits)

lemma keeps_if [keeps_intro]:
  "(b \<Longrightarrow> keeps I m) \<Longrightarrow> (\<not> b \<Longrightarrow> keeps I n) \<Longrightarrow> keeps I (if b then m else n)"
  by simp

lemma keeps_case_option [keeps_intro]:
  "keeps I m \<Longrightarrow> (\<And>x. keeps I (f x)) \<Longrightarrow> keeps I (case a of None \<Rightarrow> m | Some x \<Rightarrow> f x)"
  by (simp split: option.splits)

lemma keeps_case_prod [keeps_intro]:
  "(\<And>x y. keeps I (f x y)) \<Longrightarrow> keeps I (case p of (x, y) \<Rightarrow> f x y)"
  by (simp split: prod.splits)

lemma keeps_let [keeps_intro]: "keeps I (f a) \<Longrightarrow> keeps I (let x = a in f x)"
  by simp

lemma tripleD:
  "triple P m Q R \<Longrightarrow> P w \<Longrightarrow> m w = (Ok x, w') \<Longrightarrow> Q x w'"
  by (auto simp: triple_def)

lemma triple_bnd:
  "triple P m Q R \<Longrightarrow> (\<And>x. triple (Q x) (f x) S R) \<Longrightarrow> triple P (bnd m f) S R"
  by (fastforce simp: triple_def bnd_def split: prod.splits result.splits)

lemma keeps_triple: "keeps I m \<longleftrightarrow> triple I m (\<lambda>_. I) I"
  unfolding triple_def keeps_def
  by (intro iff_allI) (auto split: prod.splits result.splits)

text \<open>An operation that never panics.\<close>

definition no_panic :: "('w, 'a, 'e) act \<Rightarrow> bool" where
  "no_panic m \<longleftrightarrow> (\<forall>w. fst (m w) \<noteq> Panic)"

lemma no_panic_basic [keeps_intro]:
  "no_panic (ret x)" "no_panic (fail e)" "r \<noteq> Panic \<Longrightarrow> no_panic (lift_r r)"
  by (simp_all add: no_panic_def ret_def fail_def lift_r_def)

lemma no_panic_bnd [keeps_intro]:
  "no_panic m \<Longrightarrow> (\<And>x. no_panic (f x)) \<Longrightarrow> no_panic (bnd m f)"
  unfolding no_panic_def bnd_def
  by (auto split: prod.splits result.splits) (metis fst_conv)

lemma no_panic_seq [keeps_intro]: "no_panic m \<Longrightarrow> no_panic n \<Longrightarrow> no_panic (seq m n)"
  by (simp add: seq_def no_panic_bnd)

section \<open>Tables\<close>

text \<open>
  A table with a primary key is an association list; \<open>INSERT OR REPLACE\<close> is \<open>tbl_put\<close>, \<open>UPDATE\<close>
  of an existing row is \<open>tbl_put\<close> on its key, \<open>SELECT\<close> by key is \<open>map_of\<close>.
\<close>

fun tbl_put :: "'k \<Rightarrow> 'v \<Rightarrow> ('k \<times> 'v) list \<Rightarrow> ('k \<times> 'v) list" where
  "tbl_put k v [] = [(k, v)]"
| "tbl_put k v ((k', v') # t) = (if k = k' then (k, v) # t else (k', v') # tbl_put k v t)"

lemma map_of_tbl_put [simp]: "map_of (tbl_put k v t) = (map_of t)(k \<mapsto> v)"
  by (induction k v t rule: tbl_put.induct) (auto simp: fun_eq_iff)

lemma keys_tbl_put [simp]: "fst ` set (tbl_put k v t) = insert k (fst ` set t)"
  by (induction k v t rule: tbl_put.induct) auto

lemma distinct_tbl_put: "distinct (map fst t) \<Longrightarrow> distinct (map fst (tbl_put k v t))"
proof (induction k v t rule: tbl_put.induct)
  case (2 k v k' v' t)
  then show ?case
    using keys_tbl_put [of k v t] by auto
qed simp

text \<open>Entries of two lists with the same distinct keys are equal as soon as they are equal up to order.\<close>

lemma entries_eq_of_mset:
  assumes "map fst xs = map fst ys" and "distinct (map fst xs)" and "mset xs = mset ys"
  shows "xs = ys"
proof -
  have "map_of xs = map_of ys"
    using assms by (metis map_of_eqI map_of_inject_set mset_eq_setD)
  show ?thesis
  proof (rule nth_equalityI)
    show len: "length xs = length ys"
      using assms(1) by (metis length_map)
    fix i assume i: "i < length xs"
    have k: "fst (xs ! i) = fst (ys ! i)"
      using assms(1) i len by (metis nth_map)
    have "map_of xs (fst (xs ! i)) = Some (snd (xs ! i))"
      using assms(2) i by simp
    moreover have "map_of ys (fst (ys ! i)) = Some (snd (ys ! i))"
      using assms(1,2) i len by simp
    ultimately have "snd (xs ! i) = snd (ys ! i)"
      using k \<open>map_of xs = map_of ys\<close> by simp
    with k show "xs ! i = ys ! i"
      by (rule prod_eqI)
  qed
qed

end
