(* ===== verification/Json.thy ===== *)
theory Json
  imports Rust_Str "HOL-Library.Monad_Syntax"
begin

text \<open>
  Component \<open>serialization.rs\<close>: JSON values as \<open>serde_json\<close> holds them, the canonical form the
  signed and hashed payloads are built from, and the field-by-field readers and writers that the
  \<open>Serialize\<close> and \<open>Deserialize\<close> derives of the record types amount to. The text form of a JSON
  value is \<open>serde_json\<close>'s, an argument \<open>pr\<close> here.
\<close>

section \<open>Values\<close>

text \<open>
  \<open>serde_json::Number\<close> is an unsigned integer, a negative \<open>i64\<close> (its bit pattern here) or a finite
  double (its value here).
\<close>

datatype jnum = PosInt u64 | NegInt "64 word" | Float rat

datatype json =
    JNull
  | JBool bool
  | JNum jnum
  | JStr string
  | JArr "json list"
  | JObj "(string \<times> json) list"

datatype ser_error = FloatForbidden | TopLevelMustBeObject | JsonError

type_synonym jmap = "(string \<times> json) list"

text \<open>\<open>serde_json::Map\<close> is a \<open>BTreeMap\<close>: entries in ascending byte order of their keys.\<close>

fun map_insert :: "string \<Rightarrow> json \<Rightarrow> jmap \<Rightarrow> jmap" where
  "map_insert k v [] = [(k, v)]"
| "map_insert k v ((k', v') # m) =
     (if k = k' then (k, v) # m
      else if k < k' then (k, v) # (k', v') # m
      else (k', v') # map_insert k v m)"

definition map_build :: "jmap \<Rightarrow> jmap" where
  "map_build fs = fold (\<lambda>(k, v) m. map_insert k v m) fs []"

definition map_remove :: "string \<Rightarrow> jmap \<Rightarrow> jmap" where
  "map_remove k m = filter (\<lambda>(k', _). k' \<noteq> k) m"

definition map_ok :: "jmap \<Rightarrow> bool" where
  "map_ok m \<longleftrightarrow> sorted_wrt (<) (map fst m)"

lemma map_of_map_insert [simp]: "map_of (map_insert k v m) = (map_of m)(k \<mapsto> v)"
  by (induction k v m rule: map_insert.induct) (auto simp: fun_eq_iff)

lemma keys_map_insert: "fst ` set (map_insert k v m) = insert k (fst ` set m)"
  by (induction k v m rule: map_insert.induct) auto

lemma map_ok_map_insert: "map_ok m \<Longrightarrow> map_ok (map_insert k v m)"
proof (induction k v m rule: map_insert.induct)
  case (2 k v k' v' m)
  have keys: "set (map fst (map_insert k v m)) = insert k (set (map fst m))"
    using keys_map_insert [of k v m] by simp
  show ?case
    using 2 keys by (auto simp: map_ok_def not_less_iff_gr_or_eq dest: order.strict_trans)
qed (simp add: map_ok_def)

lemma fold_insert_ok: "map_ok m \<Longrightarrow> map_ok (fold (\<lambda>(k, v) m. map_insert k v m) fs m)"
  by (induction fs arbitrary: m) (auto simp: map_ok_map_insert)

lemma map_ok_build [simp]: "map_ok (map_build fs)"
  unfolding map_build_def by (rule fold_insert_ok) (simp add: map_ok_def)

lemma map_of_fold_insert:
  "map_of (fold (\<lambda>(k, v) m. map_insert k v m) fs m) = map_of m ++ map_of (rev fs)"
  by (induction fs arbitrary: m) (auto simp: fun_eq_iff map_add_def split: option.splits)

lemma map_of_build: "map_of (map_build fs) = map_of (rev fs)"
  by (simp add: map_build_def map_of_fold_insert)

lemma map_of_build_distinct:
  assumes "distinct (map fst fs)"
  shows "map_of (map_build fs) = map_of fs"
proof -
  have "map_of (rev fs) = map_of fs"
    using assms by (subst map_of_inject_set) (simp_all add: rev_map [symmetric])
  then show ?thesis
    by (simp add: map_of_build)
qed

lemma map_ok_distinct: "map_ok m \<Longrightarrow> distinct (map fst m)"
  by (simp add: map_ok_def strict_sorted_iff)

lemma map_of_remove: "map_of (map_remove k m) = (map_of m)(k := None)"
  by (induction m) (auto simp: map_remove_def fun_eq_iff)

lemma map_ok_remove: "map_ok m \<Longrightarrow> map_ok (map_remove k m)"
  by (induction m) (auto simp: map_ok_def map_remove_def)

lemma map_ok_unique:
  assumes "map_ok m" and "map_ok n" and "map_of m = map_of n"
  shows "m = n"
proof -
  have set: "set m = set n"
    using assms by (metis map_ok_distinct map_of_inject_set)
  moreover have "inj_on fst (set m \<union> set n)"
    using set map_ok_distinct [OF assms(1)] by (simp add: distinct_map)
  ultimately show ?thesis
    using assms(1,2) by (auto simp: map_ok_def strict_sorted_iff
        intro: map_sorted_distinct_set_unique [where f = fst])
qed

lemma map_build_inject:
  assumes "map fst fs = map fst gs" and "distinct (map fst fs)"
  shows "map_build fs = map_build gs \<longleftrightarrow> fs = gs"
proof
  assume "map_build fs = map_build gs"
  then have "set fs = set gs"
    using assms by (metis map_of_build_distinct map_of_inject_set)
  moreover have "map snd fs = map snd gs" if "map_of fs = map_of gs"
  proof (rule nth_equalityI)
    show "length (map snd fs) = length (map snd gs)"
      using assms(1) by (metis length_map)
    fix i assume i: "i < length (map snd fs)"
    have "map_of fs (map fst fs ! i) = Some (snd (fs ! i))"
      using assms(2) i by simp
    moreover have "map_of gs (map fst gs ! i) = Some (snd (gs ! i))"
      using assms i by (metis length_map map_of_eq_Some_iff nth_map nth_mem prod.collapse)
    ultimately show "map snd fs ! i = map snd gs ! i"
      using assms i that by (metis length_map nth_map option.inject)
  qed
  moreover have "map_of fs = map_of gs"
    using assms \<open>map_build fs = map_build gs\<close> by (metis map_of_build_distinct)
  ultimately show "fs = gs"
    using assms(1) by (metis zip_map_fst_snd)
qed simp

lemma map_remove_build:
  assumes "distinct (map fst fs)"
  shows "map_remove k (map_build fs) = map_build (filter (\<lambda>f. fst f \<noteq> k) fs)"
proof (rule map_ok_unique)
  have "distinct (map fst (filter (\<lambda>f. fst f \<noteq> k) fs))"
    using assms by (simp add: distinct_map_filter)
  moreover have "map_of (filter (\<lambda>f. fst f \<noteq> k) fs) = (map_of fs)(k := None)"
    by (induction fs) (auto simp: fun_eq_iff)
  ultimately show "map_of (map_remove k (map_build fs)) = map_of (map_build (filter (\<lambda>f. fst f \<noteq> k) fs))"
    using assms by (simp add: map_of_remove map_of_build_distinct)
qed (simp_all add: map_ok_remove)

lemma map_build_snoc: "map_build (fs @ [(k, v)]) = map_insert k v (map_build fs)"
  by (simp add: map_build_def)

lemma map_build_perm:
  assumes "mset fs = mset gs" and "distinct (map fst fs)"
  shows "map_build fs = map_build gs"
proof (rule map_ok_unique)
  have "distinct (map fst gs)"
    using assms by (metis mset_eq_imp_distinct_iff mset_map)
  moreover have "map_of fs = map_of gs"
    using assms calculation by (metis map_of_inject_set mset_eq_setD)
  ultimately show "map_of (map_build fs) = map_of (map_build gs)"
    using assms(2) by (simp add: map_of_build_distinct)
qed simp_all

section \<open>Canonical JSON\<close>

fun normalize_value :: "json \<Rightarrow> (json, ser_error) result"
  and normalize_items :: "json list \<Rightarrow> (json list, ser_error) result"
  and normalize_entries :: "jmap \<Rightarrow> jmap \<Rightarrow> (jmap, ser_error) result"
where
  "normalize_value JNull = Ok JNull"
| "normalize_value (JBool b) = Ok (JBool b)"
| "normalize_value (JStr s) = Ok (JStr s)"
| "normalize_value (JNum n) =
     (case n of Float _ \<Rightarrow> Err FloatForbidden | _ \<Rightarrow> Ok (JNum n))"
| "normalize_value (JArr xs) = bind_r (normalize_items xs) (\<lambda>ys. Ok (JArr ys))"
| "normalize_value (JObj m) = bind_r (normalize_entries m []) (\<lambda>n. Ok (JObj n))"
| "normalize_items [] = Ok []"
| "normalize_items (x # xs) =
     bind_r (normalize_value x) (\<lambda>y. bind_r (normalize_items xs) (\<lambda>ys. Ok (y # ys)))"
| "normalize_entries [] acc = Ok acc"
| "normalize_entries ((k, v) # m) acc =
     bind_r (normalize_value v) (\<lambda>v'. normalize_entries m (map_insert k v' acc))"

definition canonical_json_bytes :: "(json \<Rightarrow> string) \<Rightarrow> json \<Rightarrow> (bytes, ser_error) result" where
  "canonical_json_bytes pr v =
     (case v of JObj m \<Rightarrow> bind_r (normalize_value (JObj m)) (\<lambda>n. Ok (as_bytes (pr n)))
      | _ \<Rightarrow> Err TopLevelMustBeObject)"

definition canonical_json_string :: "(json \<Rightarrow> string) \<Rightarrow> json \<Rightarrow> (string, ser_error) result" where
  "canonical_json_string pr v = bind_r (canonical_json_bytes pr v) (\<lambda>b. Ok (from_bytes b))"

text \<open>A value as \<open>serde_json\<close> builds it: every object a sorted map. Float-free: no double anywhere.\<close>

fun json_ok :: "json \<Rightarrow> bool" where
  "json_ok (JArr xs) = (\<forall>x \<in> set xs. json_ok x)"
| "json_ok (JObj m) = (map_ok m \<and> (\<forall>p \<in> set m. json_ok (snd p)))"
| "json_ok v = True"

fun float_free :: "json \<Rightarrow> bool" where
  "float_free (JNum (Float _)) = False"
| "float_free (JArr xs) = (\<forall>x \<in> set xs. float_free x)"
| "float_free (JObj m) = (\<forall>p \<in> set m. float_free (snd p))"
| "float_free v = True"

lemma map_insert_last: "map_ok (acc @ (k, v) # m) \<Longrightarrow> map_insert k w acc = acc @ [(k, w)]"
proof (induction acc)
  case (Cons p acc)
  obtain k' v' where p: "p = (k', v')" by (cases p)
  have "k' < k" and "map_ok (acc @ (k, v) # m)"
    using Cons.prems by (simp_all add: map_ok_def p)
  then show ?case
    using Cons.IH by (auto simp: p)
qed simp

lemma normalize_facts:
  "json_ok v \<Longrightarrow> normalize_value v = (if float_free v then Ok v else Err FloatForbidden)"
  "\<forall>x \<in> set xs. json_ok x \<Longrightarrow>
     normalize_items xs = (if \<forall>x \<in> set xs. float_free x then Ok xs else Err FloatForbidden)"
  "map_ok (acc @ m) \<Longrightarrow> \<forall>p \<in> set m. json_ok (snd p) \<Longrightarrow>
     normalize_entries m acc =
       (if \<forall>p \<in> set m. float_free (snd p) then Ok (acc @ m) else Err FloatForbidden)"
proof (induction v and xs and m acc
    rule: normalize_value_normalize_items_normalize_entries.induct)
  case (4 n)
  then show ?case by (cases n) simp_all
next
  case (10 k v m acc)
  have ins: "map_insert k v acc = acc @ [(k, v)]"
    using 10(3) by (rule map_insert_last)
  have rest: "normalize_entries m (acc @ [(k, v)]) =
      (if \<forall>p \<in> set m. float_free (snd p) then Ok (acc @ (k, v) # m) else Err FloatForbidden)"
    using 10(2) [of v] 10(3,4) ins by simp
  show ?case
    using 10(1,4) rest ins by (cases "float_free v") simp_all
qed auto

lemma normalize_value_eq:
  "json_ok v \<Longrightarrow> normalize_value v = (if float_free v then Ok v else Err FloatForbidden)"
  by (rule normalize_facts(1))

lemma canonical_json_bytes_eq:
  "json_ok (JObj m) \<Longrightarrow> canonical_json_bytes pr (JObj m) =
     (if float_free (JObj m) then Ok (as_bytes (pr (JObj m))) else Err FloatForbidden)"
  by (simp add: canonical_json_bytes_def normalize_value_eq del: normalize_value.simps json_ok.simps
      float_free.simps)

section \<open>Writing and reading records\<close>

text \<open>
  The derived \<open>Serialize\<close> of a struct lists its fields in declaration order (\<open>to_string\<close>) or as a
  \<open>Map\<close> (\<open>to_value\<close>); the derived \<open>Deserialize\<close> looks each field up by name. A missing field is an
  error, \<open>None\<close> for an \<open>Option\<close> field, or the \<open>#[serde(default)]\<close> value.
\<close>

definition to_value :: "jmap \<Rightarrow> json" where
  "to_value fs = JObj (map_build fs)"

definition enc_u64 :: "u64 \<Rightarrow> json" where
  "enc_u64 n = JNum (PosInt n)"

definition enc_u32 :: "u32 \<Rightarrow> json" where
  "enc_u32 n = JNum (PosInt (ucast n))"

definition enc_opt :: "('a \<Rightarrow> json) \<Rightarrow> 'a option \<Rightarrow> json" where
  "enc_opt f x = (case x of None \<Rightarrow> JNull | Some v \<Rightarrow> f v)"

definition enc_list :: "('a \<Rightarrow> json) \<Rightarrow> 'a list \<Rightarrow> json" where
  "enc_list f xs = JArr (map f xs)"

definition dec_str :: "json \<Rightarrow> string option" where
  "dec_str v = (case v of JStr s \<Rightarrow> Some s | _ \<Rightarrow> None)"

definition dec_bool :: "json \<Rightarrow> bool option" where
  "dec_bool v = (case v of JBool b \<Rightarrow> Some b | _ \<Rightarrow> None)"

definition dec_u64 :: "json \<Rightarrow> u64 option" where
  "dec_u64 v = (case v of JNum (PosInt n) \<Rightarrow> Some n | _ \<Rightarrow> None)"

definition dec_u32 :: "json \<Rightarrow> u32 option" where
  "dec_u32 v = (case v of JNum (PosInt n) \<Rightarrow> if unat n < 2 ^ 32 then Some (ucast n) else None
     | _ \<Rightarrow> None)"

definition dec_opt :: "(json \<Rightarrow> 'a option) \<Rightarrow> json \<Rightarrow> 'a option option" where
  "dec_opt d v = (case v of JNull \<Rightarrow> Some None | _ \<Rightarrow> map_option Some (d v))"

definition dec_list :: "(json \<Rightarrow> 'a option) \<Rightarrow> json \<Rightarrow> 'a list option" where
  "dec_list d v = (case v of JArr xs \<Rightarrow> those (map d xs) | _ \<Rightarrow> None)"

definition dec_obj :: "json \<Rightarrow> jmap option" where
  "dec_obj v = (case v of JObj m \<Rightarrow> Some m | _ \<Rightarrow> None)"

text \<open>A field of type \<open>Value\<close> or \<open>Map\<close> is read into sorted maps; a repeated key keeps its last value.\<close>

fun value_of :: "json \<Rightarrow> json" where
  "value_of (JArr xs) = JArr (map value_of xs)"
| "value_of (JObj m) = JObj (map_build (map (\<lambda>p. (fst p, value_of (snd p))) m))"
| "value_of v = v"

definition dec_value :: "json \<Rightarrow> json option" where
  "dec_value v = Some (value_of v)"

definition dec_map :: "json \<Rightarrow> jmap option" where
  "dec_map v = dec_obj (value_of v)"

lemma map_build_ok: "map_ok m \<Longrightarrow> map_build m = m"
  by (rule map_ok_unique) (simp_all add: map_ok_distinct map_of_build_distinct)

lemma value_of_ok [simp]: "json_ok v \<Longrightarrow> value_of v = v"
proof (induction v)
  case (JArr xs)
  then show ?case by (simp add: map_idI)
next
  case (JObj m)
  then have "map (\<lambda>p. (fst p, value_of (snd p))) m = m"
    by (intro map_idI) (auto simp: snds.simps prod_eq_iff)
  with JObj.prems show ?case by (simp add: map_build_ok)
qed simp_all

definition fld :: "(json \<Rightarrow> 'a option) \<Rightarrow> string \<Rightarrow> jmap \<Rightarrow> 'a option" where
  "fld d k m = (case map_of m k of None \<Rightarrow> None | Some v \<Rightarrow> d v)"

definition fld_opt :: "(json \<Rightarrow> 'a option) \<Rightarrow> string \<Rightarrow> jmap \<Rightarrow> 'a option option" where
  "fld_opt d k m = (case map_of m k of None \<Rightarrow> Some None | Some v \<Rightarrow> dec_opt d v)"

definition fld_def :: "(json \<Rightarrow> 'a option) \<Rightarrow> 'a \<Rightarrow> string \<Rightarrow> jmap \<Rightarrow> 'a option" where
  "fld_def d x k m = (case map_of m k of None \<Rightarrow> Some x | Some v \<Rightarrow> d v)"

lemma those_map_Some: "(\<And>x. x \<in> set xs \<Longrightarrow> d (e x) = Some x) \<Longrightarrow> those (map (d \<circ> e) xs) = Some xs"
  by (induction xs) auto

lemma dec_enc_basic [simp]:
  "dec_str (JStr s) = Some s" "dec_bool (JBool b) = Some b" "dec_u64 (enc_u64 n) = Some n"
  "dec_obj (JObj m) = Some m" "json_ok v \<Longrightarrow> dec_value v = Some v"
  "json_ok (JObj m) \<Longrightarrow> dec_map (JObj m) = Some m"
  by (simp_all add: dec_str_def dec_bool_def dec_u64_def enc_u64_def dec_obj_def
      dec_value_def dec_map_def del: value_of.simps json_ok.simps)

lemma dec_enc_u32 [simp]: "dec_u32 (enc_u32 n) = Some n"
proof -
  have small: "unat n < 2 ^ 32"
    using unsigned_less [of n] by simp
  then have "unat (ucast n :: u64) = unat n"
    by (simp add: unsigned_ucast_eq take_bit_nat_eq_self_iff)
  moreover note small
  moreover have "(ucast (ucast n :: u64) :: u32) = n"
    by (simp add: ucast_up_ucast_id is_up)
  ultimately show ?thesis
    by (simp add: dec_u32_def enc_u32_def)
qed

lemma dec_enc_list [simp]:
  "(\<And>x. x \<in> set xs \<Longrightarrow> d (e x) = Some x) \<Longrightarrow> dec_list d (enc_list e xs) = Some xs"
  using those_map_Some [of xs d e] by (simp add: dec_list_def enc_list_def)

lemma dec_enc_opt [simp]:
  "(\<And>v. d (e v) = Some v) \<Longrightarrow> (\<And>v. e v \<noteq> JNull) \<Longrightarrow> dec_opt d (enc_opt e x) = Some x"
proof (cases x)
  case (Some a)
  assume "\<And>v. d (e v) = Some v" and "\<And>v. e v \<noteq> JNull"
  then have "d (e a) = Some a" and "e a \<noteq> JNull"
    by blast+
  with Some show ?thesis
    by (cases "e a") (simp_all add: dec_opt_def enc_opt_def)
qed (simp add: dec_opt_def enc_opt_def)

lemma enc_not_JNull [simp]: "enc_u64 n \<noteq> JNull" "enc_u32 m \<noteq> JNull"
  by (simp_all add: enc_u64_def enc_u32_def)

lemma fld_cases [simp]:
  "map_of m k = Some v \<Longrightarrow> fld d k m = d v"
  "map_of m k = Some v \<Longrightarrow> fld_opt d k m = dec_opt d v"
  "map_of m k = Some v \<Longrightarrow> fld_def d x k m = d v"
  by (simp_all add: fld_def fld_opt_def fld_def_def)

lemma enc_ok [simp]:
  "json_ok (enc_u64 n)" "json_ok (enc_u32 m)" "float_free (enc_u64 n)" "float_free (enc_u32 m)"
  by (simp_all add: enc_u64_def enc_u32_def)

lemma enc_opt_ok [simp]:
  "(\<And>v. json_ok (e v)) \<Longrightarrow> json_ok (enc_opt e x)"
  "(\<And>v. float_free (e v)) \<Longrightarrow> float_free (enc_opt e x)"
  by (cases x; simp add: enc_opt_def)+

lemma enc_list_ok [simp]:
  "(\<And>v. json_ok (e v)) \<Longrightarrow> json_ok (enc_list e xs)"
  "(\<And>v. float_free (e v)) \<Longrightarrow> float_free (enc_list e xs)"
  by (simp_all add: enc_list_def)

lemma set_map_insert: "set (map_insert k v m) \<subseteq> insert (k, v) (set m)"
  by (induction k v m rule: map_insert.induct) auto

lemma set_map_build: "set (map_build fs) \<subseteq> set fs"
proof -
  have "set (fold (\<lambda>(k, v) m. map_insert k v m) fs m) \<subseteq> set m \<union> set fs" for m
  proof (induction fs arbitrary: m)
    case (Cons p fs)
    obtain k v where p: "p = (k, v)" by (cases p)
    show ?case
      using Cons [of "map_insert k v m"] set_map_insert [of k v m] by (auto simp: p)
  qed simp
  from this [of "[]"] show ?thesis by (simp add: map_build_def)
qed

lemma to_value_ok:
  "(\<forall>p \<in> set fs. json_ok (snd p)) \<Longrightarrow> json_ok (to_value fs)"
  "(\<forall>p \<in> set fs. float_free (snd p)) \<Longrightarrow> float_free (to_value fs)"
  using set_map_build [of fs] by (auto simp: to_value_def)

lemma canonical_to_value:
  assumes "\<forall>p \<in> set fs. json_ok (snd p)" and "\<forall>p \<in> set fs. float_free (snd p)"
  shows "canonical_json_bytes pr (to_value fs) = Ok (as_bytes (pr (to_value fs)))"
  using to_value_ok(1) [OF assms(1)] to_value_ok(2) [OF assms(2)]
  unfolding to_value_def by (simp only: canonical_json_bytes_eq if_True)

lemma to_value_inject:
  "map fst fs = map fst gs \<Longrightarrow> distinct (map fst fs) \<Longrightarrow> to_value fs = to_value gs \<longleftrightarrow> fs = gs"
  by (simp add: to_value_def map_build_inject)

text \<open>
  The contract of a record's writer and reader: every value in the writer's domain reads back.
  The domain is everything, except for records that hold a time, which RFC 3339 limits.
\<close>

locale json_codec =
  fixes enc :: "'a \<Rightarrow> json" and dec :: "json \<Rightarrow> 'a option" and domain :: "'a \<Rightarrow> bool"
  assumes dec_enc: "domain x \<Longrightarrow> dec (enc x) = Some x"
begin

lemma enc_inject: "domain x \<Longrightarrow> domain y \<Longrightarrow> enc x = enc y \<longleftrightarrow> x = y"
  by (metis dec_enc option.inject)

lemma dec_enc_list_of: "(\<And>x. x \<in> set xs \<Longrightarrow> domain x) \<Longrightarrow> dec_list dec (enc_list enc xs) = Some xs"
  by (simp add: dec_enc)

end

end
