(* ===== verification/Environment.thy ===== *)
theory Environment
  imports Json
begin

text \<open>
  What the program takes from outside its own source: the cryptographic primitives, the text
  codecs, time, identifiers, randomness, the database's faults, the files and variables of the
  machine, its child processes and the TPM library. Each is a field of \<open>env\<close>, an
  argument of the definitions that use it; the predicates below state the documented behaviour
  that the theorems rely on, one by one.
\<close>

section \<open>Parameters\<close>

text \<open>
  Times are nanoseconds since the epoch. Answers that differ from call to call (the clock, fresh
  identifiers, random bytes, database faults) are indexed by the number of such calls made so far,
  the \<open>tick\<close> of the system state.
\<close>

datatype store_fault = SqliteFault | IoFault

text \<open>
  How a child process ends, and the files of a scratch directory that it reads and writes.
\<close>

datatype run_outcome = NotFound | SpawnFailed | Exited bool bytes bytes

type_synonym files = "string \<Rightarrow> bytes option"

text \<open>
  An HTTP exchange as the client library sees it: the request it is given, and the answer of the
  upstream (a status, its headers and its body, whose reading can fail) or a transport error.
\<close>

record http_request =
  hq_method :: string
  hq_url :: string
  hq_timeout :: "rat option"
  hq_headers :: "(string \<times> string) list"
  hq_body :: "bytes option"
  hq_multipart :: bool

datatype http_outcome =
    HttpAnswer nat "(string \<times> string) list" "bytes option"
  | HttpTransport string

text \<open>
  A directory as a walk finds it. An entry that is no directory may be a file or not; a directory and an
  entry may be unreadable. A walk does not follow links, so that it is finite.
\<close>

datatype dir_tree = BadEntry | Leaf bool | BadDir | Dir "(string \<times> dir_tree) list"

text \<open>
  A program that is run for the user, with the secrets it asked for: it may not start, it may close its
  input before all of it is written, or it ends with a code (none when a signal ends it) and its output.
\<close>

datatype child_outcome = ChildNotStarted | ChildPipeBroken | ChildExited "int option" bytes bytes

text \<open>
  The host beside the cryptography: regular expressions, files and processes, the HTTP client, the
  Ed25519 and zip libraries, the text of numbers and of foreign errors.
\<close>

record host_env =
  x_regex_replace :: "string \<Rightarrow> string \<Rightarrow> string \<Rightarrow> string"
  x_regex_find :: "string \<Rightarrow> string \<Rightarrow> string list"
  x_regex_captures :: "string \<Rightarrow> string \<Rightarrow> string option list option"
  x_read_file :: "nat \<Rightarrow> string \<Rightarrow> bytes option"
  x_read_link :: "nat \<Rightarrow> string \<Rightarrow> string option"
  x_current_exe :: "nat \<Rightarrow> string option"
  x_ids :: "nat \<Rightarrow> int \<times> u32 \<times> u32"
  x_http :: "nat \<Rightarrow> http_request \<Rightarrow> http_outcome"
  x_json_pretty :: "json \<Rightarrow> string"
  x_message :: "nat \<Rightarrow> string"
  x_float_text :: "rat \<Rightarrow> string"
  x_canonical_path :: "nat \<Rightarrow> string \<Rightarrow> string option"
  x_read_tree :: "nat \<Rightarrow> string \<Rightarrow> dir_tree"
  x_platform :: "string \<times> string"
  x_public_pem :: "bytes \<Rightarrow> string option"
  x_private_pem :: "nat \<Rightarrow> bytes \<Rightarrow> string option \<Rightarrow> string option"
  x_load_private :: "string \<Rightarrow> string option \<Rightarrow> bytes option"
  x_load_public :: "string \<Rightarrow> bytes option"
  x_sign :: "bytes \<Rightarrow> bytes \<Rightarrow> bytes"
  x_verify :: "bytes \<Rightarrow> bytes \<Rightarrow> bytes \<Rightarrow> bool"
  x_zip :: "(string \<times> bytes) list \<Rightarrow> bytes"
  x_unzip :: "bytes \<Rightarrow> (string \<times> bytes option) list option"
  x_checkpoint :: "bytes \<Rightarrow> bytes option \<Rightarrow> bytes option"
  x_stdin :: "nat \<Rightarrow> bytes option"
  x_child :: "nat \<Rightarrow> string list \<Rightarrow> (string \<times> string) list \<Rightarrow> bytes option \<Rightarrow> child_outcome"
  x_temp_file :: "nat \<Rightarrow> string \<Rightarrow> string option"
  x_fd :: "nat \<Rightarrow> nat option"
  x_broker :: "nat \<Rightarrow> string \<Rightarrow> json \<Rightarrow> json option"

record env =
  e_host :: host_env
  e_sha256 :: "bytes \<Rightarrow> bytes"
  e_hmac_sha256 :: "bytes \<Rightarrow> bytes \<Rightarrow> bytes"
  e_hmac_sha1 :: "bytes \<Rightarrow> bytes \<Rightarrow> bytes"
  e_aes_enc :: "bytes \<Rightarrow> bytes \<Rightarrow> bytes \<Rightarrow> bytes \<Rightarrow> bytes option"
  e_aes_dec :: "bytes \<Rightarrow> bytes \<Rightarrow> bytes \<Rightarrow> bytes \<Rightarrow> bytes option"
  e_scrypt :: "bytes \<Rightarrow> bytes \<Rightarrow> nat \<Rightarrow> u32 \<Rightarrow> u32 \<Rightarrow> bytes option"
  e_b64url :: "bytes \<Rightarrow> string"
  e_b64url_dec :: "string \<Rightarrow> bytes option"
  e_b64 :: "bytes \<Rightarrow> string"
  e_b64_dec :: "string \<Rightarrow> bytes option"
  e_json_print :: "json \<Rightarrow> string"
  e_json_parse :: "string \<Rightarrow> json option"
  e_time_ms :: "int \<Rightarrow> string"
  e_time_auto :: "int \<Rightarrow> string"
  e_time_parse :: "string \<Rightarrow> int option"
  e_time_add :: "int \<Rightarrow> int \<Rightarrow> int option"
  e_clock :: "nat \<Rightarrow> int"
  e_uuid :: "nat \<Rightarrow> string"
  e_rand :: "nat \<Rightarrow> nat \<Rightarrow> bytes"
  e_fault :: "nat \<Rightarrow> store_fault option"
  e_read_text :: "nat \<Rightarrow> string \<Rightarrow> string option"
  e_file_mode :: "nat \<Rightarrow> string \<Rightarrow> u32 option"
  e_is_file :: "nat \<Rightarrow> string \<Rightarrow> bool"
  e_var :: "nat \<Rightarrow> string \<Rightarrow> string option"
  e_temp_dir :: "nat \<Rightarrow> string option"
  e_write_ok :: "nat \<Rightarrow> string \<Rightarrow> bool"
  e_run :: "nat \<Rightarrow> string \<Rightarrow> string list \<Rightarrow> (string \<times> string) list \<Rightarrow> files \<Rightarrow> run_outcome \<times> files"
  e_tss_context :: "nat \<Rightarrow> string \<Rightarrow> bool"
  e_tss_seal :: "nat \<Rightarrow> string \<Rightarrow> bytes \<Rightarrow> (bytes \<times> bytes) option"
  e_tss_unseal :: "nat \<Rightarrow> string \<Rightarrow> bytes \<Rightarrow> bytes \<Rightarrow> bytes option"

section \<open>Documented behaviour\<close>

text \<open>
  AES-256-GCM: what was encrypted decrypts under the same key, nonce and associated data, and a
  well-sized key and nonce encrypt any message below the cipher's limit of \<open>2 ^ 36\<close> bytes.
\<close>

definition aead_ok :: "env \<Rightarrow> bool" where
  "aead_ok E \<longleftrightarrow>
     (\<forall>k n m a c. e_aes_enc E k n m a = Some c \<longrightarrow> e_aes_dec E k n c a = Some m) \<and>
     (\<forall>k n m a. length k = 32 \<longrightarrow> length n = 12 \<longrightarrow> length m < 2 ^ 36 \<longrightarrow>
        e_aes_enc E k n m a \<noteq> None)"

text \<open>Base64 without padding decodes what it encoded.\<close>

definition b64url_ok :: "env \<Rightarrow> bool" where
  "b64url_ok E \<longleftrightarrow> (\<forall>bs. e_b64url_dec E (e_b64url E bs) = Some bs)"

text \<open>Digest lengths, and scrypt's output of the length asked for.\<close>

definition digest_ok :: "env \<Rightarrow> bool" where
  "digest_ok E \<longleftrightarrow>
     (\<forall>m. length (e_sha256 E m) = 32) \<and> (\<forall>k m. length (e_hmac_sha256 E k m) = 32) \<and>
     (\<forall>k m. length (e_hmac_sha1 E k m) = 20) \<and>
     (\<forall>p s n r q out. e_scrypt E p s n r q = Some out \<longrightarrow> length out = 32)"

text \<open>
  \<open>serde_json\<close> reads back the document it wrote: any value whose objects have distinct keys and
  which holds no float.
\<close>

fun json_wf :: "json \<Rightarrow> bool" where
  "json_wf (JNum (Float _)) = False"
| "json_wf (JArr xs) = (\<forall>x \<in> set xs. json_wf x)"
| "json_wf (JObj m) = (distinct (map fst m) \<and> (\<forall>p \<in> set m. json_wf (snd p)))"
| "json_wf v = True"

definition json_text_ok :: "env \<Rightarrow> bool" where
  "json_text_ok E \<longleftrightarrow> (\<forall>v. json_wf v \<longrightarrow> e_json_parse E (e_json_print E v) = Some v)"

text \<open>
  RFC 3339 with three fractional digits keeps a time up to its millisecond, for the four-digit
  years the format allows (0 to 9999).
\<close>

definition rfc3339_time :: "int \<Rightarrow> bool" where
  "rfc3339_time t \<longleftrightarrow> -62167219200 * 10 ^ 9 \<le> t \<and> t < 253402300800 * 10 ^ 9"

definition floor_ms :: "int \<Rightarrow> int" where
  "floor_ms t = t - t mod 1000000"

definition time_ok :: "env \<Rightarrow> bool" where
  "time_ok E \<longleftrightarrow>
     (\<forall>t. rfc3339_time t \<longrightarrow> e_time_parse E (e_time_ms E t) = Some (floor_ms t)) \<and>
     (\<forall>t. rfc3339_time t \<longrightarrow> e_time_parse E (e_time_auto E t) = Some t) \<and>
     (\<forall>t s u. e_time_add E t s = Some u \<longrightarrow> u = t + s * 10 ^ 9)"

text \<open>Version 4 UUIDs do not repeat; the generator fills the buffer it is given.\<close>

definition fresh_ok :: "env \<Rightarrow> bool" where
  "fresh_ok E \<longleftrightarrow> inj (e_uuid E) \<and> (\<forall>t n. length (e_rand E t n) = n)"

text \<open>A run in which the database never fails.\<close>

definition no_faults :: "env \<Rightarrow> bool" where
  "no_faults E \<longleftrightarrow> (\<forall>t. e_fault E t = None)"

lemma aead_okD:
  "aead_ok E \<Longrightarrow> e_aes_enc E k n m a = Some c \<Longrightarrow> e_aes_dec E k n c a = Some m"
  by (simp add: aead_ok_def)

lemma b64url_dec_enc [simp]: "b64url_ok E \<Longrightarrow> e_b64url_dec E (e_b64url E bs) = Some bs"
  by (simp add: b64url_ok_def)

lemma json_parse_print: "json_text_ok E \<Longrightarrow> json_wf v \<Longrightarrow> e_json_parse E (e_json_print E v) = Some v"
  by (simp add: json_text_ok_def)

lemma json_print_inject:
  "json_text_ok E \<Longrightarrow> json_wf v \<Longrightarrow> json_wf w \<Longrightarrow>
     e_json_print E v = e_json_print E w \<longleftrightarrow> v = w"
  by (metis json_parse_print option.inject)

lemma json_wf_enc [simp]: "json_wf (enc_u64 n)" "json_wf (enc_u32 m)"
  by (simp_all add: enc_u64_def enc_u32_def)

lemma json_wf_enc_opt [simp]: "(\<And>v. json_wf (e v)) \<Longrightarrow> json_wf (enc_opt e x)"
  by (cases x) (simp_all add: enc_opt_def)

lemma json_wf_enc_list [simp]: "(\<And>v. json_wf (e v)) \<Longrightarrow> json_wf (enc_list e xs)"
  by (simp add: enc_list_def)

lemma json_wf_of_ok: "json_ok v \<Longrightarrow> float_free v \<Longrightarrow> json_wf v"
proof (induction v)
  case (JNum n)
  then show ?case by (cases n) simp_all
next
  case (JObj m)
  then show ?case
    by (auto simp: map_ok_distinct snds.simps intro: JObj.IH)
qed auto

section \<open>The system state and its primitive effects\<close>

record sys =
  tick :: nat

definition now :: "env \<Rightarrow> ('z sys_scheme, int, 'e) act" where
  "now E = (\<lambda>w. (Ok (e_clock E (tick w)), w\<lparr>tick := Suc (tick w)\<rparr>))"

definition new_uuid :: "env \<Rightarrow> ('z sys_scheme, string, 'e) act" where
  "new_uuid E = (\<lambda>w. (Ok (e_uuid E (tick w)), w\<lparr>tick := Suc (tick w)\<rparr>))"

definition random_bytes :: "env \<Rightarrow> nat \<Rightarrow> ('z sys_scheme, bytes, 'e) act" where
  "random_bytes E n = (\<lambda>w. (Ok (e_rand E (tick w) n), w\<lparr>tick := Suc (tick w)\<rparr>))"

lemma effect_Ok_iff [simp]:
  "now E w = (Ok t, w') \<longleftrightarrow> t = e_clock E (tick w) \<and> w' = w\<lparr>tick := Suc (tick w)\<rparr>"
  "new_uuid E w = (Ok u, w') \<longleftrightarrow> u = e_uuid E (tick w) \<and> w' = w\<lparr>tick := Suc (tick w)\<rparr>"
  "random_bytes E n w = (Ok b, w') \<longleftrightarrow> b = e_rand E (tick w) n \<and> w' = w\<lparr>tick := Suc (tick w)\<rparr>"
  by (auto simp: now_def new_uuid_def random_bytes_def)

text \<open>Canonical bytes and JSON text under an environment.\<close>

definition canonical :: "env \<Rightarrow> json \<Rightarrow> (bytes, ser_error) result" where
  "canonical E v = canonical_json_bytes (e_json_print E) v"

text \<open>\<open>from_str\<close> of a record: the text parses and the fields read.\<close>

definition parse_as :: "env \<Rightarrow> (json \<Rightarrow> 'a option) \<Rightarrow> string \<Rightarrow> 'a option" where
  "parse_as E d s = Option.bind (e_json_parse E s) d"

lemma parse_as_print:
  "json_text_ok E \<Longrightarrow> json_wf v \<Longrightarrow> parse_as E d (e_json_print E v) = d v"
  by (simp add: parse_as_def json_parse_print)

end
