(* ===== verification/Records.thy ===== *)
theory Records
  imports Environment
begin

text \<open>
  Component \<open>records.rs\<close>: the stored secret record, its status and type, and their JSON form.
\<close>

section \<open>Status and type\<close>

datatype secret_status = Active | Staged | Disabled | Destroyed

datatype secret_type =
    ApiKey | AccessToken | RefreshToken | SsoTokenBundle | Password | Passphrase | Token
  | MnemonicPhrase | SshKey | PrivateKey | Certificate | Credential | JsonCredential | Generic

text \<open>\<open>#[serde(rename_all = "snake_case")]\<close>.\<close>

fun status_name :: "secret_status \<Rightarrow> string" where
  "status_name Active = ''active''"
| "status_name Staged = ''staged''"
| "status_name Disabled = ''disabled''"
| "status_name Destroyed = ''destroyed''"

fun type_name :: "secret_type \<Rightarrow> string" where
  "type_name ApiKey = ''api_key''"
| "type_name AccessToken = ''access_token''"
| "type_name RefreshToken = ''refresh_token''"
| "type_name SsoTokenBundle = ''sso_token_bundle''"
| "type_name Password = ''password''"
| "type_name Passphrase = ''passphrase''"
| "type_name Token = ''token''"
| "type_name MnemonicPhrase = ''mnemonic_phrase''"
| "type_name SshKey = ''ssh_key''"
| "type_name PrivateKey = ''private_key''"
| "type_name Certificate = ''certificate''"
| "type_name Credential = ''credential''"
| "type_name JsonCredential = ''json_credential''"
| "type_name Generic = ''generic''"

definition all_statuses :: "secret_status list" where
  "all_statuses = [Active, Staged, Disabled, Destroyed]"

definition all_types :: "secret_type list" where
  "all_types = [ApiKey, AccessToken, RefreshToken, SsoTokenBundle, Password, Passphrase, Token,
     MnemonicPhrase, SshKey, PrivateKey, Certificate, Credential, JsonCredential, Generic]"

definition status_of_name :: "string \<Rightarrow> secret_status option" where
  "status_of_name s = find (\<lambda>x. status_name x = s) all_statuses"

definition type_of_name :: "string \<Rightarrow> secret_type option" where
  "type_of_name s = find (\<lambda>x. type_name x = s) all_types"

definition enc_status :: "secret_status \<Rightarrow> json" where
  "enc_status x = JStr (status_name x)"

definition dec_status :: "json \<Rightarrow> secret_status option" where
  "dec_status v = Option.bind (dec_str v) status_of_name"

definition enc_type :: "secret_type \<Rightarrow> json" where
  "enc_type x = JStr (type_name x)"

definition dec_type :: "json \<Rightarrow> secret_type option" where
  "dec_type v = Option.bind (dec_str v) type_of_name"

interpretation status_codec: json_codec enc_status dec_status "\<lambda>_. True"
proof
  show "dec_status (enc_status x) = Some x" for x
    by (cases x) (simp_all add: dec_status_def enc_status_def status_of_name_def all_statuses_def)
qed

interpretation type_codec: json_codec enc_type dec_type "\<lambda>_. True"
proof
  show "dec_type (enc_type x) = Some x" for x
    by (cases x) (simp_all add: dec_type_def enc_type_def type_of_name_def all_types_def)
qed

declare status_codec.dec_enc [simp] type_codec.dec_enc [simp]

lemma status_name_inject [simp]: "status_name x = status_name y \<longleftrightarrow> x = y"
  using status_codec.enc_inject [of x y] by (simp add: enc_status_def)

lemma type_name_inject [simp]: "type_name x = type_name y \<longleftrightarrow> x = y"
  using type_codec.enc_inject [of x y] by (simp add: enc_type_def)

lemma enc_status_type_ok [simp]:
  "json_ok (enc_status x)" "float_free (enc_status x)" "json_wf (enc_status x)"
  "json_ok (enc_type y)" "float_free (enc_type y)" "json_wf (enc_type y)"
  by (simp_all add: enc_status_def enc_type_def)

section \<open>The secret record\<close>

record secret_record =
  sr_schema_version :: string
  sr_vault_id :: string
  sr_namespace_id :: string
  sr_secret_id :: string
  sr_secret_ref :: string
  sr_secret_version :: u64
  sr_status :: secret_status
  sr_secret_type :: secret_type
  sr_algorithm_id :: string
  sr_wrap_algorithm_id :: string
  sr_policy_id :: string
  sr_policy_hash :: string
  sr_metadata_hash :: string
  sr_provider_policy_hash :: string
  sr_created_at :: string
  sr_secret_nonce :: string
  sr_ciphertext :: string
  sr_dek_nonce :: string
  sr_wrapped_dek :: string
  sr_secret_aad_hash :: string
  sr_dek_wrap_aad_hash :: string

definition default_schema_version :: string where
  "default_schema_version = ''1''"

definition default_algorithm_id :: string where
  "default_algorithm_id = ''AES-256-GCM''"

definition default_policy_id :: string where
  "default_policy_id = ''default-deny''"

definition default_provider_policy_hash :: string where
  "default_provider_policy_hash = ''unbound-provider-policy''"

definition secret_record_fields :: "secret_record \<Rightarrow> jmap" where
  "secret_record_fields r =
     [(''schema_version'', JStr (sr_schema_version r)),
      (''vault_id'', JStr (sr_vault_id r)),
      (''namespace_id'', JStr (sr_namespace_id r)),
      (''secret_id'', JStr (sr_secret_id r)),
      (''secret_ref'', JStr (sr_secret_ref r)),
      (''secret_version'', enc_u64 (sr_secret_version r)),
      (''status'', enc_status (sr_status r)),
      (''secret_type'', enc_type (sr_secret_type r)),
      (''algorithm_id'', JStr (sr_algorithm_id r)),
      (''wrap_algorithm_id'', JStr (sr_wrap_algorithm_id r)),
      (''policy_id'', JStr (sr_policy_id r)),
      (''policy_hash'', JStr (sr_policy_hash r)),
      (''metadata_hash'', JStr (sr_metadata_hash r)),
      (''provider_policy_hash'', JStr (sr_provider_policy_hash r)),
      (''created_at'', JStr (sr_created_at r)),
      (''secret_nonce'', JStr (sr_secret_nonce r)),
      (''ciphertext'', JStr (sr_ciphertext r)),
      (''dek_nonce'', JStr (sr_dek_nonce r)),
      (''wrapped_dek'', JStr (sr_wrapped_dek r)),
      (''secret_aad_hash'', JStr (sr_secret_aad_hash r)),
      (''dek_wrap_aad_hash'', JStr (sr_dek_wrap_aad_hash r))]"

definition enc_secret_record :: "secret_record \<Rightarrow> json" where
  "enc_secret_record r = JObj (secret_record_fields r)"

definition dec_secret_record :: "json \<Rightarrow> secret_record option" where
  "dec_secret_record v = do {
     m \<leftarrow> dec_obj v;
     schema_version \<leftarrow> fld_def dec_str default_schema_version ''schema_version'' m;
     vault_id \<leftarrow> fld dec_str ''vault_id'' m;
     namespace_id \<leftarrow> fld dec_str ''namespace_id'' m;
     secret_id \<leftarrow> fld dec_str ''secret_id'' m;
     secret_ref \<leftarrow> fld dec_str ''secret_ref'' m;
     secret_version \<leftarrow> fld dec_u64 ''secret_version'' m;
     status \<leftarrow> fld_def dec_status Active ''status'' m;
     secret_type \<leftarrow> fld_def dec_type Generic ''secret_type'' m;
     algorithm_id \<leftarrow> fld_def dec_str default_algorithm_id ''algorithm_id'' m;
     wrap_algorithm_id \<leftarrow> fld_def dec_str default_algorithm_id ''wrap_algorithm_id'' m;
     policy_id \<leftarrow> fld_def dec_str default_policy_id ''policy_id'' m;
     policy_hash \<leftarrow> fld dec_str ''policy_hash'' m;
     metadata_hash \<leftarrow> fld dec_str ''metadata_hash'' m;
     provider_policy_hash \<leftarrow>
       fld_def dec_str default_provider_policy_hash ''provider_policy_hash'' m;
     created_at \<leftarrow> fld dec_str ''created_at'' m;
     secret_nonce \<leftarrow> fld dec_str ''secret_nonce'' m;
     ciphertext \<leftarrow> fld dec_str ''ciphertext'' m;
     dek_nonce \<leftarrow> fld dec_str ''dek_nonce'' m;
     wrapped_dek \<leftarrow> fld dec_str ''wrapped_dek'' m;
     secret_aad_hash \<leftarrow> fld dec_str ''secret_aad_hash'' m;
     dek_wrap_aad_hash \<leftarrow> fld dec_str ''dek_wrap_aad_hash'' m;
     Some \<lparr>sr_schema_version = schema_version, sr_vault_id = vault_id,
       sr_namespace_id = namespace_id, sr_secret_id = secret_id, sr_secret_ref = secret_ref,
       sr_secret_version = secret_version, sr_status = status, sr_secret_type = secret_type,
       sr_algorithm_id = algorithm_id, sr_wrap_algorithm_id = wrap_algorithm_id,
       sr_policy_id = policy_id, sr_policy_hash = policy_hash, sr_metadata_hash = metadata_hash,
       sr_provider_policy_hash = provider_policy_hash, sr_created_at = created_at,
       sr_secret_nonce = secret_nonce, sr_ciphertext = ciphertext, sr_dek_nonce = dek_nonce,
       sr_wrapped_dek = wrapped_dek, sr_secret_aad_hash = secret_aad_hash,
       sr_dek_wrap_aad_hash = dek_wrap_aad_hash\<rparr>
   }"

interpretation secret_record_codec: json_codec enc_secret_record dec_secret_record "\<lambda>_. True"
proof
  show "dec_secret_record (enc_secret_record r) = Some r" for r
    by (simp add: dec_secret_record_def enc_secret_record_def secret_record_fields_def)
qed

lemma enc_secret_record_wf [simp]: "json_wf (enc_secret_record r)"
  by (simp add: enc_secret_record_def secret_record_fields_def)

section \<open>Binary fields\<close>

definition ciphertext_bytes :: "env \<Rightarrow> secret_record \<Rightarrow> bytes option" where
  "ciphertext_bytes E r = e_b64url_dec E (sr_ciphertext r)"

definition secret_nonce_bytes :: "env \<Rightarrow> secret_record \<Rightarrow> bytes option" where
  "secret_nonce_bytes E r = e_b64url_dec E (sr_secret_nonce r)"

definition dek_nonce_bytes :: "env \<Rightarrow> secret_record \<Rightarrow> bytes option" where
  "dek_nonce_bytes E r = e_b64url_dec E (sr_dek_nonce r)"

definition wrapped_dek_bytes :: "env \<Rightarrow> secret_record \<Rightarrow> bytes option" where
  "wrapped_dek_bytes E r = e_b64url_dec E (sr_wrapped_dek r)"

end
