(* ===== verification/Policy.thy ===== *)
theory Policy
  imports Records
begin

text \<open>
  Component \<open>policy.rs\<close>: access policies, access requests and the engine that decides which policy,
  if any, allows a request.
\<close>

section \<open>Policies and requests\<close>

datatype delivery_mode =
    BrokeredHttp | BrokeredOperation | Callback | Pipe | Fd | TempFile | ChildEnv | Raw
  | TerminalPrint

fun mode_name :: "delivery_mode \<Rightarrow> string" where
  "mode_name BrokeredHttp = ''brokered_http''"
| "mode_name BrokeredOperation = ''brokered_operation''"
| "mode_name Callback = ''callback''"
| "mode_name Pipe = ''pipe''"
| "mode_name Fd = ''fd''"
| "mode_name TempFile = ''temp_file''"
| "mode_name ChildEnv = ''child_env''"
| "mode_name Raw = ''raw''"
| "mode_name TerminalPrint = ''terminal_print''"

definition all_modes :: "delivery_mode list" where
  "all_modes = [BrokeredHttp, BrokeredOperation, Callback, Pipe, Fd, TempFile, ChildEnv, Raw,
     TerminalPrint]"

definition mode_of_name :: "string \<Rightarrow> delivery_mode option" where
  "mode_of_name s = find (\<lambda>m. mode_name m = s) all_modes"

record access_policy =
  ap_policy_id :: string
  ap_secret_refs :: "string list"
  ap_allowed_consumers :: "string list"
  ap_denied_consumers :: "string list"
  ap_allowed_purposes :: "string list"
  ap_denied_purposes :: "string list"
  ap_allowed_delivery_modes :: "delivery_mode list"
  ap_allowed_http_hosts :: "string list"
  ap_denied_http_hosts :: "string list"
  ap_allowed_http_methods :: "string list"
  ap_denied_http_methods :: "string list"
  ap_allowed_http_path_prefixes :: "string list"
  ap_denied_http_path_prefixes :: "string list"
  ap_require_https_for_brokered_http :: bool
  ap_max_http_request_body_bytes :: "u64 option"
  ap_allowed_os_uids :: "u32 list"
  ap_denied_os_uids :: "u32 list"
  ap_allowed_executable_paths :: "string list"
  ap_denied_executable_paths :: "string list"
  ap_allowed_executable_sha256 :: "string list"
  ap_denied_executable_sha256 :: "string list"
  ap_exportable :: bool
  ap_max_ticket_ttl_seconds :: u64
  ap_max_uses :: u32
  ap_minimum_provider_assurance :: string
  ap_require_mfa :: bool
  ap_allow_unbound_plaintext_export :: bool
  ap_expires_at :: "int option"

definition default_ticket_ttl :: u64 where
  "default_ticket_ttl = 60"

definition default_max_uses :: u32 where
  "default_max_uses = 1"

definition default_minimum_provider_assurance :: string where
  "default_minimum_provider_assurance = ''A1''"

record access_request =
  rq_secret_ref :: string
  rq_consumer :: string
  rq_purpose :: string
  rq_delivery_mode :: delivery_mode
  rq_provider_assurance :: string
  rq_raw_export_requested :: bool
  rq_http_host :: "string option"
  rq_http_scheme :: "string option"
  rq_http_method :: "string option"
  rq_http_path :: "string option"
  rq_http_request_body_bytes :: "u64 option"
  rq_os_uid :: "u32 option"
  rq_executable_path :: "string option"
  rq_executable_sha256 :: "string option"
  rq_mfa_verified :: bool
  rq_broker_session_id :: "string option"
  rq_now :: int

section \<open>The engine\<close>

datatype policy_decision = Allow | Deny

record evaluation_result =
  er_decision :: policy_decision
  er_reason :: string
  er_policy :: "access_policy option"

definition allowed :: "evaluation_result \<Rightarrow> bool" where
  "allowed res \<longleftrightarrow> er_decision res = Allow"

definition assurance_rank :: "string \<Rightarrow> int" where
  "assurance_rank level =
     (if level = ''A0'' then 0 else if level = ''A1'' then 1 else if level = ''A2'' then 2
      else if level = ''A3'' then 3 else if level = ''A4'' then 4 else if level = ''A5'' then 5
      else -1)"

definition policy_has_peer_binding :: "access_policy \<Rightarrow> bool" where
  "policy_has_peer_binding p \<longleftrightarrow>
     ap_allowed_os_uids p \<noteq> [] \<or> ap_allowed_executable_paths p \<noteq> []
     \<or> ap_allowed_executable_sha256 p \<noteq> []"

definition deny_result :: "access_policy \<Rightarrow> string \<Rightarrow> evaluation_result" where
  "deny_result p reason = \<lparr>er_decision = Deny, er_reason = reason, er_policy = Some p\<rparr>"

text \<open>\<open>option.is_some_and\<close>.\<close>

definition is_some_and :: "'a option \<Rightarrow> ('a \<Rightarrow> bool) \<Rightarrow> bool" where
  "is_some_and x f = (case x of None \<Rightarrow> False | Some v \<Rightarrow> f v)"

definition evaluate_brokered_http ::
    "access_policy \<Rightarrow> access_request \<Rightarrow> (unit, evaluation_result) result" where
  "evaluate_brokered_http p r =
     (case rq_http_host r of
        None \<Rightarrow> Err (deny_result p ''HTTP host required for brokered_http'')
      | Some host \<Rightarrow>
     if ap_require_https_for_brokered_http p \<and> rq_http_scheme r \<noteq> Some ''https''
     then Err (deny_result p ''HTTPS required for brokered_http'')
     else if host \<in> set (ap_denied_http_hosts p)
     then Err (deny_result p ''HTTP host explicitly denied'')
     else if ap_allowed_http_hosts p \<noteq> [] \<and> host \<notin> set (ap_allowed_http_hosts p)
       \<and> \<not> list_ex (\<lambda>item. item = ''*'') (ap_allowed_http_hosts p)
     then Err (deny_result p ''HTTP host not allowed'')
     else (case rq_http_method r of
        None \<Rightarrow> Err (deny_result p ''HTTP method required for brokered_http'')
      | Some method0 \<Rightarrow>
     let method = to_upper method0;
         allowed_methods = map to_upper (ap_allowed_http_methods p);
         denied_methods = map to_upper (ap_denied_http_methods p)
     in if method \<in> set denied_methods
     then Err (deny_result p ''HTTP method explicitly denied'')
     else if allowed_methods \<noteq> [] \<and> method \<notin> set allowed_methods
       \<and> \<not> list_ex (\<lambda>item. item = ''*'') allowed_methods
     then Err (deny_result p ''HTTP method not allowed'')
     else (case rq_http_path r of
        None \<Rightarrow> Err (deny_result p ''HTTP path required for brokered_http'')
      | Some path \<Rightarrow>
     if list_ex (\<lambda>prefix. starts_with path prefix) (ap_denied_http_path_prefixes p)
     then Err (deny_result p ''HTTP path explicitly denied'')
     else if ap_allowed_http_path_prefixes p \<noteq> []
       \<and> \<not> list_ex (\<lambda>prefix. starts_with path prefix) (ap_allowed_http_path_prefixes p)
     then Err (deny_result p ''HTTP path not allowed'')
     else (case (ap_max_http_request_body_bytes p, rq_http_request_body_bytes r) of
        (Some limit, Some body) \<Rightarrow>
          if body > limit then Err (deny_result p ''HTTP request body too large'') else Ok ()
      | _ \<Rightarrow> Ok ()))))"

definition evaluate_policy :: "access_policy \<Rightarrow> access_request \<Rightarrow> evaluation_result" where
  "evaluate_policy p r =
     (if rq_secret_ref r \<notin> set (ap_secret_refs p) \<and> \<not> list_ex (\<lambda>item. item = ''*'') (ap_secret_refs p)
      then deny_result p ''secret reference not covered''
      else if (case ap_expires_at p of None \<Rightarrow> False | Some expires_at \<Rightarrow> rq_now r > expires_at)
      then deny_result p ''policy expired''
      else if rq_consumer r \<in> set (ap_denied_consumers p)
      then deny_result p ''consumer explicitly denied''
      else if rq_purpose r \<in> set (ap_denied_purposes p)
      then deny_result p ''purpose explicitly denied''
      else if rq_consumer r \<notin> set (ap_allowed_consumers p)
        \<and> \<not> list_ex (\<lambda>item. item = ''*'') (ap_allowed_consumers p)
      then deny_result p ''consumer not allowed''
      else if rq_purpose r \<notin> set (ap_allowed_purposes p)
        \<and> \<not> list_ex (\<lambda>item. item = ''*'') (ap_allowed_purposes p)
      then deny_result p ''purpose not allowed''
      else if rq_delivery_mode r \<notin> set (ap_allowed_delivery_modes p)
      then deny_result p ''delivery mode not allowed''
      else if (case rq_os_uid r of None \<Rightarrow> False | Some uid \<Rightarrow> uid \<in> set (ap_denied_os_uids p))
      then deny_result p ''OS user explicitly denied''
      else if ap_allowed_os_uids p \<noteq> []
        \<and> \<not> is_some_and (rq_os_uid r) (\<lambda>uid. uid \<in> set (ap_allowed_os_uids p))
      then deny_result p ''OS user not allowed''
      else if (case rq_executable_path r of None \<Rightarrow> False
               | Some path \<Rightarrow> path \<in> set (ap_denied_executable_paths p))
      then deny_result p ''executable path explicitly denied''
      else if ap_allowed_executable_paths p \<noteq> []
        \<and> \<not> is_some_and (rq_executable_path r) (\<lambda>path. path \<in> set (ap_allowed_executable_paths p))
      then deny_result p ''executable path not allowed''
      else if (case rq_executable_sha256 r of None \<Rightarrow> False
               | Some hash \<Rightarrow> hash \<in> set (ap_denied_executable_sha256 p))
      then deny_result p ''executable hash explicitly denied''
      else if ap_allowed_executable_sha256 p \<noteq> []
        \<and> \<not> is_some_and (rq_executable_sha256 r) (\<lambda>hash. hash \<in> set (ap_allowed_executable_sha256 p))
      then deny_result p ''executable hash not allowed''
      else (case (if rq_delivery_mode r = BrokeredHttp then evaluate_brokered_http p r else Ok ()) of
        Err res \<Rightarrow> res
      | _ \<Rightarrow>
      if rq_raw_export_requested r \<and> \<not> ap_exportable p
      then deny_result p ''raw export not allowed''
      else if rq_raw_export_requested r \<and> rq_delivery_mode r \<in> {Raw, TerminalPrint}
        \<and> \<not> ap_allow_unbound_plaintext_export p \<and> \<not> policy_has_peer_binding p
      then deny_result p ''raw plaintext export requires a non-spoofable peer binding''
      else if assurance_rank (rq_provider_assurance r)
        < assurance_rank (ap_minimum_provider_assurance p)
      then deny_result p ''provider assurance too low''
      else if ap_require_mfa p \<and> \<not> rq_mfa_verified r
      then deny_result p ''MFA required''
      else \<lparr>er_decision = Allow, er_reason = ''allowed'', er_policy = Some p\<rparr>))"

fun evaluate :: "access_policy list \<Rightarrow> access_request \<Rightarrow> evaluation_result" where
  "evaluate [] r =
     \<lparr>er_decision = Deny, er_reason = ''no matching allow policy'', er_policy = None\<rparr>"
| "evaluate (p # ps) r =
     (let res = evaluate_policy p r in
      if er_decision res = Allow then res else evaluate ps r)"

section \<open>What a policy permits, declaratively\<close>

text \<open>
  A list of names with a wildcard; a pair of deny and allow lists over a fact about the peer that
  may be unknown (an empty allow list places no demand, a deny list only bites on a known fact).
\<close>

definition lists_name :: "string list \<Rightarrow> string \<Rightarrow> bool" where
  "lists_name xs x \<longleftrightarrow> x \<in> set xs \<or> ''*'' \<in> set xs"

definition peer_fact_ok :: "'a list \<Rightarrow> 'a list \<Rightarrow> 'a option \<Rightarrow> bool" where
  "peer_fact_ok allow deny x \<longleftrightarrow>
     set_option x \<inter> set deny = {} \<and> (allow = [] \<or> set_option x \<inter> set allow \<noteq> {})"

definition http_permitted :: "access_policy \<Rightarrow> access_request \<Rightarrow> bool" where
  "http_permitted p r \<longleftrightarrow> (\<exists>host method path.
     rq_http_host r = Some host \<and> rq_http_method r = Some method \<and> rq_http_path r = Some path \<and>
     (ap_require_https_for_brokered_http p \<longrightarrow> rq_http_scheme r = Some ''https'') \<and>
     host \<notin> set (ap_denied_http_hosts p) \<and>
     (ap_allowed_http_hosts p = [] \<or> lists_name (ap_allowed_http_hosts p) host) \<and>
     to_upper method \<notin> to_upper ` set (ap_denied_http_methods p) \<and>
     (ap_allowed_http_methods p = []
       \<or> lists_name (map to_upper (ap_allowed_http_methods p)) (to_upper method)) \<and>
     \<not> (\<exists>d \<in> set (ap_denied_http_path_prefixes p). prefix d path) \<and>
     (ap_allowed_http_path_prefixes p = []
       \<or> (\<exists>a \<in> set (ap_allowed_http_path_prefixes p). prefix a path)) \<and>
     \<not> (\<exists>limit body. ap_max_http_request_body_bytes p = Some limit
         \<and> rq_http_request_body_bytes r = Some body \<and> limit < body))"

definition export_permitted :: "access_policy \<Rightarrow> access_request \<Rightarrow> bool" where
  "export_permitted p r \<longleftrightarrow> rq_raw_export_requested r \<longrightarrow>
     ap_exportable p \<and>
     (rq_delivery_mode r \<in> {Raw, TerminalPrint} \<longrightarrow>
        ap_allow_unbound_plaintext_export p \<or> policy_has_peer_binding p)"

definition permits :: "access_policy \<Rightarrow> access_request \<Rightarrow> bool" where
  "permits p r \<longleftrightarrow>
     lists_name (ap_secret_refs p) (rq_secret_ref r) \<and>
     \<not> (\<exists>t. ap_expires_at p = Some t \<and> t < rq_now r) \<and>
     rq_consumer r \<notin> set (ap_denied_consumers p) \<and>
     rq_purpose r \<notin> set (ap_denied_purposes p) \<and>
     lists_name (ap_allowed_consumers p) (rq_consumer r) \<and>
     lists_name (ap_allowed_purposes p) (rq_purpose r) \<and>
     rq_delivery_mode r \<in> set (ap_allowed_delivery_modes p) \<and>
     peer_fact_ok (ap_allowed_os_uids p) (ap_denied_os_uids p) (rq_os_uid r) \<and>
     peer_fact_ok (ap_allowed_executable_paths p) (ap_denied_executable_paths p)
       (rq_executable_path r) \<and>
     peer_fact_ok (ap_allowed_executable_sha256 p) (ap_denied_executable_sha256 p)
       (rq_executable_sha256 r) \<and>
     (rq_delivery_mode r = BrokeredHttp \<longrightarrow> http_permitted p r) \<and>
     export_permitted p r \<and>
     assurance_rank (ap_minimum_provider_assurance p) \<le> assurance_rank (rq_provider_assurance r) \<and>
     (ap_require_mfa p \<longrightarrow> rq_mfa_verified r)"

lemma list_ex_star: "list_ex (\<lambda>item. item = ''*'') xs \<longleftrightarrow> ''*'' \<in> set xs"
  by (auto simp: list_ex_iff)

lemma if_deny_Allow_iff:
  "er_decision (if b then deny_result p s else x) = Allow \<longleftrightarrow> \<not> b \<and> er_decision x = Allow"
  by (simp add: deny_result_def)

lemma deny_result_decision [simp]: "er_decision (deny_result p s) = Deny"
  by (simp add: deny_result_def)

text \<open>Every branch of the two functions is a denial that names the policy, or a pass.\<close>

definition http_shape :: "access_policy \<Rightarrow> (unit, evaluation_result) result \<Rightarrow> bool" where
  "http_shape p m \<longleftrightarrow> m = Ok () \<or> (\<exists>s. m = Err (deny_result p s))"

definition policy_shape :: "access_policy \<Rightarrow> evaluation_result \<Rightarrow> bool" where
  "policy_shape p res \<longleftrightarrow> res = \<lparr>er_decision = Allow, er_reason = ''allowed'', er_policy = Some p\<rparr>
     \<or> (\<exists>s. res = deny_result p s)"

lemma http_shape_intros:
  "http_shape p (Ok ())"
  "http_shape p (Err (deny_result p s))"
  "http_shape p m \<Longrightarrow> http_shape p n \<Longrightarrow> http_shape p (if b then m else n)"
  "http_shape p m \<Longrightarrow> (\<And>x. http_shape p (f x)) \<Longrightarrow>
     http_shape p (case a of None \<Rightarrow> m | Some x \<Rightarrow> f x)"
  by (auto simp: http_shape_def split: option.split)

lemma policy_shape_intros:
  "policy_shape p \<lparr>er_decision = Allow, er_reason = ''allowed'', er_policy = Some p\<rparr>"
  "policy_shape p (deny_result p s)"
  "policy_shape p m \<Longrightarrow> policy_shape p n \<Longrightarrow> policy_shape p (if b then m else n)"
  "http_shape p a \<Longrightarrow> policy_shape p m \<Longrightarrow>
     policy_shape p (case a of Ok _ \<Rightarrow> m | Err res \<Rightarrow> res | Panic \<Rightarrow> m)"
  by (auto simp: http_shape_def policy_shape_def)

lemma brokered_http_shape: "http_shape p (evaluate_brokered_http p r)"
  unfolding evaluate_brokered_http_def Let_def prod.case by (intro http_shape_intros)

lemma evaluate_policy_shape: "policy_shape p (evaluate_policy p r)"
  unfolding evaluate_policy_def
  by (intro policy_shape_intros http_shape_intros brokered_http_shape)

lemma brokered_http_Err: "evaluate_brokered_http p r = Err res \<Longrightarrow> er_decision res = Deny"
  using brokered_http_shape [of p r] by (auto simp: http_shape_def)

lemma brokered_http_not_Panic [simp]: "evaluate_brokered_http p r \<noteq> Panic"
  using brokered_http_shape [of p r] by (auto simp: http_shape_def)

lemma size_limit_iff:
  "(case (bound, sz) of (Some limit, Some body) \<Rightarrow> if body > limit then Err e else Ok () | _ \<Rightarrow> Ok ())
     = Ok () \<longleftrightarrow> \<not> (\<exists>limit body. bound = Some limit \<and> sz = Some body \<and> limit < (body :: u64))"
  by (cases bound; cases sz) simp_all

lemma brokered_http_Ok_iff: "evaluate_brokered_http p r = Ok () \<longleftrightarrow> http_permitted p r"
proof (cases "rq_http_host r"; cases "rq_http_method r"; cases "rq_http_path r")
  fix h m q assume some: "rq_http_host r = Some h" "rq_http_method r = Some m"
    "rq_http_path r = Some q"
  have "evaluate_brokered_http p r = Ok () \<longleftrightarrow>
     \<not> (ap_require_https_for_brokered_http p \<and> rq_http_scheme r \<noteq> Some ''https'') \<and>
     h \<notin> set (ap_denied_http_hosts p) \<and>
     \<not> (ap_allowed_http_hosts p \<noteq> [] \<and> h \<notin> set (ap_allowed_http_hosts p)
       \<and> \<not> list_ex (\<lambda>item. item = ''*'') (ap_allowed_http_hosts p)) \<and>
     to_upper m \<notin> set (map to_upper (ap_denied_http_methods p)) \<and>
     \<not> (map to_upper (ap_allowed_http_methods p) \<noteq> []
       \<and> to_upper m \<notin> set (map to_upper (ap_allowed_http_methods p))
       \<and> \<not> list_ex (\<lambda>item. item = ''*'') (map to_upper (ap_allowed_http_methods p))) \<and>
     \<not> list_ex (\<lambda>prefix. starts_with q prefix) (ap_denied_http_path_prefixes p) \<and>
     \<not> (ap_allowed_http_path_prefixes p \<noteq> []
       \<and> \<not> list_ex (\<lambda>prefix. starts_with q prefix) (ap_allowed_http_path_prefixes p)) \<and>
     \<not> (\<exists>limit body. ap_max_http_request_body_bytes p = Some limit
       \<and> rq_http_request_body_bytes r = Some body \<and> limit < body)"
    unfolding evaluate_brokered_http_def some option.case Let_def if_Err_Ok_iff size_limit_iff
    by (rule refl)
  then show ?thesis
    by (simp add: http_permitted_def some lists_name_def list_ex_star list_ex_iff starts_with_def)
qed (simp_all add: evaluate_brokered_http_def http_permitted_def Let_def if_Err_Ok_iff
    split del: if_split)

lemma peer_fact_ok_iff:
  "peer_fact_ok allow deny x \<longleftrightarrow>
     \<not> (case x of None \<Rightarrow> False | Some v \<Rightarrow> v \<in> set deny) \<and>
     \<not> (allow \<noteq> [] \<and> \<not> is_some_and x (\<lambda>v. v \<in> set allow))"
  by (cases x) (auto simp: peer_fact_ok_def is_some_and_def)

lemma export_permitted_iff:
  "export_permitted p r \<longleftrightarrow>
     \<not> (rq_raw_export_requested r \<and> \<not> ap_exportable p) \<and>
     \<not> (rq_raw_export_requested r \<and> rq_delivery_mode r \<in> {Raw, TerminalPrint}
         \<and> \<not> ap_allow_unbound_plaintext_export p \<and> \<not> policy_has_peer_binding p)"
  by (auto simp: export_permitted_def)

lemma expired_iff:
  "(\<exists>t. ap_expires_at p = Some t \<and> t < rq_now r) \<longleftrightarrow>
     (case ap_expires_at p of None \<Rightarrow> False | Some t \<Rightarrow> rq_now r > t)"
  by (cases "ap_expires_at p") simp_all

lemma lists_name_iff: "lists_name xs x \<longleftrightarrow> \<not> (x \<notin> set xs \<and> \<not> list_ex (\<lambda>item. item = ''*'') xs)"
  by (simp add: lists_name_def list_ex_star)

lemma mfa_iff: "(ap_require_mfa p \<longrightarrow> rq_mfa_verified r) \<longleftrightarrow> \<not> (ap_require_mfa p \<and> \<not> rq_mfa_verified r)"
  by simp

lemma evaluate_policy_allow_iff: "er_decision (evaluate_policy p r) = Allow \<longleftrightarrow> permits p r"
proof (cases "rq_delivery_mode r = BrokeredHttp \<longrightarrow> http_permitted p r")
  case True
  then have http: "(if rq_delivery_mode r = BrokeredHttp then evaluate_brokered_http p r else Ok ())
      = Ok ()"
    by (simp add: brokered_http_Ok_iff)
  have guard: "(rq_delivery_mode r = BrokeredHttp \<longrightarrow> http_permitted p r) = True"
    using True by blast
  show ?thesis
    unfolding evaluate_policy_def http permits_def guard peer_fact_ok_iff export_permitted_iff
      lists_name_iff expired_iff mfa_iff
    by (simp only: if_deny_Allow_iff result.case not_less simp_thms evaluation_result.simps conj_assoc)
next
  case False
  then obtain res where res: "evaluate_brokered_http p r = Err res" "rq_delivery_mode r = BrokeredHttp"
    by (cases "evaluate_brokered_http p r") (auto simp: brokered_http_Ok_iff)
  then have "er_decision res = Deny"
    by (blast dest: brokered_http_Err)
  then have "er_decision (evaluate_policy p r) \<noteq> Allow"
    unfolding evaluate_policy_def res by (simp add: if_deny_Allow_iff split del: if_split)
  with False show ?thesis
    by (auto simp: permits_def)
qed

lemma evaluate_policy_Allow:
  "er_decision (evaluate_policy p r) = Allow \<Longrightarrow>
     evaluate_policy p r = \<lparr>er_decision = Allow, er_reason = ''allowed'', er_policy = Some p\<rparr>"
  using evaluate_policy_shape [of p r] by (auto simp: policy_shape_def)

section \<open>JSON form\<close>

definition enc_mode :: "delivery_mode \<Rightarrow> json" where
  "enc_mode m = JStr (mode_name m)"

definition dec_mode :: "json \<Rightarrow> delivery_mode option" where
  "dec_mode v = Option.bind (dec_str v) mode_of_name"

interpretation mode_codec: json_codec enc_mode dec_mode "\<lambda>_. True"
proof
  show "dec_mode (enc_mode m) = Some m" for m
    by (cases m) (simp_all add: dec_mode_def enc_mode_def mode_of_name_def all_modes_def)
qed

declare mode_codec.dec_enc [simp]

lemma mode_name_inject [simp]: "mode_name x = mode_name y \<longleftrightarrow> x = y"
  using mode_codec.enc_inject [of x y] by (simp add: enc_mode_def)

lemma enc_mode_ok [simp]: "json_ok (enc_mode m)" "float_free (enc_mode m)" "json_wf (enc_mode m)"
  by (simp_all add: enc_mode_def)

text \<open>\<open>chrono\<close> writes a time as an RFC 3339 string with as many digits as it needs.\<close>

definition enc_time :: "env \<Rightarrow> int \<Rightarrow> json" where
  "enc_time E t = JStr (e_time_auto E t)"

definition dec_time :: "env \<Rightarrow> json \<Rightarrow> int option" where
  "dec_time E v = Option.bind (dec_str v) (e_time_parse E)"

lemma enc_time_ok [simp]:
  "json_ok (enc_time E t)" "float_free (enc_time E t)" "json_wf (enc_time E t)" "enc_time E t \<noteq> JNull"
  by (simp_all add: enc_time_def)

lemma dec_enc_time: "time_ok E \<Longrightarrow> rfc3339_time t \<Longrightarrow> dec_time E (enc_time E t) = Some t"
  by (simp add: dec_time_def enc_time_def time_ok_def)

definition policy_fields :: "env \<Rightarrow> access_policy \<Rightarrow> jmap" where
  "policy_fields E p =
     [(''policy_id'', JStr (ap_policy_id p)),
      (''secret_refs'', enc_list JStr (ap_secret_refs p)),
      (''allowed_consumers'', enc_list JStr (ap_allowed_consumers p)),
      (''denied_consumers'', enc_list JStr (ap_denied_consumers p)),
      (''allowed_purposes'', enc_list JStr (ap_allowed_purposes p)),
      (''denied_purposes'', enc_list JStr (ap_denied_purposes p)),
      (''allowed_delivery_modes'', enc_list enc_mode (ap_allowed_delivery_modes p)),
      (''allowed_http_hosts'', enc_list JStr (ap_allowed_http_hosts p)),
      (''denied_http_hosts'', enc_list JStr (ap_denied_http_hosts p)),
      (''allowed_http_methods'', enc_list JStr (ap_allowed_http_methods p)),
      (''denied_http_methods'', enc_list JStr (ap_denied_http_methods p)),
      (''allowed_http_path_prefixes'', enc_list JStr (ap_allowed_http_path_prefixes p)),
      (''denied_http_path_prefixes'', enc_list JStr (ap_denied_http_path_prefixes p)),
      (''require_https_for_brokered_http'', JBool (ap_require_https_for_brokered_http p)),
      (''max_http_request_body_bytes'', enc_opt enc_u64 (ap_max_http_request_body_bytes p)),
      (''allowed_os_uids'', enc_list enc_u32 (ap_allowed_os_uids p)),
      (''denied_os_uids'', enc_list enc_u32 (ap_denied_os_uids p)),
      (''allowed_executable_paths'', enc_list JStr (ap_allowed_executable_paths p)),
      (''denied_executable_paths'', enc_list JStr (ap_denied_executable_paths p)),
      (''allowed_executable_sha256'', enc_list JStr (ap_allowed_executable_sha256 p)),
      (''denied_executable_sha256'', enc_list JStr (ap_denied_executable_sha256 p)),
      (''exportable'', JBool (ap_exportable p)),
      (''max_ticket_ttl_seconds'', enc_u64 (ap_max_ticket_ttl_seconds p)),
      (''max_uses'', enc_u32 (ap_max_uses p)),
      (''minimum_provider_assurance'', JStr (ap_minimum_provider_assurance p)),
      (''require_mfa'', JBool (ap_require_mfa p)),
      (''allow_unbound_plaintext_export'', JBool (ap_allow_unbound_plaintext_export p)),
      (''expires_at'', enc_opt (enc_time E) (ap_expires_at p))]"

definition enc_policy :: "env \<Rightarrow> access_policy \<Rightarrow> json" where
  "enc_policy E p = JObj (policy_fields E p)"

definition dec_policy :: "env \<Rightarrow> json \<Rightarrow> access_policy option" where
  "dec_policy E v = do {
     m \<leftarrow> dec_obj v;
     policy_id \<leftarrow> fld dec_str ''policy_id'' m;
     secret_refs \<leftarrow> fld_def (dec_list dec_str) [] ''secret_refs'' m;
     allowed_consumers \<leftarrow> fld_def (dec_list dec_str) [] ''allowed_consumers'' m;
     denied_consumers \<leftarrow> fld_def (dec_list dec_str) [] ''denied_consumers'' m;
     allowed_purposes \<leftarrow> fld_def (dec_list dec_str) [] ''allowed_purposes'' m;
     denied_purposes \<leftarrow> fld_def (dec_list dec_str) [] ''denied_purposes'' m;
     allowed_delivery_modes \<leftarrow> fld_def (dec_list dec_mode) [] ''allowed_delivery_modes'' m;
     allowed_http_hosts \<leftarrow> fld_def (dec_list dec_str) [] ''allowed_http_hosts'' m;
     denied_http_hosts \<leftarrow> fld_def (dec_list dec_str) [] ''denied_http_hosts'' m;
     allowed_http_methods \<leftarrow> fld_def (dec_list dec_str) [] ''allowed_http_methods'' m;
     denied_http_methods \<leftarrow> fld_def (dec_list dec_str) [] ''denied_http_methods'' m;
     allowed_http_path_prefixes \<leftarrow> fld_def (dec_list dec_str) [] ''allowed_http_path_prefixes'' m;
     denied_http_path_prefixes \<leftarrow> fld_def (dec_list dec_str) [] ''denied_http_path_prefixes'' m;
     require_https_for_brokered_http \<leftarrow> fld_def dec_bool False ''require_https_for_brokered_http'' m;
     max_http_request_body_bytes \<leftarrow> fld_def (dec_opt dec_u64) None ''max_http_request_body_bytes'' m;
     allowed_os_uids \<leftarrow> fld_def (dec_list dec_u32) [] ''allowed_os_uids'' m;
     denied_os_uids \<leftarrow> fld_def (dec_list dec_u32) [] ''denied_os_uids'' m;
     allowed_executable_paths \<leftarrow> fld_def (dec_list dec_str) [] ''allowed_executable_paths'' m;
     denied_executable_paths \<leftarrow> fld_def (dec_list dec_str) [] ''denied_executable_paths'' m;
     allowed_executable_sha256 \<leftarrow> fld_def (dec_list dec_str) [] ''allowed_executable_sha256'' m;
     denied_executable_sha256 \<leftarrow> fld_def (dec_list dec_str) [] ''denied_executable_sha256'' m;
     exportable \<leftarrow> fld_def dec_bool False ''exportable'' m;
     max_ticket_ttl_seconds \<leftarrow> fld_def dec_u64 default_ticket_ttl ''max_ticket_ttl_seconds'' m;
     max_uses \<leftarrow> fld_def dec_u32 default_max_uses ''max_uses'' m;
     minimum_provider_assurance \<leftarrow> fld_def dec_str default_minimum_provider_assurance ''minimum_provider_assurance'' m;
     require_mfa \<leftarrow> fld_def dec_bool False ''require_mfa'' m;
     allow_unbound_plaintext_export \<leftarrow> fld_def dec_bool False ''allow_unbound_plaintext_export'' m;
     expires_at \<leftarrow> fld_def (dec_opt (dec_time E)) None ''expires_at'' m;
     Some \<lparr>ap_policy_id = policy_id,
       ap_secret_refs = secret_refs,
       ap_allowed_consumers = allowed_consumers,
       ap_denied_consumers = denied_consumers,
       ap_allowed_purposes = allowed_purposes,
       ap_denied_purposes = denied_purposes,
       ap_allowed_delivery_modes = allowed_delivery_modes,
       ap_allowed_http_hosts = allowed_http_hosts,
       ap_denied_http_hosts = denied_http_hosts,
       ap_allowed_http_methods = allowed_http_methods,
       ap_denied_http_methods = denied_http_methods,
       ap_allowed_http_path_prefixes = allowed_http_path_prefixes,
       ap_denied_http_path_prefixes = denied_http_path_prefixes,
       ap_require_https_for_brokered_http = require_https_for_brokered_http,
       ap_max_http_request_body_bytes = max_http_request_body_bytes,
       ap_allowed_os_uids = allowed_os_uids,
       ap_denied_os_uids = denied_os_uids,
       ap_allowed_executable_paths = allowed_executable_paths,
       ap_denied_executable_paths = denied_executable_paths,
       ap_allowed_executable_sha256 = allowed_executable_sha256,
       ap_denied_executable_sha256 = denied_executable_sha256,
       ap_exportable = exportable,
       ap_max_ticket_ttl_seconds = max_ticket_ttl_seconds,
       ap_max_uses = max_uses,
       ap_minimum_provider_assurance = minimum_provider_assurance,
       ap_require_mfa = require_mfa,
       ap_allow_unbound_plaintext_export = allow_unbound_plaintext_export,
       ap_expires_at = expires_at\<rparr>
   }"

definition policy_domain :: "env \<Rightarrow> access_policy \<Rightarrow> bool" where
  "policy_domain E p \<longleftrightarrow> time_ok E \<and> pred_option rfc3339_time (ap_expires_at p)"

lemma dec_enc_expiry:
  "policy_domain E p \<Longrightarrow> dec_opt (dec_time E) (enc_opt (enc_time E) (ap_expires_at p))
     = Some (ap_expires_at p)"
proof (cases "ap_expires_at p")
  case (Some t)
  assume "policy_domain E p"
  with Some have "dec_time E (enc_time E t) = Some t"
    by (simp add: policy_domain_def dec_enc_time)
  then show ?thesis
    by (simp add: Some enc_opt_def dec_opt_def enc_time_def)
qed (simp add: enc_opt_def dec_opt_def)

lemma policy_keys:
  "map fst (policy_fields E p) = map fst (policy_fields E q)" "distinct (map fst (policy_fields E p))"
  by (simp_all add: policy_fields_def)

interpretation policy_codec: json_codec "enc_policy E" "dec_policy E" "policy_domain E" for E
proof
  show "dec_policy E (enc_policy E p) = Some p" if "policy_domain E p" for p
    using dec_enc_expiry [OF that]
    by (simp add: dec_policy_def enc_policy_def policy_fields_def)
qed

lemma enc_policy_wf [simp]: "json_wf (enc_policy E p)"
  by (simp add: enc_policy_def policy_fields_def)

lemma policy_fields_ok:
  "\<forall>f \<in> set (policy_fields E p). json_ok (snd f)" "\<forall>f \<in> set (policy_fields E p). float_free (snd f)"
  by (simp_all add: policy_fields_def)

end
