(* ===== verification/Sample.thy ===== *)
theory Sample
  imports Environment
begin

text \<open>
  One concrete environment with every documented behaviour that the theorems assume: a JSON text
  that parses back, a toy cipher with a tag, encodings that decode, a clock that advances and
  identifiers that do not repeat. It stands in for no cryptography; it shows that the assumptions
  hold together, and the examples beside the theorems are evaluated in it.
\<close>

section \<open>A JSON text\<close>

text \<open>A string is its characters, each marked, with an end marker.\<close>

fun str_code :: "string \<Rightarrow> string" where
  "str_code [] = ''.''"
| "str_code (c # s) = CHR '':'' # c # str_code s"

fun str_read :: "string \<Rightarrow> (string \<times> string) option" where
  "str_read (x # c # s) =
     (if x = CHR ''.'' then Some ([], c # s)
      else map_option (\<lambda>(t, rest). (c # t, rest)) (str_read s))"
| "str_read (x # []) = (if x = CHR ''.'' then Some ([], []) else None)"
| "str_read [] = None"

lemma str_read_code [simp]: "str_read (str_code s @ rest) = Some (s, rest)"
proof (induction s)
  case Nil
  then show ?case by (cases rest) simp_all
qed simp

lemma length_str_code: "0 < length (str_code s)"
  by (cases s) simp_all

fun pr :: "json \<Rightarrow> string" where
  "pr JNull = ''n''"
| "pr (JBool b) = (if b then ''t'' else ''f'')"
| "pr (JNum (PosInt w)) = CHR ''p'' # str_code (nat_dec (unat w))"
| "pr (JNum (NegInt w)) = CHR ''m'' # str_code (nat_dec (unat w))"
| "pr (JNum (Float _)) = ''x''"
| "pr (JStr s) = CHR ''s'' # str_code s"
| "pr (JArr xs) = CHR ''a'' # concat (map (\<lambda>x. CHR '','' # pr x) xs) @ '']''"
| "pr (JObj m) = CHR ''o'' # concat (map (\<lambda>f. CHR '','' # str_code (fst f) @ pr (snd f)) m) @ '']''"

text \<open>The reader's fuel is a bound on the length of the text.\<close>

fun rd :: "nat \<Rightarrow> string \<Rightarrow> (json \<times> string) option"
  and rd_items :: "nat \<Rightarrow> string \<Rightarrow> (json list \<times> string) option"
  and rd_fields :: "nat \<Rightarrow> string \<Rightarrow> (jmap \<times> string) option" where
  "rd (Suc n) (c # s) =
     (if c = CHR ''n'' then Some (JNull, s)
      else if c = CHR ''t'' then Some (JBool True, s)
      else if c = CHR ''f'' then Some (JBool False, s)
      else if c = CHR ''p''
      then map_option (\<lambda>(d, r). (JNum (PosInt (word_of_nat (dec_val d))), r)) (str_read s)
      else if c = CHR ''m''
      then map_option (\<lambda>(d, r). (JNum (NegInt (word_of_nat (dec_val d))), r)) (str_read s)
      else if c = CHR ''s'' then map_option (\<lambda>(d, r). (JStr d, r)) (str_read s)
      else if c = CHR ''a'' then map_option (\<lambda>(d, r). (JArr d, r)) (rd_items n s)
      else if c = CHR ''o'' then map_option (\<lambda>(d, r). (JObj d, r)) (rd_fields n s)
      else None)"
| "rd _ _ = None"
| "rd_items (Suc n) (c # s) =
     (if c = CHR '']'' then Some ([], s)
      else case rd n s of None \<Rightarrow> None
        | Some (x, r) \<Rightarrow> map_option (\<lambda>(xs, r). (x # xs, r)) (rd_items n r))"
| "rd_items _ _ = None"
| "rd_fields (Suc n) (c # s) =
     (if c = CHR '']'' then Some ([], s)
      else case str_read s of None \<Rightarrow> None
        | Some (k, r) \<Rightarrow> (case rd n r of None \<Rightarrow> None
          | Some (x, r) \<Rightarrow> map_option (\<lambda>(m, r). ((k, x) # m, r)) (rd_fields n r)))"
| "rd_fields _ _ = None"

lemma rd_items_pr:
  assumes "\<And>x n rest. x \<in> set xs \<Longrightarrow> length (pr x) \<le> n \<Longrightarrow> rd n (pr x @ rest) = Some (x, rest)"
    and "length (concat (map (\<lambda>x. CHR '','' # pr x) xs)) < n"
  shows "rd_items n (concat (map (\<lambda>x. CHR '','' # pr x) xs) @ CHR '']'' # rest) = Some (xs, rest)"
  using assms
proof (induction xs arbitrary: n)
  case Nil
  then show ?case by (cases n) simp_all
next
  case (Cons x xs)
  from Cons.prems(2) obtain m where n: "n = Suc m"
    by (cases n) simp_all
  have "rd m (pr x @ s) = Some (x, s)" for s
    using Cons.prems n by simp
  moreover have "rd_items m (concat (map (\<lambda>x. CHR '','' # pr x) xs) @ CHR '']'' # rest)
      = Some (xs, rest)"
    using Cons.prems n by (intro Cons.IH) simp_all
  ultimately show ?case
    by (simp add: n)
qed

lemma rd_fields_pr:
  assumes "\<And>f n rest. f \<in> set m \<Longrightarrow> length (pr (snd f)) \<le> n \<Longrightarrow>
      rd n (pr (snd f) @ rest) = Some (snd f, rest)"
    and "length (concat (map (\<lambda>f. CHR '','' # str_code (fst f) @ pr (snd f)) m)) < n"
  shows "rd_fields n (concat (map (\<lambda>f. CHR '','' # str_code (fst f) @ pr (snd f)) m) @ CHR '']'' # rest)
    = Some (m, rest)"
  using assms
proof (induction m arbitrary: n)
  case Nil
  then show ?case by (cases n) simp_all
next
  case (Cons f m)
  from Cons.prems(2) obtain k where n: "n = Suc k"
    by (cases n) simp_all
  have "rd k (pr (snd f) @ s) = Some (snd f, s)" for s
    using Cons.prems n by simp
  moreover have "rd_fields k (concat (map (\<lambda>f. CHR '','' # str_code (fst f) @ pr (snd f)) m)
      @ CHR '']'' # rest) = Some (m, rest)"
    using Cons.prems n by (intro Cons.IH) simp_all
  ultimately show ?case
    by (simp add: n)
qed

lemma rd_pr: "json_wf v \<Longrightarrow> length (pr v) \<le> n \<Longrightarrow> rd n (pr v @ rest) = Some (v, rest)"
proof (induction v arbitrary: n rest)
  case (JNum x)
  then show ?case by (cases x; cases n) simp_all
next
  case (JArr xs)
  then obtain m where n: "n = Suc m"
    by (cases n) simp_all
  have "rd_items m (concat (map (\<lambda>x. CHR '','' # pr x) xs) @ CHR '']'' # rest) = Some (xs, rest)"
    using JArr n by (intro rd_items_pr) simp_all
  then show ?case by (simp add: n)
next
  case (JObj xs)
  then obtain m where n: "n = Suc m"
    by (cases n) simp_all
  have "rd_fields m (concat (map (\<lambda>f. CHR '','' # str_code (fst f) @ pr (snd f)) xs)
      @ CHR '']'' # rest) = Some (xs, rest)"
    using JObj.prems n by (intro rd_fields_pr JObj.IH) (auto simp: snds.simps)
  then show ?case by (simp add: n)
qed (case_tac [!] n, simp_all split: if_splits)

section \<open>The environment\<close>

definition pad :: "nat \<Rightarrow> bytes \<Rightarrow> bytes" where
  "pad n bs = take n (bs @ replicate n 0)"

lemma length_pad [simp]: "length (pad n bs) = n"
  by (simp add: pad_def)

definition toy_tag :: "bytes \<Rightarrow> bytes \<Rightarrow> bytes \<Rightarrow> bytes \<Rightarrow> bytes" where
  "toy_tag k n m a = [sum_list k, sum_list n, sum_list m, sum_list a]"

definition toy_enc :: "bytes \<Rightarrow> bytes \<Rightarrow> bytes \<Rightarrow> bytes \<Rightarrow> bytes option" where
  "toy_enc k n m a =
     (if length k = 32 \<and> length n = 12 then Some (toy_tag k n m a @ m) else None)"

definition toy_dec :: "bytes \<Rightarrow> bytes \<Rightarrow> bytes \<Rightarrow> bytes \<Rightarrow> bytes option" where
  "toy_dec k n c a =
     (let m = drop 4 c in if take 4 c = toy_tag k n m a then Some m else None)"

definition int_text :: "int \<Rightarrow> string" where
  "int_text i = (if i < 0 then CHR ''-'' # nat_dec (nat (- i)) else CHR ''+'' # nat_dec (nat i))"

definition text_int :: "string \<Rightarrow> int option" where
  "text_int s = (case s of [] \<Rightarrow> None
     | c # d \<Rightarrow> Some (if c = CHR ''-'' then - int (dec_val d) else int (dec_val d)))"

definition sample_host :: host_env where
  "sample_host =
     \<lparr>x_regex_replace = (\<lambda>_ _ t. t),
      x_regex_find = (\<lambda>_ _. []),
      x_regex_captures = (\<lambda>_ _. None),
      x_read_file = (\<lambda>_ _. None),
      x_read_link = (\<lambda>_ _. None),
      x_current_exe = (\<lambda>_. None),
      x_ids = (\<lambda>_. (1, 1000, 1000)),
      x_http = (\<lambda>_ q. HttpAnswer 200 [] (Some (as_bytes (hq_url q)))),
      x_json_pretty = pr,
      x_message = (\<lambda>_. ''failed''),
      x_float_text = (\<lambda>r. int_text \<lfloor>r\<rfloor>),
      x_canonical_path = (\<lambda>_ p. Some p),
      x_read_tree = (\<lambda>_ _. Dir []),
      x_platform = (''linux'', ''x86_64''),
      x_public_pem = (\<lambda>k. Some (from_bytes k)),
      x_private_pem = (\<lambda>_ k _. Some (from_bytes k)),
      x_load_private = (\<lambda>s _. Some (as_bytes s)),
      x_load_public = (\<lambda>s. Some (as_bytes s)),
      x_sign = (\<lambda>k m. pad 64 (k @ m)),
      x_verify = (\<lambda>k m s. s = pad 64 (k @ m)),
      x_zip = (\<lambda>_. []),
      x_unzip = (\<lambda>_. None),
      x_checkpoint = (\<lambda>db _. Some db),
      x_stdin = (\<lambda>_. Some []),
      x_child = (\<lambda>_ _ _ _. ChildExited (Some 0) [] []),
      x_temp_file = (\<lambda>n p. Some (''/tmp/'' @ p @ nat_dec n)),
      x_fd = (\<lambda>n. Some (n + 3)),
      x_broker = (\<lambda>_ _ _. None)\<rparr>"

definition sample_env :: env where
  "sample_env =
     \<lparr>e_host = sample_host,
      e_sha256 = pad 32,
      e_hmac_sha256 = (\<lambda>k m. pad 32 (rev m)),
      e_hmac_sha1 = (\<lambda>k m. pad 20 m),
      e_aes_enc = toy_enc,
      e_aes_dec = toy_dec,
      e_scrypt = (\<lambda>p s n r q. Some (pad 32 (p @ s))),
      e_b64url = from_bytes,
      e_b64url_dec = (\<lambda>s. Some (as_bytes s)),
      e_b64 = from_bytes,
      e_b64_dec = (\<lambda>s. Some (as_bytes s)),
      e_json_print = pr,
      e_json_parse = (\<lambda>s. case rd (length s) s of Some (v, []) \<Rightarrow> Some v | _ \<Rightarrow> None),
      e_time_ms = (\<lambda>t. int_text (floor_ms t)),
      e_time_auto = int_text,
      e_time_parse = text_int,
      e_time_add = (\<lambda>t s. Some (t + s * 10 ^ 9)),
      e_clock = (\<lambda>n. int n * 10 ^ 9),
      e_uuid = nat_dec,
      e_rand = (\<lambda>t n. replicate n (word_of_nat t)),
      e_fault = (\<lambda>_. None),
      e_read_text = (\<lambda>_ p. if p = ''/etc/machine-id'' then Some ''0123abcd'' else None),
      e_file_mode = (\<lambda>_ _. None),
      e_is_file = (\<lambda>_ _. False),
      e_var = (\<lambda>_ _. None),
      e_temp_dir = (\<lambda>n. Some (''/tmp/'' @ nat_dec n)),
      e_write_ok = (\<lambda>_ _. True),
      e_run = (\<lambda>_ _ _ _ fs. (NotFound, fs)),
      e_tss_context = (\<lambda>_ _. False),
      e_tss_seal = (\<lambda>_ _ _. None),
      e_tss_unseal = (\<lambda>_ _ _ _. None)\<rparr>"

lemma text_int_text [simp]: "text_int (int_text i) = Some i"
  by (simp add: text_int_def int_text_def)

lemma sample_ok:
  "aead_ok sample_env" "b64url_ok sample_env" "digest_ok sample_env" "json_text_ok sample_env"
  "time_ok sample_env" "fresh_ok sample_env" "no_faults sample_env"
proof -
  show "json_text_ok sample_env"
    using rd_pr [OF _ order_refl, where rest = "[]"] by (simp add: json_text_ok_def sample_env_def)
  show "fresh_ok sample_env"
    by (auto simp: fresh_ok_def sample_env_def inj_on_def)
qed (auto simp: aead_ok_def b64url_ok_def digest_ok_def time_ok_def no_faults_def sample_env_def
    toy_enc_def toy_dec_def toy_tag_def Let_def split: if_splits)

lemma sample_simps [simp]:
  "e_sha256 sample_env = pad 32" "e_hmac_sha256 sample_env k m = pad 32 (rev m)"
  "e_b64url sample_env = from_bytes" "e_time_ms sample_env t = int_text (floor_ms t)"
  "e_time_parse sample_env = text_int" "e_time_add sample_env t s = Some (t + s * 10 ^ 9)"
  "e_clock sample_env n = int n * 10 ^ 9" "e_uuid sample_env = nat_dec"
  "e_rand sample_env i n = replicate n (word_of_nat i)" "e_fault sample_env i = None"
  "e_aes_enc sample_env = toy_enc" "e_aes_dec sample_env = toy_dec"
  "e_json_print sample_env = pr"
  by (simp_all add: sample_env_def)

end
