(* ===== verification/Tickets.thy ===== *)
theory Tickets
  imports Policy Sample
begin

text \<open>
  Component \<open>tickets.rs\<close>: Secret Access Tickets, their MAC over every other field, and the manager's
  operations: issue, validate, consume, revoke.
\<close>

section \<open>Tickets\<close>

datatype ticket_error =
    MacMismatch | Revoked | ReplayDenied | Expired | SecretContextMismatch
  | ConsumerContextMismatch | PurposeContextMismatch | DeliveryContextMismatch
  | HttpHostContextMismatch | HttpSchemeContextMismatch | HttpMethodContextMismatch
  | HttpPathContextMismatch | HttpRequestBodyContextMismatch | OsUserContextMismatch
  | ExecutablePathContextMismatch | ExecutableHashContextMismatch | PolicyContextMismatch
  | BrokerSessionContextMismatch

record secret_access_ticket =
  tk_ticket_id :: string
  tk_vault_id :: string
  tk_secret_id :: string
  tk_secret_ref :: string
  tk_secret_version :: u64
  tk_consumer :: string
  tk_purpose :: string
  tk_delivery_mode :: delivery_mode
  tk_http_host :: "string option"
  tk_http_scheme :: "string option"
  tk_http_method :: "string option"
  tk_http_path :: "string option"
  tk_http_request_body_bytes :: "u64 option"
  tk_os_uid :: "u32 option"
  tk_executable_path :: "string option"
  tk_executable_sha256 :: "string option"
  tk_policy_id :: string
  tk_policy_hash :: string
  tk_exportable :: bool
  tk_model_visible :: bool
  tk_shell_visible :: bool
  tk_broker_session_id :: "string option"
  tk_issued_at :: string
  tk_expires_at :: string
  tk_max_uses :: u32
  tk_uses_remaining :: u32
  tk_revoked :: bool
  tk_mac :: string

section \<open>JSON form\<close>

definition ticket_body :: "secret_access_ticket \<Rightarrow> jmap" where
  "ticket_body t =
     [(''ticket_id'', JStr (tk_ticket_id t)),
      (''vault_id'', JStr (tk_vault_id t)),
      (''secret_id'', JStr (tk_secret_id t)),
      (''secret_ref'', JStr (tk_secret_ref t)),
      (''secret_version'', enc_u64 (tk_secret_version t)),
      (''consumer'', JStr (tk_consumer t)),
      (''purpose'', JStr (tk_purpose t)),
      (''delivery_mode'', enc_mode (tk_delivery_mode t)),
      (''http_host'', enc_opt JStr (tk_http_host t)),
      (''http_scheme'', enc_opt JStr (tk_http_scheme t)),
      (''http_method'', enc_opt JStr (tk_http_method t)),
      (''http_path'', enc_opt JStr (tk_http_path t)),
      (''http_request_body_bytes'', enc_opt enc_u64 (tk_http_request_body_bytes t)),
      (''os_uid'', enc_opt enc_u32 (tk_os_uid t)),
      (''executable_path'', enc_opt JStr (tk_executable_path t)),
      (''executable_sha256'', enc_opt JStr (tk_executable_sha256 t)),
      (''policy_id'', JStr (tk_policy_id t)),
      (''policy_hash'', JStr (tk_policy_hash t)),
      (''exportable'', JBool (tk_exportable t)),
      (''model_visible'', JBool (tk_model_visible t)),
      (''shell_visible'', JBool (tk_shell_visible t)),
      (''broker_session_id'', enc_opt JStr (tk_broker_session_id t)),
      (''issued_at'', JStr (tk_issued_at t)),
      (''expires_at'', JStr (tk_expires_at t)),
      (''max_uses'', enc_u32 (tk_max_uses t)),
      (''uses_remaining'', enc_u32 (tk_uses_remaining t)),
      (''revoked'', JBool (tk_revoked t))]"

definition ticket_fields :: "secret_access_ticket \<Rightarrow> jmap" where
  "ticket_fields t = ticket_body t @ [(''mac'', JStr (tk_mac t))]"

definition enc_ticket :: "secret_access_ticket \<Rightarrow> json" where
  "enc_ticket t = JObj (ticket_fields t)"

definition dec_ticket :: "json \<Rightarrow> secret_access_ticket option" where
  "dec_ticket v = do {
     m \<leftarrow> dec_obj v;
     ticket_id \<leftarrow> fld dec_str ''ticket_id'' m;
     vault_id \<leftarrow> fld dec_str ''vault_id'' m;
     secret_id \<leftarrow> fld_def dec_str [] ''secret_id'' m;
     secret_ref \<leftarrow> fld dec_str ''secret_ref'' m;
     secret_version \<leftarrow> fld_def dec_u64 0 ''secret_version'' m;
     consumer \<leftarrow> fld dec_str ''consumer'' m;
     purpose \<leftarrow> fld dec_str ''purpose'' m;
     delivery_mode \<leftarrow> fld dec_mode ''delivery_mode'' m;
     http_host \<leftarrow> fld_opt dec_str ''http_host'' m;
     http_scheme \<leftarrow> fld_opt dec_str ''http_scheme'' m;
     http_method \<leftarrow> fld_opt dec_str ''http_method'' m;
     http_path \<leftarrow> fld_opt dec_str ''http_path'' m;
     http_request_body_bytes \<leftarrow> fld_opt dec_u64 ''http_request_body_bytes'' m;
     os_uid \<leftarrow> fld_opt dec_u32 ''os_uid'' m;
     executable_path \<leftarrow> fld_opt dec_str ''executable_path'' m;
     executable_sha256 \<leftarrow> fld_opt dec_str ''executable_sha256'' m;
     policy_id \<leftarrow> fld dec_str ''policy_id'' m;
     policy_hash \<leftarrow> fld dec_str ''policy_hash'' m;
     exportable \<leftarrow> fld_def dec_bool False ''exportable'' m;
     model_visible \<leftarrow> fld_def dec_bool False ''model_visible'' m;
     shell_visible \<leftarrow> fld_def dec_bool False ''shell_visible'' m;
     broker_session_id \<leftarrow> fld_def (dec_opt dec_str) None ''broker_session_id'' m;
     issued_at \<leftarrow> fld dec_str ''issued_at'' m;
     expires_at \<leftarrow> fld dec_str ''expires_at'' m;
     max_uses \<leftarrow> fld dec_u32 ''max_uses'' m;
     uses_remaining \<leftarrow> fld dec_u32 ''uses_remaining'' m;
     revoked \<leftarrow> fld dec_bool ''revoked'' m;
     mac \<leftarrow> fld dec_str ''mac'' m;
     Some \<lparr>tk_ticket_id = ticket_id,
       tk_vault_id = vault_id,
       tk_secret_id = secret_id,
       tk_secret_ref = secret_ref,
       tk_secret_version = secret_version,
       tk_consumer = consumer,
       tk_purpose = purpose,
       tk_delivery_mode = delivery_mode,
       tk_http_host = http_host,
       tk_http_scheme = http_scheme,
       tk_http_method = http_method,
       tk_http_path = http_path,
       tk_http_request_body_bytes = http_request_body_bytes,
       tk_os_uid = os_uid,
       tk_executable_path = executable_path,
       tk_executable_sha256 = executable_sha256,
       tk_policy_id = policy_id,
       tk_policy_hash = policy_hash,
       tk_exportable = exportable,
       tk_model_visible = model_visible,
       tk_shell_visible = shell_visible,
       tk_broker_session_id = broker_session_id,
       tk_issued_at = issued_at,
       tk_expires_at = expires_at,
       tk_max_uses = max_uses,
       tk_uses_remaining = uses_remaining,
       tk_revoked = revoked,
       tk_mac = mac\<rparr>
   }"

interpretation ticket_codec: json_codec enc_ticket dec_ticket "\<lambda>_. True"
proof
  show "dec_ticket (enc_ticket t) = Some t" for t
    by (simp add: dec_ticket_def enc_ticket_def ticket_fields_def ticket_body_def)
qed

lemma ticket_body_ok:
  "\<forall>f \<in> set (ticket_body t). json_ok (snd f)" "\<forall>f \<in> set (ticket_body t). float_free (snd f)"
  "\<forall>f \<in> set (ticket_body t). json_wf (snd f)"
  by (simp_all add: ticket_body_def)

lemma ticket_body_keys:
  "map fst (ticket_body t) = map fst (ticket_body u)" "distinct (map fst (ticket_body t))"
  "''mac'' \<notin> set (map fst (ticket_body t))"
  by (simp_all add: ticket_body_def)

lemma ticket_body_mac [simp]: "ticket_body (t\<lparr>tk_mac := x\<rparr>) = ticket_body t"
  by (simp add: ticket_body_def)

lemma enc_ticket_wf [simp]: "json_wf (enc_ticket t)"
  using ticket_body_ok(3) [of t] ticket_body_keys(2,3) [of t]
  by (auto simp: enc_ticket_def ticket_fields_def)

text \<open>The payload under the MAC: the ticket's value with the MAC field removed.\<close>

definition ticket_payload :: "secret_access_ticket \<Rightarrow> json" where
  "ticket_payload t = JObj (map_remove ''mac'' (map_build (ticket_fields t)))"

lemma ticket_payload_eq: "ticket_payload t = to_value (ticket_body t)"
proof -
  have "distinct (map fst (ticket_fields t))"
    using ticket_body_keys(2,3) [of t] by (auto simp: ticket_fields_def)
  moreover have "filter (\<lambda>f. fst f \<noteq> ''mac'') (ticket_body t) = ticket_body t"
    using ticket_body_keys(3) [of t] by (force simp: filter_id_conv)
  ultimately show ?thesis
    by (simp add: ticket_payload_def to_value_def map_remove_build ticket_fields_def)
qed

lemma ticket_payload_mac [simp]: "ticket_payload (t\<lparr>tk_mac := x\<rparr>) = ticket_payload t"
  by (simp add: ticket_payload_eq)

text \<open>The payload determines every field but the MAC.\<close>

lemma ticket_payload_inject:
  "ticket_payload t = ticket_payload u \<longleftrightarrow> t\<lparr>tk_mac := x\<rparr> = u\<lparr>tk_mac := x\<rparr>"
proof
  assume "ticket_payload t = ticket_payload u"
  then have "ticket_body t = ticket_body u"
    using to_value_inject [OF ticket_body_keys(1,2), of t u] by (simp add: ticket_payload_eq)
  then have "enc_ticket (t\<lparr>tk_mac := x\<rparr>) = enc_ticket (u\<lparr>tk_mac := x\<rparr>)"
    by (simp add: enc_ticket_def ticket_fields_def)
  then show "t\<lparr>tk_mac := x\<rparr> = u\<lparr>tk_mac := x\<rparr>"
    by (simp add: ticket_codec.enc_inject)
next
  assume "t\<lparr>tk_mac := x\<rparr> = u\<lparr>tk_mac := x\<rparr>"
  then show "ticket_payload t = ticket_payload u"
    by (metis ticket_payload_mac)
qed

section \<open>The manager\<close>

text \<open>\<open>expect\<close>: an error is a panic.\<close>

definition expect_r :: "('a, 'e) result \<Rightarrow> ('a, 'f) result" where
  "expect_r r = (case r of Ok x \<Rightarrow> Ok x | _ \<Rightarrow> Panic)"

definition ticket_mac :: "env \<Rightarrow> bytes \<Rightarrow> json \<Rightarrow> (string, 'e) result" where
  "ticket_mac E mac_key payload =
     bind_r (expect_r (canonical E payload)) (\<lambda>b. Ok (e_b64url E (e_hmac_sha256 E mac_key b)))"

definition policy_hash :: "env \<Rightarrow> access_policy \<Rightarrow> (string, 'e) result" where
  "policy_hash E p =
     bind_r (expect_r (canonical E (to_value (policy_fields E p))))
       (\<lambda>b. Ok (e_b64url E (e_sha256 E b)))"

definition issue :: "env \<Rightarrow> bytes \<Rightarrow> string \<Rightarrow> string \<Rightarrow> u64 \<Rightarrow> access_request \<Rightarrow> access_policy \<Rightarrow> string
    \<Rightarrow> string option \<Rightarrow> ('z sys_scheme, secret_access_ticket, 'e) act" where
  "issue E mac_key vault_id secret_id secret_version r p hash session =
     (case e_time_add E (rq_now r) (sint (ap_max_ticket_ttl_seconds p)) of
        None \<Rightarrow> lift_r Panic
      | Some expires_at \<Rightarrow>
     bnd (new_uuid E) (\<lambda>ticket_id.
     let ticket =
       \<lparr>tk_ticket_id = ticket_id,
        tk_vault_id = vault_id,
        tk_secret_id = secret_id,
        tk_secret_ref = rq_secret_ref r,
        tk_secret_version = secret_version,
        tk_consumer = rq_consumer r,
        tk_purpose = rq_purpose r,
        tk_delivery_mode = rq_delivery_mode r,
        tk_http_host = rq_http_host r,
        tk_http_scheme = rq_http_scheme r,
        tk_http_method = rq_http_method r,
        tk_http_path = rq_http_path r,
        tk_http_request_body_bytes = rq_http_request_body_bytes r,
        tk_os_uid = rq_os_uid r,
        tk_executable_path = rq_executable_path r,
        tk_executable_sha256 = rq_executable_sha256 r,
        tk_policy_id = ap_policy_id p,
        tk_policy_hash = hash,
        tk_exportable = ap_exportable p,
        tk_model_visible = False,
        tk_shell_visible = (rq_delivery_mode r \<in> {ChildEnv, TerminalPrint, Raw}),
        tk_broker_session_id = session,
        tk_issued_at = e_time_ms E (rq_now r),
        tk_expires_at = e_time_ms E expires_at,
        tk_max_uses = ap_max_uses p,
        tk_uses_remaining = ap_max_uses p,
        tk_revoked = False,
        tk_mac = []\<rparr>
     in bnd (lift_r (ticket_mac E mac_key (ticket_payload ticket)))
          (\<lambda>mac. ret (ticket\<lparr>tk_mac := mac\<rparr>))))"

definition broker_session_id_matches :: "secret_access_ticket \<Rightarrow> string option \<Rightarrow> bool" where
  "broker_session_id_matches t request_session =
     (case (tk_broker_session_id t, request_session) of
        (Some ticket_session, Some session) \<Rightarrow> ticket_session = session
      | (Some _, None) \<Rightarrow> False
      | (None, _) \<Rightarrow> True)"

definition validate :: "env \<Rightarrow> bytes \<Rightarrow> secret_access_ticket \<Rightarrow> access_request \<Rightarrow> int
    \<Rightarrow> (unit, ticket_error) result" where
  "validate E mac_key t r time =
     bind_r (ticket_mac E mac_key (ticket_payload t)) (\<lambda>mac.
     if mac \<noteq> tk_mac t then Err MacMismatch
     else if tk_revoked t then Err Revoked
     else if tk_uses_remaining t < 1 then Err ReplayDenied
     else bind_r (ok_or (e_time_parse E (tk_expires_at t)) Expired) (\<lambda>expires_at.
     if time > expires_at then Err Expired
     else if tk_secret_ref t \<noteq> rq_secret_ref r then Err SecretContextMismatch
     else if \<not> broker_session_id_matches t (rq_broker_session_id r)
       then Err BrokerSessionContextMismatch
     else if tk_consumer t \<noteq> rq_consumer r then Err ConsumerContextMismatch
     else if tk_purpose t \<noteq> rq_purpose r then Err PurposeContextMismatch
     else if tk_delivery_mode t \<noteq> rq_delivery_mode r then Err DeliveryContextMismatch
     else if tk_http_host t \<noteq> rq_http_host r then Err HttpHostContextMismatch
     else if tk_http_scheme t \<noteq> rq_http_scheme r then Err HttpSchemeContextMismatch
     else if tk_http_method t \<noteq> rq_http_method r then Err HttpMethodContextMismatch
     else if tk_http_path t \<noteq> rq_http_path r then Err HttpPathContextMismatch
     else if tk_http_request_body_bytes t \<noteq> rq_http_request_body_bytes r
       then Err HttpRequestBodyContextMismatch
     else if tk_os_uid t \<noteq> rq_os_uid r then Err OsUserContextMismatch
     else if tk_executable_path t \<noteq> rq_executable_path r then Err ExecutablePathContextMismatch
     else if tk_executable_sha256 t \<noteq> rq_executable_sha256 r
       then Err ExecutableHashContextMismatch
     else Ok ()))"

definition validate_policy :: "secret_access_ticket \<Rightarrow> access_policy \<Rightarrow> string
    \<Rightarrow> (unit, ticket_error) result" where
  "validate_policy t p current_policy_hash =
     (if tk_policy_id t \<noteq> ap_policy_id p \<or> tk_policy_hash t \<noteq> current_policy_hash
      then Err PolicyContextMismatch else Ok ())"

text \<open>\<open>uses_remaining -= 1\<close> is on \<open>u32\<close>; \<open>validate\<close> has just refused a ticket with none left.\<close>

definition consume :: "env \<Rightarrow> bytes \<Rightarrow> secret_access_ticket \<Rightarrow> access_request \<Rightarrow> int
    \<Rightarrow> (secret_access_ticket, ticket_error) result" where
  "consume E mac_key t r time =
     bind_r (validate E mac_key t r time) (\<lambda>_.
     let updated = t\<lparr>tk_uses_remaining := tk_uses_remaining t - 1\<rparr>
     in bind_r (ticket_mac E mac_key (ticket_payload updated))
          (\<lambda>mac. Ok (updated\<lparr>tk_mac := mac\<rparr>)))"

definition revoke :: "env \<Rightarrow> bytes \<Rightarrow> secret_access_ticket
    \<Rightarrow> (secret_access_ticket, ticket_error) result" where
  "revoke E mac_key t =
     bind_r (ticket_mac E mac_key (ticket_payload t)) (\<lambda>mac0.
     if mac0 \<noteq> tk_mac t then Err MacMismatch
     else let updated = t\<lparr>tk_revoked := True\<rparr>
       in bind_r (ticket_mac E mac_key (ticket_payload updated))
            (\<lambda>mac. Ok (updated\<lparr>tk_mac := mac\<rparr>)))"

section \<open>The MAC\<close>

text \<open>What the MAC of a ticket must be; a ticket that carries it is sealed.\<close>

definition mac_of :: "env \<Rightarrow> bytes \<Rightarrow> secret_access_ticket \<Rightarrow> string" where
  "mac_of E mac_key t =
     e_b64url E (e_hmac_sha256 E mac_key (as_bytes (e_json_print E (ticket_payload t))))"

definition sealed :: "env \<Rightarrow> bytes \<Rightarrow> secret_access_ticket \<Rightarrow> bool" where
  "sealed E mac_key t \<longleftrightarrow> tk_mac t = mac_of E mac_key t"

definition context_matches :: "secret_access_ticket \<Rightarrow> access_request \<Rightarrow> bool" where
  "context_matches t r \<longleftrightarrow>
     tk_secret_ref t = rq_secret_ref r \<and>
     (tk_broker_session_id t = None \<or> tk_broker_session_id t = rq_broker_session_id r) \<and>
     tk_consumer t = rq_consumer r \<and> tk_purpose t = rq_purpose r \<and>
     tk_delivery_mode t = rq_delivery_mode r \<and>
     (tk_http_host t, tk_http_scheme t, tk_http_method t, tk_http_path t) =
       (rq_http_host r, rq_http_scheme r, rq_http_method r, rq_http_path r) \<and>
     tk_http_request_body_bytes t = rq_http_request_body_bytes r \<and>
     (tk_os_uid t, tk_executable_path t, tk_executable_sha256 t) =
       (rq_os_uid r, rq_executable_path r, rq_executable_sha256 r)"

definition live_at :: "env \<Rightarrow> secret_access_ticket \<Rightarrow> int \<Rightarrow> bool" where
  "live_at E t time \<longleftrightarrow>
     \<not> tk_revoked t \<and> 1 \<le> tk_uses_remaining t \<and>
     (\<exists>x. e_time_parse E (tk_expires_at t) = Some x \<and> time \<le> x)"

lemma ticket_mac_eq [simp]: "ticket_mac E k (ticket_payload t) = Ok (mac_of E k t)"
  using canonical_to_value [OF ticket_body_ok(1,2), where pr = "e_json_print E"]
  by (simp add: ticket_mac_def canonical_def expect_r_def mac_of_def ticket_payload_eq)

lemma policy_hash_eq:
  "policy_hash E p =
     Ok (e_b64url E (e_sha256 E (as_bytes (e_json_print E (to_value (policy_fields E p))))))"
  using canonical_to_value [OF policy_fields_ok, where pr = "e_json_print E"]
  by (simp add: policy_hash_def canonical_def expect_r_def)

lemma mac_of_mac [simp]: "mac_of E k (t\<lparr>tk_mac := x\<rparr>) = mac_of E k t"
  by (simp add: mac_of_def)

lemma sealed_mac [simp]: "sealed E k (t\<lparr>tk_mac := mac_of E k t\<rparr>)"
  by (simp add: sealed_def)

lemma session_matches_iff:
  "broker_session_id_matches t s \<longleftrightarrow> tk_broker_session_id t = None \<or> tk_broker_session_id t = s"
  by (auto simp: broker_session_id_matches_def split: option.splits)

lemma word_ge_1_iff: "1 \<le> x \<longleftrightarrow> x \<noteq> (0 :: u32)"
  by (simp flip: linorder_not_less)

lemma validate_Ok_iff:
  "validate E k t r time = Ok () \<longleftrightarrow> sealed E k t \<and> live_at E t time \<and> context_matches t r"
proof (cases "e_time_parse E (tk_expires_at t)")
  case None
  then show ?thesis
    by (simp add: validate_def if_Err_Ok_iff live_at_def split del: if_split)
next
  case (Some x)
  show ?thesis
    unfolding validate_def ticket_mac_eq bind_r_simps if_Err_Ok_iff Some ok_or_simps sealed_def
      live_at_def context_matches_def session_matches_iff
    by (simp add: word_ge_1_iff not_less eq_commute [of "mac_of E k t"])
qed

section \<open>Uses\<close>

text \<open>A sequence of uses of one ticket, each with its request and its time.\<close>

fun consume_all :: "env \<Rightarrow> bytes \<Rightarrow> secret_access_ticket \<Rightarrow> (access_request \<times> int) list
    \<Rightarrow> (secret_access_ticket, ticket_error) result" where
  "consume_all E k t [] = Ok t"
| "consume_all E k t ((r, time) # us) = bind_r (consume E k t r time) (\<lambda>t'. consume_all E k t' us)"

definition spent :: "env \<Rightarrow> bytes \<Rightarrow> secret_access_ticket \<Rightarrow> secret_access_ticket" where
  "spent E k t =
     (let u = t\<lparr>tk_uses_remaining := tk_uses_remaining t - 1\<rparr> in u\<lparr>tk_mac := mac_of E k u\<rparr>)"

definition in_time :: "env \<Rightarrow> secret_access_ticket \<Rightarrow> int \<Rightarrow> bool" where
  "in_time E t time \<longleftrightarrow> (\<exists>x. e_time_parse E (tk_expires_at t) = Some x \<and> time \<le> x)"

lemma validate_unit: "validate E k t r time = Ok u \<longleftrightarrow> validate E k t r time = Ok ()"
  by simp

lemma consume_Ok_iff:
  "consume E k t r time = Ok t' \<longleftrightarrow>
     sealed E k t \<and> live_at E t time \<and> context_matches t r \<and> t' = spent E k t"
  by (auto simp: consume_def bind_r_Ok_iff Let_def validate_Ok_iff spent_def)

lemma spent_fields [simp]:
  "sealed E k (spent E k t)"
  "tk_uses_remaining (spent E k t) = tk_uses_remaining t - 1"
  "tk_revoked (spent E k t) = tk_revoked t"
  "in_time E (spent E k t) = in_time E t"
  "context_matches (spent E k t) = context_matches t"
  by (simp_all add: spent_def Let_def sealed_def in_time_def context_matches_def fun_eq_iff)

lemma live_at_iff:
  "live_at E t time \<longleftrightarrow> \<not> tk_revoked t \<and> 0 < unat (tk_uses_remaining t) \<and> in_time E t time"
  by (simp add: live_at_def in_time_def word_ge_1_iff unat_gt_0)

lemma unat_minus_1: "x \<noteq> (0 :: u32) \<Longrightarrow> unat (x - 1) = unat x - 1"
  by (simp add: unat_minus_one)

lemma consume_all_Ok_iff:
  "is_ok (consume_all E k t us) \<longleftrightarrow>
     us = [] \<or> (sealed E k t \<and> \<not> tk_revoked t \<and> length us \<le> unat (tk_uses_remaining t) \<and>
       (\<forall>(r, time) \<in> set us. context_matches t r \<and> in_time E t time))"
proof (induction us arbitrary: t)
  case (Cons u us)
  obtain r time where u: "u = (r, time)"
    by (cases u)
  show ?case
  proof (cases "consume E k t r time")
    case (Ok t')
    then have t': "t' = spent E k t" and ok: "sealed E k t" "live_at E t time" "context_matches t r"
      by (simp_all add: consume_Ok_iff)
    then have left: "\<not> tk_revoked t" "tk_uses_remaining t \<noteq> 0" "in_time E t time"
      "0 < unat (tk_uses_remaining t)"
      by (auto simp: live_at_iff)
    have "is_ok (consume_all E k t (u # us)) \<longleftrightarrow> is_ok (consume_all E k (spent E k t) us)"
      by (simp add: u Ok t')
    also have "\<dots> \<longleftrightarrow> us = [] \<or> length us \<le> unat (tk_uses_remaining t) - 1 \<and>
        (\<forall>(r, time) \<in> set us. context_matches t r \<and> in_time E t time)"
      unfolding Cons.IH using left by (simp add: unat_minus_1)
    finally show ?thesis
      using left ok by (cases us) (auto simp: u)
  next
    case (Err e)
    then have "\<not> (sealed E k t \<and> live_at E t time \<and> context_matches t r)"
      using consume_Ok_iff [of E k t r time] by auto
    then show ?thesis
      by (auto simp: u Err live_at_iff)
  next
    case Panic
    then have "\<not> (sealed E k t \<and> live_at E t time \<and> context_matches t r)"
      using consume_Ok_iff [of E k t r time] by auto
    then show ?thesis
      by (auto simp: u Panic live_at_iff)
  qed
qed simp

lemma consume_all_state:
  "consume_all E k t us = Ok t' \<Longrightarrow> us \<noteq> [] \<Longrightarrow>
     sealed E k t' \<and> tk_revoked t' = tk_revoked t \<and>
     unat (tk_uses_remaining t') = unat (tk_uses_remaining t) - length us \<and> \<not> tk_revoked t'"
proof (induction us arbitrary: t)
  case (Cons u us)
  obtain r time where u: "u = (r, time)"
    by (cases u)
  from Cons.prems(1) have ok: "live_at E t time" and rest: "consume_all E k (spent E k t) us = Ok t'"
    by (auto simp: u bind_r_Ok_iff consume_Ok_iff)
  from ok have left: "\<not> tk_revoked t" "tk_uses_remaining t \<noteq> 0"
    by (auto simp: live_at_iff)
  show ?case
  proof (cases us)
    case Nil
    with rest left show ?thesis by (auto simp: unat_minus_1)
  next
    case (Cons v vs)
    with Cons.IH [OF rest] left show ?thesis by (simp add: unat_minus_1)
  qed
qed simp

lemma validate_not_sealed: "\<not> sealed E k t \<Longrightarrow> validate E k t r time = Err MacMismatch"
  by (simp add: validate_def sealed_def)

lemma revoke_eq:
  "revoke E k t =
     (if sealed E k t then Ok (t\<lparr>tk_revoked := True, tk_mac := mac_of E k (t\<lparr>tk_revoked := True\<rparr>)\<rparr>)
      else Err MacMismatch)"
  by (auto simp: revoke_def sealed_def Let_def)

lemma validate_used_up:
  "sealed E k t \<Longrightarrow> \<not> tk_revoked t \<Longrightarrow> tk_uses_remaining t = 0 \<Longrightarrow>
     validate E k t r time = Err ReplayDenied"
  by (simp add: validate_def sealed_def)

lemma ticket_mac_id: "t\<lparr>tk_mac := x\<rparr>\<lparr>tk_mac := tk_mac t\<rparr> = t"
  by (cases t) simp

lemma validate_revoked: "sealed E k t \<Longrightarrow> tk_revoked t \<Longrightarrow> validate E k t r time = Err Revoked"
  by (simp add: validate_def sealed_def)

text \<open>
  Two tickets with the same MAC and different contents are a collision of the keyed hash.
\<close>

lemma ticket_payload_wf: "json_wf (ticket_payload t)"
proof -
  have "json_ok (to_value (ticket_body t))" "float_free (to_value (ticket_body t))"
    using to_value_ok(1) [OF ticket_body_ok(1)] to_value_ok(2) [OF ticket_body_ok(2)]
    by (auto simp: to_value_def)
  then show ?thesis
    unfolding ticket_payload_eq by (rule json_wf_of_ok)
qed

lemma same_mac_collision:
  assumes "json_text_ok E" and "b64url_ok E" and "mac_of E k t = mac_of E k u"
    and "t\<lparr>tk_mac := x\<rparr> \<noteq> u\<lparr>tk_mac := x\<rparr>"
  shows "\<exists>a b. a \<noteq> b \<and> e_hmac_sha256 E k a = e_hmac_sha256 E k b"
proof -
  have "e_hmac_sha256 E k (as_bytes (e_json_print E (ticket_payload t)))
      = e_hmac_sha256 E k (as_bytes (e_json_print E (ticket_payload u)))"
    using assms(2,3) unfolding mac_of_def by (metis b64url_dec_enc option.inject)
  moreover have "e_json_print E (ticket_payload t) \<noteq> e_json_print E (ticket_payload u)"
    using assms(1,4) by (simp add: json_print_inject ticket_payload_wf ticket_payload_inject [of t u x])
  ultimately show ?thesis
    by (metis as_bytes_inject)
qed

section \<open>Issue\<close>

text \<open>The ticket an issue makes, and when it makes one.\<close>

lemma issue_Ok_iff:
  "issue E k vid sid ver r p hash session w = (Ok t, w') \<longleftrightarrow>
     (\<exists>x. e_time_add E (rq_now r) (sint (ap_max_ticket_ttl_seconds p)) = Some x \<and>
       w' = w\<lparr>tick := Suc (tick w)\<rparr> \<and>
       t = (let u = \<lparr>tk_ticket_id = e_uuid E (tick w), tk_vault_id = vid, tk_secret_id = sid,
              tk_secret_ref = rq_secret_ref r, tk_secret_version = ver, tk_consumer = rq_consumer r,
              tk_purpose = rq_purpose r, tk_delivery_mode = rq_delivery_mode r,
              tk_http_host = rq_http_host r, tk_http_scheme = rq_http_scheme r,
              tk_http_method = rq_http_method r, tk_http_path = rq_http_path r,
              tk_http_request_body_bytes = rq_http_request_body_bytes r,
              tk_os_uid = rq_os_uid r, tk_executable_path = rq_executable_path r,
              tk_executable_sha256 = rq_executable_sha256 r, tk_policy_id = ap_policy_id p,
              tk_policy_hash = hash, tk_exportable = ap_exportable p, tk_model_visible = False,
              tk_shell_visible = (rq_delivery_mode r \<in> {ChildEnv, TerminalPrint, Raw}),
              tk_broker_session_id = session, tk_issued_at = e_time_ms E (rq_now r),
              tk_expires_at = e_time_ms E x, tk_max_uses = ap_max_uses p,
              tk_uses_remaining = ap_max_uses p, tk_revoked = False, tk_mac = []\<rparr>
            in u\<lparr>tk_mac := mac_of E k u\<rparr>))"
  by (auto simp: issue_def Let_def bnd_Ok_iff split: option.splits)

text \<open>What holds of it: sealed, whole, and bound to the request and the policy.\<close>

definition issued_for :: "env \<Rightarrow> bytes \<Rightarrow> access_request \<Rightarrow> access_policy \<Rightarrow> string option
    \<Rightarrow> secret_access_ticket \<Rightarrow> bool" where
  "issued_for E k r p session t \<longleftrightarrow>
     sealed E k t \<and> context_matches (t\<lparr>tk_broker_session_id := None\<rparr>) r \<and>
     tk_broker_session_id t = session \<and> tk_policy_id t = ap_policy_id p \<and>
     tk_exportable t = ap_exportable p \<and> \<not> tk_revoked t \<and> \<not> tk_model_visible t \<and>
     tk_max_uses t = ap_max_uses p \<and> tk_uses_remaining t = ap_max_uses p \<and>
     (\<exists>x. e_time_add E (rq_now r) (sint (ap_max_ticket_ttl_seconds p)) = Some x \<and>
        tk_expires_at t = e_time_ms E x)"

lemma issue_sealed:
  assumes "issue E k vid sid ver r p hash session w = (Ok t, w')"
  shows "sealed E k t"
proof -
  obtain u where "t = u\<lparr>tk_mac := mac_of E k u\<rparr>"
    using assms unfolding issue_Ok_iff Let_def by blast
  then show ?thesis
    by simp
qed

lemma issue_issued_for:
  assumes "issue E k vid sid ver r p hash session w = (Ok t, w')"
  shows "issued_for E k r p session t"
  using issue_sealed [OF assms] assms unfolding issue_Ok_iff Let_def
  by (elim exE conjE) (simp add: issued_for_def context_matches_def)

section \<open>The example policy and request\<close>

definition sample_policy :: access_policy where
  "sample_policy =
     \<lparr>ap_policy_id = ''policy'', ap_secret_refs = [''secret://app/db''],
      ap_allowed_consumers = [''worker''], ap_denied_consumers = [],
      ap_allowed_purposes = [''*''], ap_denied_purposes = [],
      ap_allowed_delivery_modes = [BrokeredOperation, ChildEnv],
      ap_allowed_http_hosts = [], ap_denied_http_hosts = [], ap_allowed_http_methods = [],
      ap_denied_http_methods = [], ap_allowed_http_path_prefixes = [],
      ap_denied_http_path_prefixes = [], ap_require_https_for_brokered_http = False,
      ap_max_http_request_body_bytes = None, ap_allowed_os_uids = [1000], ap_denied_os_uids = [],
      ap_allowed_executable_paths = [], ap_denied_executable_paths = [],
      ap_allowed_executable_sha256 = [], ap_denied_executable_sha256 = [],
      ap_exportable = False, ap_max_ticket_ttl_seconds = 60, ap_max_uses = 2,
      ap_minimum_provider_assurance = ''A1'', ap_require_mfa = False,
      ap_allow_unbound_plaintext_export = False, ap_expires_at = Some 5000000000000\<rparr>"

definition sample_request :: access_request where
  "sample_request =
     \<lparr>rq_secret_ref = ''secret://app/db'', rq_consumer = ''worker'', rq_purpose = ''query'',
      rq_delivery_mode = BrokeredOperation, rq_provider_assurance = ''A1'',
      rq_raw_export_requested = False, rq_http_host = None, rq_http_scheme = None,
      rq_http_method = None, rq_http_path = None, rq_http_request_body_bytes = None,
      rq_os_uid = Some 1000, rq_executable_path = None, rq_executable_sha256 = None,
      rq_mfa_verified = False, rq_broker_session_id = None, rq_now = 1000000000000\<rparr>"

lemma sample_permits: "permits sample_policy sample_request"
  by (simp add: permits_def sample_policy_def sample_request_def lists_name_def peer_fact_ok_def
      export_permitted_def assurance_rank_def)

definition sample_ticket :: secret_access_ticket where
  "sample_ticket =
     the_ok (fst (issue sample_env [1] ''vault'' ''s1'' 3 sample_request sample_policy ''hash'' None
       \<lparr>tick = 0\<rparr> :: (_, unit) result \<times> sys))"

lemma sample_issue:
  "issue sample_env [1] ''vault'' ''s1'' 3 sample_request sample_policy ''hash'' None \<lparr>tick = 0\<rparr>
     = (Ok sample_ticket :: (_, unit) result, \<lparr>tick = 1\<rparr>)"
  by (simp add: sample_ticket_def issue_def act_run new_uuid_def Let_def)

lemma sample_ticket_facts:
  "sealed sample_env [1] sample_ticket" "tk_uses_remaining sample_ticket = 2"
  "\<not> tk_revoked sample_ticket" "context_matches sample_ticket sample_request"
  "in_time sample_env sample_ticket 1000000000000"
  using issue_issued_for [OF sample_issue]
  by (simp_all add: issued_for_def context_matches_def in_time_def sample_policy_def
      sample_request_def floor_ms_def)

section \<open>Properties\<close>

text \<open>
  C19: a use of a ticket succeeds exactly when its MAC is the one of its contents, it is neither
  revoked, used up nor expired, and every field of the request that the ticket binds is the same;
  and what comes out is the same ticket with one use less, under its new MAC.
\<close>

theorem ticket_consume_exact:
  "consume E k t r time = Ok t' \<longleftrightarrow>
     tk_mac t = mac_of E k t \<and> \<not> tk_revoked t \<and> tk_uses_remaining t \<noteq> 0 \<and>
     (\<exists>x. e_time_parse E (tk_expires_at t) = Some x \<and> time \<le> x) \<and> context_matches t r \<and>
     (\<exists>u. u = t\<lparr>tk_uses_remaining := tk_uses_remaining t - 1\<rparr> \<and> t' = u\<lparr>tk_mac := mac_of E k u\<rparr>)"
  by (auto simp: consume_Ok_iff sealed_def live_at_def word_ge_1_iff spent_def Let_def)

text \<open>
  C17: a ticket can be used at most as often as it says. A sequence of uses succeeds exactly when the
  ticket is sealed and not revoked, the sequence is no longer than the uses remaining and every
  use is in time and in context; after it the remaining uses have gone down by the length of the
  sequence, and a ticket with none left is refused as a replay.
\<close>

theorem ticket_uses_exact:
  assumes "us \<noteq> []"
  shows "(is_ok (consume_all E k t us) \<longleftrightarrow>
        sealed E k t \<and> \<not> tk_revoked t \<and> length us \<le> unat (tk_uses_remaining t) \<and>
        (\<forall>(r, time) \<in> set us. context_matches t r \<and> in_time E t time)) \<and>
      (\<forall>t'. consume_all E k t us = Ok t' \<longrightarrow>
        unat (tk_uses_remaining t') = unat (tk_uses_remaining t) - length us \<and>
        (length us = unat (tk_uses_remaining t) \<longrightarrow> consume E k t' r time = Err ReplayDenied))"
proof (intro conjI allI impI)
  show "is_ok (consume_all E k t us) \<longleftrightarrow>
      sealed E k t \<and> \<not> tk_revoked t \<and> length us \<le> unat (tk_uses_remaining t) \<and>
      (\<forall>(r, time) \<in> set us. context_matches t r \<and> in_time E t time)"
    using assms by (simp add: consume_all_Ok_iff)
next
  fix t' assume ok: "consume_all E k t us = Ok t'"
  note state = consume_all_state [OF ok assms]
  then show "unat (tk_uses_remaining t') = unat (tk_uses_remaining t) - length us"
    by simp
  assume "length us = unat (tk_uses_remaining t)"
  with state have "tk_uses_remaining t' = 0"
    by (simp add: unat_eq_zero)
  moreover have "sealed E k t'" "\<not> tk_revoked t'"
    using state by blast+
  ultimately show "consume E k t' r time = Err ReplayDenied"
    by (simp add: consume_def validate_used_up)
qed

lemma ticket_uses_exact_witness:
  "is_ok (consume_all sample_env [1] sample_ticket
       [(sample_request, 1000000000000), (sample_request, 1000000000000)]) \<and>
     \<not> is_ok (consume_all sample_env [1] sample_ticket
       [(sample_request, 1000000000000), (sample_request, 1000000000000),
        (sample_request, 1000000000000)])"
  using ticket_uses_exact [of "[(sample_request, 1000000000000), (sample_request, 1000000000000)]"
      sample_env "[1]" sample_ticket]
    ticket_uses_exact [of "[(sample_request, 1000000000000), (sample_request, 1000000000000),
        (sample_request, 1000000000000)]" sample_env "[1]" sample_ticket] sample_ticket_facts
  by (simp del: consume_all.simps)



text \<open>
  Revocation is final. A sealed ticket is revoked into a sealed ticket that differs in the flag
  and the MAC alone, which no request at any time can use; a ticket that is not sealed is not
  touched.
\<close>

theorem ticket_revoke_final:
  "revoke E k t =
     (if sealed E k t then Ok (t\<lparr>tk_revoked := True, tk_mac := mac_of E k (t\<lparr>tk_revoked := True\<rparr>)\<rparr>)
      else Err MacMismatch) \<and>
   (\<forall>t'. revoke E k t = Ok t' \<longrightarrow> sealed E k t' \<and> consume E k t' r time = Err Revoked)"
proof (intro conjI allI impI)
  show "revoke E k t =
     (if sealed E k t then Ok (t\<lparr>tk_revoked := True, tk_mac := mac_of E k (t\<lparr>tk_revoked := True\<rparr>)\<rparr>)
      else Err MacMismatch)"
    by (rule revoke_eq)
next
  fix t' assume "revoke E k t = Ok t'"
  then have t': "t' = t\<lparr>tk_revoked := True\<rparr>\<lparr>tk_mac := mac_of E k (t\<lparr>tk_revoked := True\<rparr>)\<rparr>"
    by (simp add: revoke_eq split: if_splits)
  then show "sealed E k t'"
    by (simp only: sealed_mac)
  moreover have "tk_revoked t'"
    by (simp add: t')
  ultimately show "consume E k t' r time = Err Revoked"
    by (simp add: consume_def validate_revoked)
qed

lemma ticket_revoke_final_witness:
  "\<exists>t'. revoke sample_env [1] sample_ticket = Ok t' \<and>
     consume sample_env [1] t' sample_request 1000000000000 = Err Revoked"
  using ticket_revoke_final [of sample_env "[1]" sample_ticket] sample_ticket_facts(1)
  by metis

text \<open>
  C21: a ticket just issued serves the request it was issued for, as long as the policy grants any
  use, up to the millisecond its lifetime ends; with a broker session it serves that session only.
\<close>

theorem ticket_issue_validates:
  assumes "time_ok E"
    and "issue E k vid sid ver r p hash session w = (Ok t, w')"
    and "rfc3339_time (rq_now r + sint (ap_max_ticket_ttl_seconds p) * 10 ^ 9)"
  shows "validate E k t r time = Ok () \<longleftrightarrow>
      ap_max_uses p \<noteq> 0 \<and> (session = None \<or> session = rq_broker_session_id r) \<and>
      time \<le> floor_ms (rq_now r + sint (ap_max_ticket_ttl_seconds p) * 10 ^ 9)"
proof -
  have parse: "e_time_parse E (tk_expires_at t)
      = Some (floor_ms (rq_now r + sint (ap_max_ticket_ttl_seconds p) * 10 ^ 9))"
    using issue_issued_for [OF assms(2)] assms(1,3) by (auto simp: issued_for_def time_ok_def)
  show ?thesis
    using issue_issued_for [OF assms(2)]
    unfolding validate_Ok_iff live_at_def parse issued_for_def word_ge_1_iff
    by (auto simp: context_matches_def)
qed

lemma ticket_issue_validates_witness:
  "validate sample_env [1] sample_ticket sample_request 1060000000000 = Ok () \<and>
     validate sample_env [1] sample_ticket sample_request 1060000000001 \<noteq> Ok ()"
  using ticket_issue_validates [OF sample_ok(5) sample_issue, of 1060000000000]
    ticket_issue_validates [OF sample_ok(5) sample_issue, of 1060000000001]
  by (simp add: sample_policy_def sample_request_def rfc3339_time_def floor_ms_def)

text \<open>A stored ticket is read back as it was.\<close>

theorem ticket_text_roundtrip:
  assumes "json_text_ok E"
  shows "parse_as E dec_ticket (e_json_print E (enc_ticket t)) = Some t"
  using assms by (simp add: parse_as_print ticket_codec.dec_enc)

lemma ticket_text_roundtrip_witness:
  "parse_as sample_env dec_ticket (e_json_print sample_env (enc_ticket sample_ticket))
     = Some sample_ticket"
  by (rule ticket_text_roundtrip [OF sample_ok(4)])

end
