(* ===== verification/Audit_Chain.thy ===== *)
theory Audit_Chain
  imports Tickets
begin

text \<open>
  Component \<open>audit.rs\<close>: the hash chain of audit events, each under a MAC, and its verification.
\<close>

section \<open>Events\<close>

definition zero_hash :: string where
  "zero_hash = ''AAAAAAAAAAAAAAAAAAAAAAAAAAAAAAAAAAAAAAAAAAA''"

datatype audit_error = PreviousHashMismatch | EventHashMismatch | EventMacMismatch

record audit_event =
  ev_event_id :: string
  ev_timestamp :: string
  ev_vault_id :: string
  ev_namespace_id :: string
  ev_event_type :: string
  ev_severity :: string
  ev_decision :: string
  ev_previous_hash :: string
  ev_event_hash :: string
  ev_event_mac :: string
  ev_metadata :: jmap

definition event_fields :: "audit_event \<Rightarrow> jmap" where
  "event_fields ev =
     [(''event_id'', JStr (ev_event_id ev)),
      (''timestamp'', JStr (ev_timestamp ev)),
      (''vault_id'', JStr (ev_vault_id ev)),
      (''namespace_id'', JStr (ev_namespace_id ev)),
      (''event_type'', JStr (ev_event_type ev)),
      (''severity'', JStr (ev_severity ev)),
      (''decision'', JStr (ev_decision ev)),
      (''previous_hash'', JStr (ev_previous_hash ev)),
      (''event_hash'', JStr (ev_event_hash ev)),
      (''event_mac'', JStr (ev_event_mac ev)),
      (''metadata'', JObj (ev_metadata ev))]"

definition enc_event :: "audit_event \<Rightarrow> json" where
  "enc_event ev = JObj (event_fields ev)"

definition dec_event :: "json \<Rightarrow> audit_event option" where
  "dec_event v = do {
     m \<leftarrow> dec_obj v;
     event_id \<leftarrow> fld dec_str ''event_id'' m;
     timestamp \<leftarrow> fld dec_str ''timestamp'' m;
     vault_id \<leftarrow> fld dec_str ''vault_id'' m;
     namespace_id \<leftarrow> fld dec_str ''namespace_id'' m;
     event_type \<leftarrow> fld dec_str ''event_type'' m;
     severity \<leftarrow> fld dec_str ''severity'' m;
     decision \<leftarrow> fld dec_str ''decision'' m;
     previous_hash \<leftarrow> fld dec_str ''previous_hash'' m;
     event_hash \<leftarrow> fld dec_str ''event_hash'' m;
     event_mac \<leftarrow> fld dec_str ''event_mac'' m;
     metadata \<leftarrow> fld dec_map ''metadata'' m;
     Some \<lparr>ev_event_id = event_id, ev_timestamp = timestamp, ev_vault_id = vault_id,
       ev_namespace_id = namespace_id, ev_event_type = event_type, ev_severity = severity,
       ev_decision = decision, ev_previous_hash = previous_hash, ev_event_hash = event_hash,
       ev_event_mac = event_mac, ev_metadata = metadata\<rparr>
   }"

interpretation event_codec: json_codec enc_event dec_event "\<lambda>ev. json_ok (JObj (ev_metadata ev))"
proof
  show "dec_event (enc_event ev) = Some ev" if "json_ok (JObj (ev_metadata ev))" for ev
    using that by (simp add: dec_event_def enc_event_def event_fields_def del: json_ok.simps)
qed

definition mac_payload :: "audit_event \<Rightarrow> json" where
  "mac_payload ev = JObj (map_remove ''event_mac'' (map_build (event_fields ev)))"

definition hash_payload :: "audit_event \<Rightarrow> json" where
  "hash_payload ev =
     JObj (map_remove ''event_mac'' (map_remove ''event_hash'' (map_build (event_fields ev))))"

section \<open>The manager\<close>

definition audit_mac :: "env \<Rightarrow> bytes \<Rightarrow> json \<Rightarrow> (string, 'e) result" where
  "audit_mac E mac_key payload =
     bind_r (expect_r (canonical E payload)) (\<lambda>b. Ok (e_b64url E (e_hmac_sha256 E mac_key b)))"

definition audit_hash :: "env \<Rightarrow> json \<Rightarrow> (string, 'e) result" where
  "audit_hash E payload =
     bind_r (expect_r (canonical E payload)) (\<lambda>b. Ok (e_b64url E (e_sha256 E b)))"

text \<open>
  \<open>append\<close> gives the event and the chain with it. The event is read from the very value that was
  hashed, with the hash and the MAC inserted.
\<close>

definition audit_append :: "env \<Rightarrow> bytes \<Rightarrow> audit_event list \<Rightarrow> string \<Rightarrow> string \<Rightarrow> string \<Rightarrow> string
    \<Rightarrow> string \<Rightarrow> jmap \<Rightarrow> ('z sys_scheme, audit_event \<times> audit_event list, 'e) act" where
  "audit_append E mac_key events vault_id namespace_id event_type severity decision metadata =
     (let previous_hash = (if events = [] then zero_hash else ev_event_hash (last events)) in
      bnd (new_uuid E) (\<lambda>event_id.
      bnd (now E) (\<lambda>time.
      let base = map_build
        [(''event_id'', JStr event_id),
         (''timestamp'', JStr (e_time_ms E time)),
         (''vault_id'', JStr vault_id),
         (''namespace_id'', JStr namespace_id),
         (''event_type'', JStr event_type),
         (''severity'', JStr severity),
         (''decision'', JStr decision),
         (''previous_hash'', JStr previous_hash),
         (''metadata'', JObj metadata)] in
      bnd (lift_r (audit_hash E (JObj base))) (\<lambda>event_hash.
      let payload = map_insert ''event_hash'' (JStr event_hash) base in
      bnd (lift_r (audit_mac E mac_key (JObj payload))) (\<lambda>event_mac.
      bnd (lift_r (expect_r (ok_or (dec_event (JObj (map_insert ''event_mac'' (JStr event_mac) payload)))
            JsonError)))
        (\<lambda>event. ret (event, events @ [event])))))))"

fun verify_from :: "env \<Rightarrow> bytes \<Rightarrow> string \<Rightarrow> audit_event list \<Rightarrow> (unit, audit_error) result" where
  "verify_from E mac_key previous_hash [] = Ok ()"
| "verify_from E mac_key previous_hash (event # events) =
     (if ev_previous_hash event \<noteq> previous_hash then Err PreviousHashMismatch
      else bind_r (audit_hash E (hash_payload event)) (\<lambda>expected_hash.
      if expected_hash \<noteq> ev_event_hash event then Err EventHashMismatch
      else bind_r (audit_mac E mac_key (mac_payload event)) (\<lambda>expected_mac.
      if expected_mac \<noteq> ev_event_mac event then Err EventMacMismatch
      else verify_from E mac_key (ev_event_hash event) events)))"

definition verify_audit_chain :: "env \<Rightarrow> audit_event list \<Rightarrow> bytes \<Rightarrow> (unit, audit_error) result" where
  "verify_audit_chain E events mac_key = verify_from E mac_key zero_hash events"

lemma verify_audit_chain_Nil [simp]: "verify_audit_chain E [] k = Ok ()"
  by (simp add: verify_audit_chain_def)

section \<open>The payloads\<close>

text \<open>Metadata as the program builds it: a sorted map without floats.\<close>

definition event_ok :: "audit_event \<Rightarrow> bool" where
  "event_ok ev \<longleftrightarrow> json_ok (JObj (ev_metadata ev)) \<and> float_free (JObj (ev_metadata ev))"

definition hash_body :: "audit_event \<Rightarrow> jmap" where
  "hash_body ev = filter (\<lambda>f. fst f \<noteq> ''event_mac'' \<and> fst f \<noteq> ''event_hash'') (event_fields ev)"

definition mac_body :: "audit_event \<Rightarrow> jmap" where
  "mac_body ev = filter (\<lambda>f. fst f \<noteq> ''event_mac'') (event_fields ev)"

lemma event_keys: "distinct (map fst (event_fields ev))"
  by (simp add: event_fields_def)

lemma payload_eq:
  "hash_payload ev = to_value (hash_body ev)" "mac_payload ev = to_value (mac_body ev)"
  by (simp_all add: hash_payload_def mac_payload_def hash_body_def mac_body_def to_value_def
      map_remove_build event_keys distinct_map_filter conj_commute)

lemma bodies_ok:
  assumes "event_ok ev"
  shows "\<forall>f \<in> set (hash_body ev). json_ok (snd f)" "\<forall>f \<in> set (hash_body ev). float_free (snd f)"
    "\<forall>f \<in> set (mac_body ev). json_ok (snd f)" "\<forall>f \<in> set (mac_body ev). float_free (snd f)"
  using assms by (simp_all add: event_ok_def hash_body_def mac_body_def event_fields_def)

definition hash_of :: "env \<Rightarrow> audit_event \<Rightarrow> string" where
  "hash_of E ev = e_b64url E (e_sha256 E (as_bytes (e_json_print E (hash_payload ev))))"

definition event_mac_of :: "env \<Rightarrow> bytes \<Rightarrow> audit_event \<Rightarrow> string" where
  "event_mac_of E k ev = e_b64url E (e_hmac_sha256 E k (as_bytes (e_json_print E (mac_payload ev))))"

lemma canonical_payloads:
  assumes "event_ok ev"
  shows "audit_hash E (hash_payload ev) = Ok (hash_of E ev)"
    "audit_mac E k (mac_payload ev) = Ok (event_mac_of E k ev)"
  using canonical_to_value [OF bodies_ok(1,2) [OF assms], where pr = "e_json_print E"]
    canonical_to_value [OF bodies_ok(3,4) [OF assms], where pr = "e_json_print E"]
  by (simp_all add: audit_hash_def audit_mac_def canonical_def expect_r_def hash_of_def
      event_mac_of_def payload_eq)

lemma hash_body_updates [simp]:
  "hash_body (ev\<lparr>ev_event_hash := x\<rparr>) = hash_body ev" "hash_body (ev\<lparr>ev_event_mac := x\<rparr>) = hash_body ev"
  "mac_body (ev\<lparr>ev_event_mac := x\<rparr>) = mac_body ev"
  by (simp_all add: hash_body_def mac_body_def event_fields_def)

lemma hash_body_inject:
  "hash_body ev = hash_body fv \<longleftrightarrow>
     ev\<lparr>ev_event_hash := x, ev_event_mac := y\<rparr> = fv\<lparr>ev_event_hash := x, ev_event_mac := y\<rparr>"
  by (cases ev; cases fv) (simp add: hash_body_def event_fields_def)

lemma hash_payload_inject:
  "hash_payload ev = hash_payload fv \<longleftrightarrow>
     ev\<lparr>ev_event_hash := x, ev_event_mac := y\<rparr> = fv\<lparr>ev_event_hash := x, ev_event_mac := y\<rparr>"
proof -
  have "map fst (hash_body ev) = map fst (hash_body fv)" "distinct (map fst (hash_body ev))"
    by (simp_all add: hash_body_def event_fields_def)
  then show ?thesis
    by (simp add: payload_eq to_value_inject hash_body_inject [where x = x and y = y])
qed

section \<open>What a verifying chain is\<close>

fun linked :: "string \<Rightarrow> audit_event list \<Rightarrow> bool" where
  "linked h [] = True"
| "linked h (ev # evs) = (ev_previous_hash ev = h \<and> linked (ev_event_hash ev) evs)"

definition genuine :: "env \<Rightarrow> bytes \<Rightarrow> audit_event \<Rightarrow> bool" where
  "genuine E k ev \<longleftrightarrow> ev_event_hash ev = hash_of E ev \<and> ev_event_mac ev = event_mac_of E k ev"

lemma verify_from_Ok_iff:
  "\<forall>ev \<in> set evs. event_ok ev \<Longrightarrow>
     verify_from E k h evs = Ok () \<longleftrightarrow> linked h evs \<and> (\<forall>ev \<in> set evs. genuine E k ev)"
proof (induction evs arbitrary: h)
  case (Cons ev evs)
  then have "event_ok ev"
    by simp
  with Cons show ?case
    by (auto simp: canonical_payloads genuine_def)
qed simp

lemma linked_append: "linked h (xs @ ys) \<longleftrightarrow>
    linked h xs \<and> linked (if xs = [] then h else ev_event_hash (last xs)) ys"
  by (induction xs arbitrary: h) auto

text \<open>The event an append makes.\<close>

definition new_event :: "env \<Rightarrow> bytes \<Rightarrow> audit_event \<Rightarrow> audit_event" where
  "new_event E k ev0 =
     (let ev1 = ev0\<lparr>ev_event_hash := hash_of E ev0\<rparr> in ev1\<lparr>ev_event_mac := event_mac_of E k ev1\<rparr>)"

lemma new_event_genuine [simp]: "genuine E k (new_event E k ev0)"
  by (simp add: genuine_def new_event_def Let_def hash_of_def event_mac_of_def payload_eq)

lemma new_event_fields [simp]:
  "ev_previous_hash (new_event E k ev0) = ev_previous_hash ev0"
  "ev_metadata (new_event E k ev0) = ev_metadata ev0"
  "event_ok (new_event E k ev0) = event_ok ev0"
  by (simp_all add: new_event_def Let_def event_ok_def)

lemma dec_event_built:
  assumes "json_ok (JObj (ev_metadata ev))"
  shows "dec_event (JObj (map_insert ''event_mac'' (JStr mac) (map_insert ''event_hash'' (JStr hash)
     (map_build (hash_body ev))))) = Some (ev\<lparr>ev_event_hash := hash, ev_event_mac := mac\<rparr>)"
proof -
  let ?ev = "ev\<lparr>ev_event_hash := hash, ev_event_mac := mac\<rparr>"
  have "map_of (map_insert ''event_mac'' (JStr mac) (map_insert ''event_hash'' (JStr hash)
     (map_build (hash_body ev)))) = map_of (event_fields ?ev)"
  proof -
    have "distinct (map fst (hash_body ev))"
      by (simp add: hash_body_def event_fields_def)
    then show ?thesis
      by (simp add: map_of_build_distinct) (simp add: hash_body_def event_fields_def fun_eq_iff)
  qed
  then have "dec_event (JObj (map_insert ''event_mac'' (JStr mac) (map_insert ''event_hash'' (JStr hash)
     (map_build (hash_body ev))))) = dec_event (enc_event ?ev)"
    by (simp add: dec_event_def enc_event_def fld_def)
  then show ?thesis
    using assms by (simp add: event_codec.dec_enc del: json_ok.simps)
qed

lemma map_build_base:
  assumes "mset fs = mset (hash_body ev)"
  shows "map_build fs = map_build (hash_body ev)"
proof -
  have "distinct (map fst fs)"
    using assms mset_eq_imp_distinct_iff [of "map fst fs" "map fst (hash_body ev)"]
    by (simp add: hash_body_def event_fields_def)
  with assms show ?thesis
    by (rule map_build_perm)
qed

lemma map_insert_hash:
  "map_insert ''event_hash'' (JStr (ev_event_hash ev)) (map_build (hash_body ev)) = map_build (mac_body ev)"
proof -
  have "map_build (hash_body ev @ [(''event_hash'', JStr (ev_event_hash ev))]) = map_build (mac_body ev)"
    by (rule map_build_perm) (simp_all add: hash_body_def mac_body_def event_fields_def)
  then show ?thesis
    by (simp add: map_build_snoc)
qed

definition event_base :: "string \<Rightarrow> string \<Rightarrow> string \<Rightarrow> string \<Rightarrow> string \<Rightarrow> string \<Rightarrow> string \<Rightarrow> string \<Rightarrow> jmap
    \<Rightarrow> audit_event" where
  "event_base eid ts vid ns ty sev dec prev meta =
     \<lparr>ev_event_id = eid, ev_timestamp = ts, ev_vault_id = vid, ev_namespace_id = ns,
      ev_event_type = ty, ev_severity = sev, ev_decision = dec, ev_previous_hash = prev,
      ev_event_hash = [], ev_event_mac = [], ev_metadata = meta\<rparr>"

definition head_hash :: "audit_event list \<Rightarrow> string" where
  "head_hash events = (if events = [] then zero_hash else ev_event_hash (last events))"

text \<open>An append with clean metadata always succeeds, with this event.\<close>

lemma audit_append_eq:
  fixes w :: "'z sys_scheme"
  assumes "json_ok (JObj meta)" and "float_free (JObj meta)"
    and ev0: "ev0 = event_base (e_uuid E (tick w)) (e_time_ms E (e_clock E (Suc (tick w)))) vid ns ty sev
      dec (head_hash evs) meta"
  shows "audit_append E k evs vid ns ty sev dec meta w
      = (Ok (new_event E k ev0, evs @ [new_event E k ev0]), w\<lparr>tick := tick w + 2\<rparr>)"
proof -
  let ?ev0 = "event_base (e_uuid E (tick w)) (e_time_ms E (e_clock E (Suc (tick w)))) vid ns ty sev
      dec (head_hash evs) meta"
  let ?ev1 = "?ev0\<lparr>ev_event_hash := hash_of E ?ev0\<rparr>"
  have ok: "event_ok ?ev0" "event_ok ?ev1"
    using assms by (simp_all add: event_ok_def event_base_def)
  have base: "map_build
        [(''event_id'', JStr (e_uuid E (tick w))),
         (''timestamp'', JStr (e_time_ms E (e_clock E (Suc (tick w))))),
         (''vault_id'', JStr vid), (''namespace_id'', JStr ns), (''event_type'', JStr ty),
         (''severity'', JStr sev), (''decision'', JStr dec),
         (''previous_hash'', JStr (if evs = [] then zero_hash else ev_event_hash (last evs))),
         (''metadata'', JObj meta)] = map_build (hash_body ?ev0)"
    by (rule map_build_base) (simp add: hash_body_def event_fields_def event_base_def head_hash_def)
  have hash: "audit_hash E (JObj (map_build (hash_body ?ev0))) = Ok (hash_of E ?ev0)"
    using canonical_payloads(1) [OF ok(1), of E] by (simp add: payload_eq to_value_def)
  have ins: "map_insert ''event_hash'' (JStr (hash_of E ?ev0)) (map_build (hash_body ?ev0))
      = map_build (mac_body ?ev1)"
    using map_insert_hash [of ?ev1] by simp
  have mac: "audit_mac E k (JObj (map_build (mac_body ?ev1))) = Ok (event_mac_of E k ?ev1)"
    using canonical_payloads(2) [OF ok(2), of E k] by (simp add: payload_eq to_value_def)
  have dec: "dec_event (JObj (map_insert ''event_mac'' (JStr (event_mac_of E k ?ev1))
      (map_build (mac_body ?ev1)))) = Some (new_event E k ?ev0)"
    using dec_event_built [of ?ev0 "event_mac_of E k ?ev1" "hash_of E ?ev0"] ok(1)
    by (simp add: ins new_event_def Let_def event_ok_def del: json_ok.simps)
  show ?thesis
    unfolding audit_append_def Let_def ev0
    by (simp add: act_run new_uuid_def now_def base hash ins mac dec expect_r_def)
qed

section \<open>Properties\<close>

text \<open>
  Appending to the audit log always succeeds and keeps the chain verifying: the new event links to
  the last one, and carries the hash and the MAC that verification recomputes.
\<close>

theorem audit_append_verifies:
  fixes w :: "'z sys_scheme"
  assumes "json_ok (JObj meta)" and "float_free (JObj meta)"
    and "\<forall>ev \<in> set evs. event_ok ev" and "verify_audit_chain E evs k = Ok ()"
  shows "\<exists>ev. (audit_append E k evs vid ns ty sev dec meta w :: (_, 'e) result \<times> _)
        = (Ok (ev, evs @ [ev]), w\<lparr>tick := tick w + 2\<rparr>) \<and>
      event_ok ev \<and> ev_event_type ev = ty \<and> ev_metadata ev = meta \<and>
      ev_previous_hash ev = head_hash evs \<and> verify_audit_chain E (evs @ [ev]) k = Ok ()"
proof -
  define ev0 where ev0: "ev0 = event_base (e_uuid E (tick w)) (e_time_ms E (e_clock E (Suc (tick w))))
        vid ns ty sev dec (head_hash evs) meta"
  note run = audit_append_eq [OF assms(1,2) ev0, where k = k]
  define ev where "ev = new_event E k ev0"
  have ev: "event_ok ev" "ev_event_type ev = ty" "ev_metadata ev = meta"
      "ev_previous_hash ev = head_hash evs" "genuine E k ev"
    using assms(1,2) unfolding ev_def
    by (simp_all add: ev0 event_base_def event_ok_def) (simp add: new_event_def Let_def)
  have "linked zero_hash (evs @ [ev])"
    using assms(3,4) ev(4)
    by (simp add: verify_audit_chain_def verify_from_Ok_iff linked_append head_hash_def)
  moreover have "\<forall>e \<in> set (evs @ [ev]). event_ok e \<and> genuine E k e"
    using assms(3,4) ev(1,5) by (auto simp: verify_audit_chain_def verify_from_Ok_iff)
  ultimately have "verify_audit_chain E (evs @ [ev]) k = Ok ()"
    by (simp add: verify_audit_chain_def verify_from_Ok_iff)
  with ev run show ?thesis
    unfolding ev_def by (intro exI [of _ "new_event E k ev0"] conjI)
qed

lemma audit_append_verifies_witness:
  "\<exists>ev. (audit_append sample_env [1] [] ''v'' ''ns'' ''secret.put'' ''info'' ''allow''
        [(''version'', enc_u64 1)] \<lparr>tick = 0\<rparr> :: (_, unit) result \<times> _)
      = (Ok (ev, [ev]), \<lparr>tick = 2\<rparr>) \<and> verify_audit_chain sample_env [ev] [1] = Ok ()"
proof -
  have "json_ok (JObj [(''version'', enc_u64 1)])" "float_free (JObj [(''version'', enc_u64 1)])"
    by (simp_all add: map_ok_def)
  from audit_append_verifies [OF this, where evs = "[]" and w = "\<lparr>tick = 0\<rparr>" and E = sample_env
      and k = "[1]" and vid = "''v''" and ns = "''ns''" and ty = "''secret.put''" and sev = "''info''"
      and dec = "''allow''" and ?'e = unit]
  obtain ev where "(audit_append sample_env [1] [] ''v'' ''ns'' ''secret.put'' ''info'' ''allow''
        [(''version'', enc_u64 1)] \<lparr>tick = 0\<rparr> :: (_, unit) result \<times> _)
        = (Ok (ev, [] @ [ev]), \<lparr>tick = 0\<rparr>\<lparr>tick := tick \<lparr>tick = 0\<rparr> + 2\<rparr>)"
      and "verify_audit_chain sample_env ([] @ [ev]) [1] = Ok ()"
    by (elim exE conjE meta_impE) simp_all
  then show ?thesis
    by (intro exI [of _ ev]) simp
qed

lemma genuine_hash_eq:
  assumes "json_text_ok E" and "b64url_ok E" and "event_ok e" and "event_ok f"
    and "genuine E k e" and "genuine E k f" and "ev_event_hash e = ev_event_hash f"
  shows "e = f \<or> (\<exists>a b. a \<noteq> b \<and> e_sha256 E a = e_sha256 E b)"
proof (cases "hash_payload e = hash_payload f")
  case True
  have "e\<lparr>ev_event_hash := [], ev_event_mac := []\<rparr> = f\<lparr>ev_event_hash := [], ev_event_mac := []\<rparr>"
    using True hash_payload_inject [where x = "[]" and y = "[]"] by blast
  then have same: "e\<lparr>ev_event_mac := []\<rparr> = f\<lparr>ev_event_mac := []\<rparr>"
    using assms(7) by (cases e; cases f) simp
  then have "mac_payload e = mac_payload f"
    by (metis hash_body_updates(3) payload_eq(2))
  then have "ev_event_mac e = ev_event_mac f"
    using assms(5,6) by (simp add: genuine_def event_mac_of_def)
  with same show ?thesis
    by (cases e; cases f) simp
next
  case False
  have wf: "json_wf (hash_payload x)" if "event_ok x" for x
    using to_value_ok(1) [OF bodies_ok(1) [OF that]] to_value_ok(2) [OF bodies_ok(2) [OF that]]
    unfolding payload_eq by (rule json_wf_of_ok)
  have "e_sha256 E (as_bytes (e_json_print E (hash_payload e)))
      = e_sha256 E (as_bytes (e_json_print E (hash_payload f)))"
    using assms(2,5-7) unfolding genuine_def hash_of_def by (metis b64url_dec_enc option.inject)
  moreover have "e_json_print E (hash_payload e) \<noteq> e_json_print E (hash_payload f)"
    using False assms(1) by (simp add: json_print_inject wf assms(3,4))
  ultimately show ?thesis
    by (metis as_bytes_inject)
qed

lemma chains_eq:
  assumes "json_text_ok E" and "b64url_ok E"
    and "length es = length fs"
    and "\<forall>ev \<in> set es. event_ok ev \<and> genuine E k ev" and "\<forall>ev \<in> set fs. event_ok ev \<and> genuine E k ev"
    and "linked zero_hash es" and "linked zero_hash fs" and "head_hash es = head_hash fs"
  shows "es = fs \<or> (\<exists>a b. a \<noteq> b \<and> e_sha256 E a = e_sha256 E b)"
  using assms(3-)
proof (induction es fs rule: rev_induct2)
  case (4 e es f fs)
  then have "e = f \<or> (\<exists>a b. a \<noteq> b \<and> e_sha256 E a = e_sha256 E b)"
    by (intro genuine_hash_eq [OF assms(1,2), of e f k]) (simp_all add: head_hash_def)
  moreover have "es = fs \<or> (\<exists>a b. a \<noteq> b \<and> e_sha256 E a = e_sha256 E b)" if "e = f"
    using 4 that by (intro "4.IH") (auto simp: linked_append head_hash_def)
  ultimately show ?case
    by blast
qed simp_all

definition sample_chain :: "audit_event list" where
  "sample_chain =
     (let e = new_event sample_env [1] (event_base ''1'' ''t'' ''v'' ''n'' ''put'' ''info'' ''allow'' zero_hash []);
          f = new_event sample_env [1] (event_base ''2'' ''t'' ''v'' ''n'' ''get'' ''info'' ''deny''
            (ev_event_hash e) [])
      in [e, f])"

lemma sample_chain_ok:
  "\<forall>ev \<in> set sample_chain. event_ok ev" "verify_audit_chain sample_env sample_chain [1] = Ok ()"
  "length sample_chain = 2"
proof -
  show ok: "\<forall>ev \<in> set sample_chain. event_ok ev"
    by (simp add: sample_chain_def Let_def event_base_def event_ok_def map_ok_def)
  show "verify_audit_chain sample_env sample_chain [1] = Ok ()"
    unfolding verify_audit_chain_def verify_from_Ok_iff [OF ok]
    by (simp add: sample_chain_def Let_def del: sample_simps) (simp add: event_base_def)
  show "length sample_chain = 2"
    by (simp add: sample_chain_def Let_def)
qed



text \<open>
  Verification does not notice a log cut off at its end: every initial part of a verifying chain
  verifies.
\<close>

theorem audit_truncation_verifies:
  assumes "\<forall>ev \<in> set es. event_ok ev" and "verify_audit_chain E es k = Ok ()"
  shows "verify_audit_chain E (take n es) k = Ok ()"
proof -
  have "linked zero_hash (take n es @ drop n es)" "\<forall>ev \<in> set es. genuine E k ev"
    using assms by (simp_all add: verify_audit_chain_def verify_from_Ok_iff)
  then have "linked zero_hash (take n es)" "\<forall>ev \<in> set (take n es). genuine E k ev"
    by (auto simp only: linked_append dest: in_set_takeD)
  moreover have "\<forall>ev \<in> set (take n es). event_ok ev"
    using assms(1) by (auto dest: in_set_takeD)
  ultimately show ?thesis
    by (simp add: verify_audit_chain_def verify_from_Ok_iff)
qed

lemma audit_truncation_verifies_witness:
  "verify_audit_chain sample_env (take 1 sample_chain) [1] = Ok () \<and> length sample_chain = 2"
  using audit_truncation_verifies [OF sample_chain_ok(1,2), of 1] sample_chain_ok(3) by blast

end
