(* ===== verification/Keys.thy ===== *)
theory Keys
  imports Audit_Chain
begin

text \<open>
  Component \<open>keys.rs\<close>: the key hierarchy under a vault's root key, with its labels and the counter
  KDF over HMAC-SHA256.
\<close>

section \<open>Key derivation\<close>

definition key_size :: nat where
  "key_size = 32"

definition protocol_version :: string where
  "protocol_version = ''v1''"

datatype key_error = InvalidRootKeyLength | InvalidLabel | MissingProtocolVersion

record key_hierarchy =
  kh_vault_id :: string
  kh_root_key :: bytes

definition key_hierarchy_new :: "string \<Rightarrow> bytes \<Rightarrow> (key_hierarchy, key_error) result" where
  "key_hierarchy_new vault_id root_key =
     (if length root_key \<noteq> key_size then Err InvalidRootKeyLength
      else Ok \<lparr>kh_vault_id = vault_id, kh_root_key = root_key\<rparr>)"

text \<open>\<open>u32::to_be_bytes\<close>.\<close>

definition be32 :: "u32 \<Rightarrow> bytes" where
  "be32 x = [ucast (drop_bit 24 x), ucast (drop_bit 16 x), ucast (drop_bit 8 x), ucast x]"

definition kdf_block :: "string \<Rightarrow> u32 \<Rightarrow> bytes" where
  "kdf_block label counter = be32 counter @ as_bytes label @ [0] @ be32 (of_nat (key_size * 8))"

text \<open>The loop appends blocks until there are 32 bytes; it ends because a block is never empty.\<close>

partial_function (option) kdf_loop :: "env \<Rightarrow> bytes \<Rightarrow> string \<Rightarrow> u32 \<Rightarrow> bytes \<Rightarrow> bytes option" where
  "kdf_loop E rk_key label counter output =
     (if length output < key_size
      then kdf_loop E rk_key label (counter + 1)
        (output @ e_hmac_sha256 E rk_key (kdf_block label counter))
      else Some output)"

definition counter_kdf_hmac_sha256 :: "env \<Rightarrow> bytes \<Rightarrow> string \<Rightarrow> (bytes, key_error) result option" where
  "counter_kdf_hmac_sha256 E rk_key label =
     (if label = [] \<or> label \<in> {''key'', ''secret'', ''encrypt'', ''default''} then Some (Err InvalidLabel)
      else if \<not> contains_str label (''HBSE:'' @ protocol_version @ '':'')
      then Some (Err MissingProtocolVersion)
      else map_option (\<lambda>output. Ok (take key_size output)) (kdf_loop E rk_key label 1 []))"

definition derive :: "env \<Rightarrow> key_hierarchy \<Rightarrow> string \<Rightarrow> (bytes, key_error) result option" where
  "derive E kh label = counter_kdf_hmac_sha256 E (kh_root_key kh) label"

definition vault_label :: "key_hierarchy \<Rightarrow> string \<Rightarrow> string" where
  "vault_label kh purpose = ''HBSE:v1:vault:'' @ kh_vault_id kh @ CHR '':'' # purpose"

definition secret_kek_label :: "key_hierarchy \<Rightarrow> string \<Rightarrow> u64 \<Rightarrow> string" where
  "secret_kek_label kh secret_id version =
     ''HBSE:v1:vault:'' @ kh_vault_id kh @ '':secret:'' @ secret_id @ '':version:''
       @ nat_dec (unat version) @ '':dek-wrap''"

text \<open>\<open>expect\<close> on a derivation, which panics on an error; one that does not return counts as a panic too.\<close>

definition expect_key :: "(bytes, key_error) result option \<Rightarrow> (bytes, 'e) result" where
  "expect_key r = (case r of Some (Ok k) \<Rightarrow> Ok k | _ \<Rightarrow> Panic)"

definition metadata_key :: "env \<Rightarrow> key_hierarchy \<Rightarrow> (bytes, 'e) result" where
  "metadata_key E kh = expect_key (derive E kh (vault_label kh ''metadata''))"

definition audit_integrity_key :: "env \<Rightarrow> key_hierarchy \<Rightarrow> (bytes, 'e) result" where
  "audit_integrity_key E kh = expect_key (derive E kh (vault_label kh ''audit-integrity''))"

definition redaction_fingerprint_key :: "env \<Rightarrow> key_hierarchy \<Rightarrow> (bytes, 'e) result" where
  "redaction_fingerprint_key E kh =
     expect_key (derive E kh (vault_label kh ''redaction-fingerprint''))"

definition ticket_mac_key :: "env \<Rightarrow> key_hierarchy \<Rightarrow> (bytes, 'e) result" where
  "ticket_mac_key E kh = expect_key (derive E kh (vault_label kh ''ticket-mac''))"

definition secret_kek :: "env \<Rightarrow> key_hierarchy \<Rightarrow> string \<Rightarrow> u64 \<Rightarrow> (bytes, 'e) result" where
  "secret_kek E kh secret_id version =
     expect_key (derive E kh (secret_kek_label kh secret_id version))"

section \<open>The loop ends after one block\<close>

definition kdf :: "env \<Rightarrow> bytes \<Rightarrow> string \<Rightarrow> bytes" where
  "kdf E rk label = e_hmac_sha256 E rk (kdf_block label 1)"

lemma kdf_loop_eq: "digest_ok E \<Longrightarrow> kdf_loop E rk label 1 [] = Some (kdf E rk label)"
  by (subst kdf_loop.simps, subst kdf_loop.simps) (simp add: digest_ok_def key_size_def kdf_def)

lemma contains_prefix: "contains_str (p @ s) p"
  by (auto simp: contains_str_def)

lemma label_facts:
  "contains_str (vault_label kh purpose) ''HBSE:v1:''"
  "contains_str (secret_kek_label kh sid v) ''HBSE:v1:''"
  "vault_label kh purpose \<notin> {[], ''key'', ''secret'', ''encrypt'', ''default''}"
  "secret_kek_label kh sid v \<notin> {[], ''key'', ''secret'', ''encrypt'', ''default''}"
  using contains_prefix [of "''HBSE:v1:''" "''vault:'' @ s" for s]
  by (simp_all add: vault_label_def secret_kek_label_def)

lemma derive_eq:
  assumes "digest_ok E" and "contains_str label ''HBSE:v1:''"
    and "label \<notin> {[], ''key'', ''secret'', ''encrypt'', ''default''}"
  shows "derive E kh label = Some (Ok (kdf E (kh_root_key kh) label))"
proof -
  have "length (kdf E (kh_root_key kh) label) = key_size"
    using assms(1) by (simp add: kdf_def digest_ok_def key_size_def)
  then show ?thesis
    using assms(2,3) kdf_loop_eq [OF assms(1)]
    by (simp add: derive_def counter_kdf_hmac_sha256_def protocol_version_def)
qed

lemma keys_eq:
  assumes "digest_ok E"
  shows "metadata_key E kh = Ok (kdf E (kh_root_key kh) (vault_label kh ''metadata''))"
    "audit_integrity_key E kh = Ok (kdf E (kh_root_key kh) (vault_label kh ''audit-integrity''))"
    "redaction_fingerprint_key E kh
      = Ok (kdf E (kh_root_key kh) (vault_label kh ''redaction-fingerprint''))"
    "ticket_mac_key E kh = Ok (kdf E (kh_root_key kh) (vault_label kh ''ticket-mac''))"
    "secret_kek E kh sid v = Ok (kdf E (kh_root_key kh) (secret_kek_label kh sid v))"
  unfolding metadata_key_def audit_integrity_key_def redaction_fingerprint_key_def
    ticket_mac_key_def secret_kek_def derive_eq [OF assms label_facts(1,3)]
    derive_eq [OF assms label_facts(2,4)] expect_key_def
  by simp_all

lemma length_kdf: "digest_ok E \<Longrightarrow> length (kdf E rk label) = 32"
  by (simp add: kdf_def digest_ok_def)

section \<open>Domain separation\<close>

lemma last_sep_inject:
  assumes "a @ c # d = a' @ c # d'" and "c \<notin> set d" and "c \<notin> set d'"
  shows "a = a' \<and> d = d'"
proof -
  have "takeWhile (\<lambda>x. x \<noteq> c) (rev (s @ c # e)) = rev e" if "c \<notin> set e" for s e
  proof -
    have "takeWhile (\<lambda>x. x \<noteq> c) (rev e @ c # rev s) = rev e @ takeWhile (\<lambda>x. x \<noteq> c) (c # rev s)"
      by (rule takeWhile_append2) (use that in auto)
    then show ?thesis by simp
  qed
  then have "d = d'"
    using assms by (metis rev_rev_ident)
  with assms(1) show ?thesis
    by simp
qed

lemma digits_no_colon: "CHR '':'' \<notin> set (nat_dec n)"
  using nat_dec_digits [of n] by (auto simp: is_ascii_digit_def)

lemma kek_label_inject: "secret_kek_label kh s v = secret_kek_label kh s' v' \<longleftrightarrow> s = s' \<and> v = v'"
proof
  assume "secret_kek_label kh s v = secret_kek_label kh s' v'"
  then have "(s @ '':version'') @ CHR '':'' # nat_dec (unat v)
      = (s' @ '':version'') @ CHR '':'' # nat_dec (unat v')"
    by (simp add: secret_kek_label_def)
  from last_sep_inject [OF this digits_no_colon digits_no_colon]
  show "s = s' \<and> v = v'"
    by (simp add: word_unat_eq_iff)
qed simp

lemma vault_label_inject: "vault_label kh p = vault_label kh q \<longleftrightarrow> p = q"
  by (simp add: vault_label_def)

lemma vault_kek_label: "vault_label kh p = secret_kek_label kh s v \<longleftrightarrow>
    p = ''secret:'' @ s @ '':version:'' @ nat_dec (unat v) @ '':dek-wrap''"
  by (simp add: vault_label_def secret_kek_label_def)

lemma kdf_block_inject: "kdf_block l c = kdf_block l' c \<longleftrightarrow> l = l'"
  by (simp add: kdf_block_def)

lemma kdf_separates:
  "kdf E rk l = kdf E rk l' \<Longrightarrow> l \<noteq> l' \<Longrightarrow>
     \<exists>a b. a \<noteq> b \<and> e_hmac_sha256 E rk a = e_hmac_sha256 E rk b"
  unfolding kdf_def using kdf_block_inject by blast

text \<open>The purposes a key is derived for.\<close>

datatype purpose = Metadata | AuditIntegrity | RedactionFingerprint | TicketMac | SecretKek string u64

fun key_for :: "env \<Rightarrow> key_hierarchy \<Rightarrow> purpose \<Rightarrow> (bytes, unit) result" where
  "key_for E kh Metadata = metadata_key E kh"
| "key_for E kh AuditIntegrity = audit_integrity_key E kh"
| "key_for E kh RedactionFingerprint = redaction_fingerprint_key E kh"
| "key_for E kh TicketMac = ticket_mac_key E kh"
| "key_for E kh (SecretKek s v) = secret_kek E kh s v"

fun label_for :: "key_hierarchy \<Rightarrow> purpose \<Rightarrow> string" where
  "label_for kh Metadata = vault_label kh ''metadata''"
| "label_for kh AuditIntegrity = vault_label kh ''audit-integrity''"
| "label_for kh RedactionFingerprint = vault_label kh ''redaction-fingerprint''"
| "label_for kh TicketMac = vault_label kh ''ticket-mac''"
| "label_for kh (SecretKek s v) = secret_kek_label kh s v"

lemma key_for_eq: "digest_ok E \<Longrightarrow> key_for E kh p = Ok (kdf E (kh_root_key kh) (label_for kh p))"
  by (cases p) (simp_all add: keys_eq)

lemma label_for_inject: "label_for kh p = label_for kh q \<longleftrightarrow> p = q"
proof -
  note kek = vault_kek_label vault_kek_label [THEN eq_iff_swap]
  show ?thesis
    by (cases p; cases q) (simp_all add: vault_label_inject kek_label_inject kek)
qed

text \<open>
  Every key of the hierarchy can be derived and has 32 bytes, and keys of different purposes are
  separated: two purposes (or two secret ids, or two versions of a secret) that yield the same key
  are a collision of HMAC-SHA256 under the root key. Ids may contain the separator.
\<close>

theorem key_purposes_separate:
  assumes "digest_ok E"
  shows "(\<exists>k. key_for E kh p = Ok k \<and> length k = key_size) \<and>
    (key_for E kh p = key_for E kh q \<longrightarrow> p = q \<or>
      (\<exists>a b. a \<noteq> b \<and> e_hmac_sha256 E (kh_root_key kh) a = e_hmac_sha256 E (kh_root_key kh) b))"
  using key_for_eq [OF assms, of kh] length_kdf [OF assms] label_for_inject [of kh p q]
    kdf_separates [of E "kh_root_key kh" "label_for kh p" "label_for kh q"]
  by (auto simp: key_size_def)

lemma key_purposes_separate_witness:
  "\<exists>k. key_for sample_env \<lparr>kh_vault_id = ''v'', kh_root_key = replicate 32 7\<rparr> (SecretKek ''a:version:1'' 2)
      = Ok k \<and> length k = key_size"
  using key_purposes_separate [OF sample_ok(3)] by blast

end
