(* ===== verification/Crypto.thy ===== *)
theory Crypto
  imports Keys
begin

text \<open>
  Component \<open>crypto.rs\<close>: secrets encrypted under a fresh data key, the data key wrapped under a key
  derived for the secret's id and version, both with associated data that names the record.
\<close>

section \<open>Associated data\<close>

definition nonce_size :: nat where
  "nonce_size = 12"

datatype crypto_error =
    WrongVault | SecretAadHashMismatch | DekWrapAadHashMismatch | AuthenticationFailed | Decode
  | InvalidNonceLength

definition hash_bytes :: "env \<Rightarrow> bytes \<Rightarrow> string" where
  "hash_bytes E value = e_b64url E (e_sha256 E value)"

definition secret_aad_fields :: "string \<Rightarrow> string \<Rightarrow> string \<Rightarrow> string \<Rightarrow> u64 \<Rightarrow> secret_type \<Rightarrow> string
    \<Rightarrow> string \<Rightarrow> string \<Rightarrow> string \<Rightarrow> jmap" where
  "secret_aad_fields vault_id namespace_id secret_id secret_ref version secret_type policy_id
      pol_hash metadata_hash created_at =
     [(''aad_version'', JStr ''1''),
      (''record_type'', JStr ''secret''),
      (''algorithm_id'', JStr ''AES-256-GCM''),
      (''schema_version'', JStr ''1''),
      (''vault_id'', JStr vault_id),
      (''namespace_id'', JStr namespace_id),
      (''secret_id'', JStr secret_id),
      (''secret_ref'', JStr secret_ref),
      (''version'', enc_u64 version),
      (''secret_type'', enc_type secret_type),
      (''policy_id'', JStr policy_id),
      (''policy_hash'', JStr pol_hash),
      (''metadata_hash'', JStr metadata_hash),
      (''created_at'', JStr created_at)]"

definition secret_aad :: "env \<Rightarrow> string \<Rightarrow> string \<Rightarrow> string \<Rightarrow> string \<Rightarrow> u64 \<Rightarrow> secret_type \<Rightarrow> string
    \<Rightarrow> string \<Rightarrow> string \<Rightarrow> string \<Rightarrow> (bytes, 'e) result" where
  "secret_aad E vault_id namespace_id secret_id secret_ref version secret_type policy_id
      pol_hash metadata_hash created_at =
     expect_r (canonical E (to_value (secret_aad_fields vault_id namespace_id secret_id secret_ref
       version secret_type policy_id pol_hash metadata_hash created_at)))"

definition wrap_aad_fields :: "string \<Rightarrow> string \<Rightarrow> u64 \<Rightarrow> string \<Rightarrow> string \<Rightarrow> string \<Rightarrow> jmap" where
  "wrap_aad_fields vault_id secret_id version kdf_label provider_policy_hash created_at =
     [(''aad_version'', JStr ''1''),
      (''wrap_algorithm_id'', JStr ''AES-256-GCM''),
      (''vault_id'', JStr vault_id),
      (''secret_id'', JStr secret_id),
      (''version'', enc_u64 version),
      (''kdf_label'', JStr kdf_label),
      (''provider_policy_hash'', JStr provider_policy_hash),
      (''created_at'', JStr created_at)]"

definition dek_wrap_aad :: "env \<Rightarrow> string \<Rightarrow> string \<Rightarrow> u64 \<Rightarrow> string \<Rightarrow> string \<Rightarrow> string
    \<Rightarrow> (bytes, 'e) result" where
  "dek_wrap_aad E vault_id secret_id version kdf_label provider_policy_hash created_at =
     expect_r (canonical E (to_value (wrap_aad_fields vault_id secret_id version kdf_label
       provider_policy_hash created_at)))"

section \<open>The cipher\<close>

definition encrypt_aes_gcm :: "env \<Rightarrow> bytes \<Rightarrow> bytes \<Rightarrow> bytes \<Rightarrow> bytes \<Rightarrow> (bytes, crypto_error) result" where
  "encrypt_aes_gcm E key nonce plaintext aad =
     ok_or (e_aes_enc E key nonce plaintext aad) AuthenticationFailed"

definition decrypt_aes_gcm :: "env \<Rightarrow> bytes \<Rightarrow> bytes \<Rightarrow> bytes \<Rightarrow> bytes \<Rightarrow> (bytes, crypto_error) result" where
  "decrypt_aes_gcm E key nonce ciphertext aad =
     ok_or (e_aes_dec E key nonce ciphertext aad) AuthenticationFailed"

definition to_nonce :: "bytes \<Rightarrow> (bytes, crypto_error) result" where
  "to_nonce value = (if length value = nonce_size then Ok value else Err InvalidNonceLength)"

definition to_key :: "bytes \<Rightarrow> (bytes, crypto_error) result" where
  "to_key value = (if length value = key_size then Ok value else Err AuthenticationFailed)"

section \<open>Encryption\<close>

definition encrypt_secret :: "env \<Rightarrow> key_hierarchy \<Rightarrow> string \<Rightarrow> string \<Rightarrow> string \<Rightarrow> u64 \<Rightarrow> bytes
    \<Rightarrow> secret_type \<Rightarrow> string \<Rightarrow> string \<Rightarrow> string \<Rightarrow> string
    \<Rightarrow> ('z sys_scheme, secret_record, 'e) act" where
  "encrypt_secret E kh namespace_id secret_id secret_ref version plaintext secret_type policy_id
      pol_hash metadata_hash provider_policy_hash =
     bnd (now E) (\<lambda>time.
     let created_at = e_time_ms E time in
     bnd (random_bytes E key_size) (\<lambda>dek.
     bnd (lift_r (secret_kek E kh secret_id version)) (\<lambda>kek.
     let kdf_label = secret_kek_label kh secret_id version in
     bnd (lift_r (secret_aad E (kh_vault_id kh) namespace_id secret_id secret_ref version secret_type
       policy_id pol_hash metadata_hash created_at)) (\<lambda>aad.
     bnd (lift_r (dek_wrap_aad E (kh_vault_id kh) secret_id version kdf_label provider_policy_hash
       created_at)) (\<lambda>wrap_aad.
     bnd (random_bytes E nonce_size) (\<lambda>secret_nonce.
     bnd (random_bytes E nonce_size) (\<lambda>dek_nonce.
     bnd (lift_r (expect_r (encrypt_aes_gcm E dek secret_nonce plaintext aad))) (\<lambda>ciphertext.
     bnd (lift_r (expect_r (encrypt_aes_gcm E kek dek_nonce dek wrap_aad))) (\<lambda>wrapped_dek.
     ret \<lparr>sr_schema_version = ''1'',
          sr_vault_id = kh_vault_id kh,
          sr_namespace_id = namespace_id,
          sr_secret_id = secret_id,
          sr_secret_ref = secret_ref,
          sr_secret_version = version,
          sr_status = Active,
          sr_secret_type = secret_type,
          sr_algorithm_id = ''AES-256-GCM'',
          sr_wrap_algorithm_id = ''AES-256-GCM'',
          sr_policy_id = policy_id,
          sr_policy_hash = pol_hash,
          sr_metadata_hash = metadata_hash,
          sr_provider_policy_hash = provider_policy_hash,
          sr_created_at = created_at,
          sr_secret_nonce = e_b64url E secret_nonce,
          sr_ciphertext = e_b64url E ciphertext,
          sr_dek_nonce = e_b64url E dek_nonce,
          sr_wrapped_dek = e_b64url E wrapped_dek,
          sr_secret_aad_hash = hash_bytes E aad,
          sr_dek_wrap_aad_hash = hash_bytes E wrap_aad\<rparr>)))))))))"

section \<open>Decryption\<close>

definition created_at_aad_candidates :: "env \<Rightarrow> string \<Rightarrow> string list" where
  "created_at_aad_candidates E created_at =
     created_at #
     (case e_time_parse E created_at of
        Some timestamp \<Rightarrow>
          let millis = e_time_ms E timestamp in if millis \<noteq> created_at then [millis] else []
      | None \<Rightarrow> [])"

fun first_matching :: "env \<Rightarrow> (string \<Rightarrow> (bytes, crypto_error) result) \<Rightarrow> string \<Rightarrow> crypto_error
    \<Rightarrow> string list \<Rightarrow> (bytes, crypto_error) result" where
  "first_matching E aad_of hash e [] = Err e"
| "first_matching E aad_of hash e (created_at # rest) =
     bind_r (aad_of created_at) (\<lambda>aad.
     if hash_bytes E aad = hash then Ok aad else first_matching E aad_of hash e rest)"

definition matching_secret_aad :: "env \<Rightarrow> secret_record \<Rightarrow> (bytes, crypto_error) result" where
  "matching_secret_aad E r =
     first_matching E
       (\<lambda>created_at. secret_aad E (sr_vault_id r) (sr_namespace_id r) (sr_secret_id r)
          (sr_secret_ref r) (sr_secret_version r) (sr_secret_type r) (sr_policy_id r)
          (sr_policy_hash r) (sr_metadata_hash r) created_at)
       (sr_secret_aad_hash r) SecretAadHashMismatch (created_at_aad_candidates E (sr_created_at r))"

definition matching_dek_wrap_aad :: "env \<Rightarrow> secret_record \<Rightarrow> string \<Rightarrow> (bytes, crypto_error) result" where
  "matching_dek_wrap_aad E r kdf_label =
     first_matching E
       (\<lambda>created_at. dek_wrap_aad E (sr_vault_id r) (sr_secret_id r) (sr_secret_version r) kdf_label
          (sr_provider_policy_hash r) created_at)
       (sr_dek_wrap_aad_hash r) DekWrapAadHashMismatch (created_at_aad_candidates E (sr_created_at r))"

definition decrypt_secret :: "env \<Rightarrow> key_hierarchy \<Rightarrow> secret_record \<Rightarrow> (bytes, crypto_error) result" where
  "decrypt_secret E kh r =
     (if sr_vault_id r \<noteq> kh_vault_id kh then Err WrongVault
      else
     let kdf_label = secret_kek_label kh (sr_secret_id r) (sr_secret_version r) in
     bind_r (matching_secret_aad E r) (\<lambda>aad.
     bind_r (matching_dek_wrap_aad E r kdf_label) (\<lambda>wrap_aad.
     bind_r (secret_kek E kh (sr_secret_id r) (sr_secret_version r)) (\<lambda>kek.
     bind_r (ok_or (dek_nonce_bytes E r) Decode) (\<lambda>dek_nonce_raw.
     bind_r (to_nonce dek_nonce_raw) (\<lambda>dek_nonce.
     bind_r (ok_or (wrapped_dek_bytes E r) Decode) (\<lambda>wrapped_dek.
     bind_r (decrypt_aes_gcm E kek dek_nonce wrapped_dek wrap_aad) (\<lambda>dek_raw.
     bind_r (to_key dek_raw) (\<lambda>dek.
     bind_r (ok_or (secret_nonce_bytes E r) Decode) (\<lambda>secret_nonce_raw.
     bind_r (to_nonce secret_nonce_raw) (\<lambda>secret_nonce.
     bind_r (ok_or (ciphertext_bytes E r) Decode) (\<lambda>ciphertext.
     decrypt_aes_gcm E dek secret_nonce ciphertext aad))))))))))))"

section \<open>What encryption makes and decryption accepts\<close>

definition aad_of :: "env \<Rightarrow> secret_record \<Rightarrow> string \<Rightarrow> bytes" where
  "aad_of E r created_at =
     as_bytes (e_json_print E (to_value (secret_aad_fields (sr_vault_id r) (sr_namespace_id r)
       (sr_secret_id r) (sr_secret_ref r) (sr_secret_version r) (sr_secret_type r) (sr_policy_id r)
       (sr_policy_hash r) (sr_metadata_hash r) created_at)))"

definition wrap_aad_of :: "env \<Rightarrow> key_hierarchy \<Rightarrow> secret_record \<Rightarrow> string \<Rightarrow> bytes" where
  "wrap_aad_of E kh r created_at =
     as_bytes (e_json_print E (to_value (wrap_aad_fields (sr_vault_id r) (sr_secret_id r)
       (sr_secret_version r) (secret_kek_label kh (sr_secret_id r) (sr_secret_version r))
       (sr_provider_policy_hash r) created_at)))"

definition kek_of :: "env \<Rightarrow> key_hierarchy \<Rightarrow> secret_record \<Rightarrow> bytes" where
  "kek_of E kh r = kdf E (kh_root_key kh) (secret_kek_label kh (sr_secret_id r) (sr_secret_version r))"

lemma enc_type_wf: "json_ok (enc_type t)" "float_free (enc_type t)"
  by simp_all

lemma aad_eq:
  "secret_aad E v n s rf ver ty p ph mh c =
     Ok (as_bytes (e_json_print E (to_value (secret_aad_fields v n s rf ver ty p ph mh c))))"
  "dek_wrap_aad E v s ver l pph c =
     Ok (as_bytes (e_json_print E (to_value (wrap_aad_fields v s ver l pph c))))"
  using canonical_to_value [of "secret_aad_fields v n s rf ver ty p ph mh c" "e_json_print E"]
    canonical_to_value [of "wrap_aad_fields v s ver l pph c" "e_json_print E"]
  by (simp_all add: secret_aad_def dek_wrap_aad_def canonical_def expect_r_def secret_aad_fields_def
      wrap_aad_fields_def)

lemma aad_inject:
  assumes "json_text_ok E"
  shows "aad_of E r c = aad_of E r' c' \<longleftrightarrow>
    sr_vault_id r = sr_vault_id r' \<and> sr_namespace_id r = sr_namespace_id r' \<and>
    sr_secret_id r = sr_secret_id r' \<and> sr_secret_ref r = sr_secret_ref r' \<and>
    sr_secret_version r = sr_secret_version r' \<and> sr_secret_type r = sr_secret_type r' \<and>
    sr_policy_id r = sr_policy_id r' \<and> sr_policy_hash r = sr_policy_hash r' \<and>
    sr_metadata_hash r = sr_metadata_hash r' \<and> c = c'"
proof -
  let ?fs = "\<lambda>r c. secret_aad_fields (sr_vault_id r) (sr_namespace_id r)
       (sr_secret_id r) (sr_secret_ref r) (sr_secret_version r) (sr_secret_type r) (sr_policy_id r)
       (sr_policy_hash r) (sr_metadata_hash r) c"
  have wf: "json_wf (to_value (?fs r c))" for r c
    by (intro json_wf_of_ok to_value_ok) (simp_all add: secret_aad_fields_def)
  have keys: "map fst (?fs r c) = map fst (?fs r' c')" "distinct (map fst (?fs r c))"
    by (simp_all add: secret_aad_fields_def)
  have "aad_of E r c = aad_of E r' c' \<longleftrightarrow> ?fs r c = ?fs r' c'"
    unfolding aad_of_def as_bytes_inject json_print_inject [OF assms wf wf] to_value_inject [OF keys]
    by (rule refl)
  then show ?thesis
    by (simp add: secret_aad_fields_def enc_u64_def enc_type_def)
qed

lemma first_matching_Ok:
  "first_matching E (\<lambda>c. Ok (f c)) hash e cs = Ok aad \<Longrightarrow> \<exists>c \<in> set cs. aad = f c \<and> hash_bytes E aad = hash"
  by (induction cs) (auto split: if_splits)

lemma matching_aad_Ok:
  "matching_secret_aad E r = Ok aad \<Longrightarrow>
     \<exists>c \<in> set (created_at_aad_candidates E (sr_created_at r)). aad = aad_of E r c"
  unfolding matching_secret_aad_def aad_eq aad_of_def by (drule first_matching_Ok) blast

lemma decrypt_Ok:
  assumes "decrypt_secret E kh r = Ok m"
  shows "\<exists>c dek nonce ct. sr_vault_id r = kh_vault_id kh \<and>
    secret_nonce_bytes E r = Some nonce \<and> ciphertext_bytes E r = Some ct \<and>
    e_aes_dec E dek nonce ct (aad_of E r c) = Some m"
  using assms
  by (auto simp: decrypt_secret_def Let_def bind_r_Ok_iff decrypt_aes_gcm_def to_nonce_def
      dest!: matching_aad_Ok split: if_splits)

definition identity_is :: "secret_record \<Rightarrow> key_hierarchy \<Rightarrow> string \<Rightarrow> string \<Rightarrow> string \<Rightarrow> u64
    \<Rightarrow> secret_type \<Rightarrow> string \<Rightarrow> string \<Rightarrow> string \<Rightarrow> string \<Rightarrow> bool" where
  "identity_is r kh ns sid rf ver ty pid ph mh pph \<longleftrightarrow>
     sr_vault_id r = kh_vault_id kh \<and> sr_namespace_id r = ns \<and> sr_secret_id r = sid \<and>
     sr_secret_ref r = rf \<and> sr_secret_version r = ver \<and> sr_secret_type r = ty \<and>
     sr_policy_id r = pid \<and> sr_policy_hash r = ph \<and> sr_metadata_hash r = mh \<and>
     sr_provider_policy_hash r = pph"

text \<open>
  A record that holds a plaintext: its two ciphertexts are encryptions under its own associated
  data, whose hashes it carries.
\<close>

definition holds :: "env \<Rightarrow> key_hierarchy \<Rightarrow> secret_record \<Rightarrow> bytes \<Rightarrow> bool" where
  "holds E kh r pt \<longleftrightarrow> sr_vault_id r = kh_vault_id kh \<and>
     (\<exists>dek sn dn ct wd. length dek = key_size \<and> length sn = nonce_size \<and> length dn = nonce_size \<and>
       secret_nonce_bytes E r = Some sn \<and> dek_nonce_bytes E r = Some dn \<and>
       ciphertext_bytes E r = Some ct \<and> wrapped_dek_bytes E r = Some wd \<and>
       sr_secret_aad_hash r = hash_bytes E (aad_of E r (sr_created_at r)) \<and>
       sr_dek_wrap_aad_hash r = hash_bytes E (wrap_aad_of E kh r (sr_created_at r)) \<and>
       e_aes_enc E dek sn pt (aad_of E r (sr_created_at r)) = Some ct \<and>
       e_aes_enc E (kek_of E kh r) dn dek (wrap_aad_of E kh r (sr_created_at r)) = Some wd)"

lemma encrypt_secret_Ok:
  assumes "digest_ok E" and "fresh_ok E" and "b64url_ok E"
    and "encrypt_secret E kh ns sid rf ver pt ty pid ph mh pph w = (Ok r, w')"
  shows "identity_is r kh ns sid rf ver ty pid ph mh pph" and "sr_status r = Active"
    and "sr_created_at r = e_time_ms E (e_clock E (tick w))" and "holds E kh r pt"
    and "w' = w\<lparr>tick := tick w + 4\<rparr>"
  using assms(2-4) unfolding encrypt_secret_def Let_def
  by (auto simp: bnd_Ok_iff keys_eq [OF assms(1)] aad_eq encrypt_aes_gcm_def expect_r_def
      aad_of_def wrap_aad_of_def kek_of_def identity_is_def holds_def fresh_ok_def
      secret_nonce_bytes_def dek_nonce_bytes_def ciphertext_bytes_def wrapped_dek_bytes_def
      split: result.splits)

lemma encrypt_secret_total:
  assumes "digest_ok E" and "fresh_ok E" and "aead_ok E" and "length pt < 2 ^ 36"
  shows "\<exists>r. encrypt_secret E kh ns sid rf ver pt ty pid ph mh pph w = (Ok r, w\<lparr>tick := tick w + 4\<rparr>)"
proof -
  have len: "length (e_rand E t n) = n" for t n
    using assms(2) by (simp add: fresh_ok_def)
  have enc: "\<exists>c. e_aes_enc E k n m a = Some c" if "length k = 32" "length n = 12" "length m < 2 ^ 36"
    for k n m a
    using assms(3) that unfolding aead_ok_def by blast
  have "\<exists>ct. e_aes_enc E (e_rand E t key_size) (e_rand E t' nonce_size) pt a = Some ct" for t t' a
    by (rule enc) (use assms(4) in \<open>simp_all add: len key_size_def nonce_size_def\<close>)
  then obtain f where f: "\<And>t t' a. e_aes_enc E (e_rand E t key_size) (e_rand E t' nonce_size) pt a
      = Some (f t t' a)"
    by metis
  have "\<exists>wd. e_aes_enc E (kdf E rk l) (e_rand E t' nonce_size) (e_rand E t key_size) a = Some wd"
    for rk l t t' a
    by (rule enc) (simp_all add: len length_kdf assms(1) key_size_def nonce_size_def)
  moreover define g where "g rk l t t' a
      = the (e_aes_enc E (kdf E rk l) (e_rand E t' nonce_size) (e_rand E t key_size) a)" for rk l t t' a
  ultimately have g: "e_aes_enc E (kdf E rk l) (e_rand E t' nonce_size) (e_rand E t key_size) a
      = Some (g rk l t t' a)" for rk l t t' a
    by (metis option.sel)
  show ?thesis
    unfolding encrypt_secret_def Let_def
    by (simp add: act_run now_def random_bytes_def keys_eq [OF assms(1)] aad_eq encrypt_aes_gcm_def
        expect_r_def f g)
qed

lemma first_matching_hit:
  "hash_bytes E (f c) = hash \<Longrightarrow> first_matching E (\<lambda>c. Ok (f c)) hash e (c # cs) = Ok (f c)"
  by simp

lemma decrypt_holds:
  assumes "aead_ok E" and "digest_ok E" and "holds E kh r pt"
  shows "decrypt_secret E kh r = Ok pt"
proof -
  obtain dek sn dn ct wd where h: "sr_vault_id r = kh_vault_id kh" "length dek = key_size"
      "length sn = nonce_size" "length dn = nonce_size"
      "secret_nonce_bytes E r = Some sn" "dek_nonce_bytes E r = Some dn"
      "ciphertext_bytes E r = Some ct" "wrapped_dek_bytes E r = Some wd"
      "sr_secret_aad_hash r = hash_bytes E (aad_of E r (sr_created_at r))"
      "sr_dek_wrap_aad_hash r = hash_bytes E (wrap_aad_of E kh r (sr_created_at r))"
      "e_aes_enc E dek sn pt (aad_of E r (sr_created_at r)) = Some ct"
      "e_aes_enc E (kek_of E kh r) dn dek (wrap_aad_of E kh r (sr_created_at r)) = Some wd"
    using assms(3) unfolding holds_def by blast
  have "matching_secret_aad E r = Ok (aad_of E r (sr_created_at r))"
    unfolding matching_secret_aad_def aad_eq created_at_aad_candidates_def
    by (simp add: h(9)) (simp add: aad_of_def)
  moreover have "matching_dek_wrap_aad E r (secret_kek_label kh (sr_secret_id r) (sr_secret_version r))
      = Ok (wrap_aad_of E kh r (sr_created_at r))"
    unfolding matching_dek_wrap_aad_def aad_eq created_at_aad_candidates_def
    by (simp add: h(10)) (simp add: wrap_aad_of_def)
  ultimately show ?thesis
    using h aead_okD [OF assms(1) h(11)] aead_okD [OF assms(1) h(12)]
    by (simp add: decrypt_secret_def Let_def keys_eq [OF assms(2)] kek_of_def to_nonce_def to_key_def
        decrypt_aes_gcm_def)
qed

section \<open>Properties\<close>

text \<open>
  C32: a secret encrypts to a record that names it and decrypts to it, under the key hierarchy it was
  encrypted with.
\<close>

theorem secret_encryption_roundtrip:
  assumes "aead_ok E" and "digest_ok E" and "fresh_ok E" and "b64url_ok E"
    and "length pt < 2 ^ 36"
  shows "\<exists>r. (encrypt_secret E kh ns sid rf ver pt ty pid ph mh pph w :: (_, 'e) result \<times> _)
        = (Ok r, w\<lparr>tick := tick w + 4\<rparr>) \<and>
      identity_is r kh ns sid rf ver ty pid ph mh pph \<and> sr_status r = Active \<and>
      decrypt_secret E kh r = Ok pt"
proof -
  obtain r where run: "(encrypt_secret E kh ns sid rf ver pt ty pid ph mh pph w :: (_, 'e) result \<times> _)
      = (Ok r, w\<lparr>tick := tick w + 4\<rparr>)"
    using encrypt_secret_total [OF assms(2,3,1,5)] by blast
  note facts = encrypt_secret_Ok [OF assms(2,3,4) run]
  show ?thesis
    using run facts(1,2) decrypt_holds [OF assms(1,2) facts(4)] by (intro exI [of _ r] conjI)
qed

lemma secret_encryption_roundtrip_witness:
  "\<exists>r. (encrypt_secret sample_env \<lparr>kh_vault_id = ''v'', kh_root_key = replicate 32 7\<rparr> ''ns'' ''s1''
        ''secret://app/db'' 1 [1, 2, 3] ApiKey ''policy'' ''ph'' ''mh'' ''pph'' \<lparr>tick = 5\<rparr>
          :: (_, unit) result \<times> _) = (Ok r, \<lparr>tick = 5\<rparr>\<lparr>tick := tick \<lparr>tick = 5\<rparr> + 4\<rparr>) \<and>
      decrypt_secret sample_env \<lparr>kh_vault_id = ''v'', kh_root_key = replicate 32 7\<rparr> r = Ok [1, 2, 3]"
proof -
  have "length [1, 2, 3 :: u8] < 2 ^ 36"
    by simp
  from secret_encryption_roundtrip [OF sample_ok(1,3,6,2) this] show ?thesis
    by blast
qed



end
