(* ===== verification/Rotation.thy ===== *)
theory Rotation
  imports Crypto
begin

text \<open>
  Component \<open>rotation.rs\<close>: rotation jobs, which carry a staged record through its states.
\<close>

datatype rotation_job_status = JobStaged | Verified | Promoted | RolledBack | Failed

fun job_status_name :: "rotation_job_status \<Rightarrow> string" where
  "job_status_name JobStaged = ''staged''"
| "job_status_name Verified = ''verified''"
| "job_status_name Promoted = ''promoted''"
| "job_status_name RolledBack = ''rolled_back''"
| "job_status_name Failed = ''failed''"

definition job_status_of_name :: "string \<Rightarrow> rotation_job_status option" where
  "job_status_of_name s =
     find (\<lambda>x. job_status_name x = s) [JobStaged, Verified, Promoted, RolledBack, Failed]"

definition enc_job_status :: "rotation_job_status \<Rightarrow> json" where
  "enc_job_status s = JStr (job_status_name s)"

definition dec_job_status :: "json \<Rightarrow> rotation_job_status option" where
  "dec_job_status v = Option.bind (dec_str v) job_status_of_name"

interpretation job_status_codec: json_codec enc_job_status dec_job_status "\<lambda>_. True"
proof
  show "dec_job_status (enc_job_status s) = Some s" for s
    by (cases s) (simp_all add: dec_job_status_def enc_job_status_def job_status_of_name_def)
qed

declare job_status_codec.dec_enc [simp]

definition default_verifier :: string where
  "default_verifier = ''decrypt-self-test''"

record rotation_job =
  rj_job_id :: string
  rj_vault_id :: string
  rj_secret_ref :: string
  rj_staged_version :: u64
  rj_status :: rotation_job_status
  rj_created_at :: string
  rj_updated_at :: string
  rj_staged_record :: secret_record
  rj_verifier :: string
  rj_failure_reason :: "string option"

definition job_fields :: "rotation_job \<Rightarrow> jmap" where
  "job_fields j =
     [(''job_id'', JStr (rj_job_id j)),
      (''vault_id'', JStr (rj_vault_id j)),
      (''secret_ref'', JStr (rj_secret_ref j)),
      (''staged_version'', enc_u64 (rj_staged_version j)),
      (''status'', enc_job_status (rj_status j)),
      (''created_at'', JStr (rj_created_at j)),
      (''updated_at'', JStr (rj_updated_at j)),
      (''staged_record'', enc_secret_record (rj_staged_record j)),
      (''verifier'', JStr (rj_verifier j)),
      (''failure_reason'', enc_opt JStr (rj_failure_reason j))]"

definition enc_job :: "rotation_job \<Rightarrow> json" where
  "enc_job j = JObj (job_fields j)"

definition dec_job :: "json \<Rightarrow> rotation_job option" where
  "dec_job v = do {
     m \<leftarrow> dec_obj v;
     job_id \<leftarrow> fld dec_str ''job_id'' m;
     vault_id \<leftarrow> fld dec_str ''vault_id'' m;
     secret_ref \<leftarrow> fld dec_str ''secret_ref'' m;
     staged_version \<leftarrow> fld dec_u64 ''staged_version'' m;
     status \<leftarrow> fld dec_job_status ''status'' m;
     created_at \<leftarrow> fld dec_str ''created_at'' m;
     updated_at \<leftarrow> fld dec_str ''updated_at'' m;
     staged_record \<leftarrow> fld dec_secret_record ''staged_record'' m;
     verifier \<leftarrow> fld_def dec_str default_verifier ''verifier'' m;
     failure_reason \<leftarrow> fld_opt dec_str ''failure_reason'' m;
     Some \<lparr>rj_job_id = job_id, rj_vault_id = vault_id, rj_secret_ref = secret_ref,
       rj_staged_version = staged_version, rj_status = status, rj_created_at = created_at,
       rj_updated_at = updated_at, rj_staged_record = staged_record, rj_verifier = verifier,
       rj_failure_reason = failure_reason\<rparr>
   }"

interpretation job_codec: json_codec enc_job dec_job "\<lambda>_. True"
proof
  show "dec_job (enc_job j) = Some j" for j
    by (simp add: dec_job_def enc_job_def job_fields_def secret_record_codec.dec_enc)
qed

lemma enc_job_wf [simp]: "json_wf (enc_job j)"
  by (simp add: enc_job_def job_fields_def enc_job_status_def)

definition create :: "env \<Rightarrow> string \<Rightarrow> string \<Rightarrow> u64 \<Rightarrow> secret_record
    \<Rightarrow> ('z sys_scheme, rotation_job, 'e) act" where
  "create E vault_id secret_ref staged_version staged_record =
     bnd (now E) (\<lambda>time.
     let created = e_time_ms E time in
     bnd (new_uuid E) (\<lambda>job_id.
     ret \<lparr>rj_job_id = job_id, rj_vault_id = vault_id, rj_secret_ref = secret_ref,
       rj_staged_version = staged_version, rj_status = JobStaged, rj_created_at = created,
       rj_updated_at = created, rj_staged_record = staged_record, rj_verifier = default_verifier,
       rj_failure_reason = None\<rparr>))"

definition transition :: "env \<Rightarrow> rotation_job \<Rightarrow> rotation_job_status \<Rightarrow> string option
    \<Rightarrow> ('z sys_scheme, rotation_job, 'e) act" where
  "transition E j status failure_reason =
     bnd (now E) (\<lambda>time.
     ret (j\<lparr>rj_status := status, rj_updated_at := e_time_ms E time,
       rj_failure_reason := failure_reason\<rparr>))"

definition rotation_status_string :: "rotation_job_status \<Rightarrow> string" where
  "rotation_status_string status =
     (case enc_job_status status of JStr s \<Rightarrow> s | _ \<Rightarrow> ''unknown'')"

lemma rotation_status_string_eq [simp]: "rotation_status_string s = job_status_name s"
  by (simp add: rotation_status_string_def enc_job_status_def)

end
