(* ===== verification/Store.thy ===== *)
theory Store
  imports Rotation "HOL-Library.Product_Lexorder"
begin

text \<open>
  Component \<open>store.rs\<close>: the SQLite tables as association lists and every store operation as a
  transition on them. Each call opens the database, and may fail there (the environment's faults);
  a failed statement or an uncommitted transaction leaves the tables as they were. Records are kept
  as their JSON text.
\<close>

section \<open>Tables\<close>

datatype store_error =
    VaultNotInitialized | VaultAlreadyInitialized | SecretNotFound string | TicketConflict string
  | StoreSqlite | StoreJson | StoreIo

record secret_row =
  row_secret_id :: string
  row_namespace_id :: string
  row_status :: string
  row_secret_type :: string
  row_created_at :: string
  row_record_json :: string

text \<open>
  \<open>audit_events\<close> is listed in the order of its sequence numbers, with the event id of each row.
\<close>

record world = sys +
  db_metadata :: "(string \<times> string) list"
  db_secrets :: "((string \<times> u64) \<times> secret_row) list"
  db_policies :: "(string \<times> string) list"
  db_tickets :: "(string \<times> string) list"
  db_audit :: "(string \<times> string) list"
  db_fingerprints :: "((string \<times> u64) \<times> string) list"
  db_jobs :: "(string \<times> (string \<times> string \<times> string)) list"

record vault_header =
  vh_schema_version :: u64
  vh_vault_id :: string
  vh_namespace_id :: string
  vh_provider_binding :: json
  vh_created_at :: string

definition schema_version :: u64 where
  "schema_version = 1"

definition enc_header :: "vault_header \<Rightarrow> json" where
  "enc_header h = JObj
     [(''schema_version'', enc_u64 (vh_schema_version h)),
      (''vault_id'', JStr (vh_vault_id h)),
      (''namespace_id'', JStr (vh_namespace_id h)),
      (''provider_binding'', vh_provider_binding h),
      (''created_at'', JStr (vh_created_at h))]"

definition dec_header :: "json \<Rightarrow> vault_header option" where
  "dec_header v = do {
     m \<leftarrow> dec_obj v;
     version \<leftarrow> fld_def dec_u64 schema_version ''schema_version'' m;
     vault_id \<leftarrow> fld dec_str ''vault_id'' m;
     namespace_id \<leftarrow> fld dec_str ''namespace_id'' m;
     provider_binding \<leftarrow> fld dec_value ''provider_binding'' m;
     created_at \<leftarrow> fld dec_str ''created_at'' m;
     Some \<lparr>vh_schema_version = version, vh_vault_id = vault_id, vh_namespace_id = namespace_id,
       vh_provider_binding = provider_binding, vh_created_at = created_at\<rparr>
   }"

definition header_domain :: "vault_header \<Rightarrow> bool" where
  "header_domain h \<longleftrightarrow> json_ok (vh_provider_binding h) \<and> float_free (vh_provider_binding h)"

interpretation header_codec: json_codec enc_header dec_header header_domain
proof
  show "dec_header (enc_header h) = Some h" if "header_domain h" for h
    using that by (simp add: dec_header_def enc_header_def header_domain_def)
qed

lemma enc_header_wf: "header_domain h \<Longrightarrow> json_wf (enc_header h)"
  by (simp add: enc_header_def header_domain_def json_wf_of_ok)

record secret_summary =
  ss_secret_ref :: string
  ss_secret_id :: string
  ss_namespace_id :: string
  ss_latest_version :: u64
  ss_status :: string
  ss_secret_type :: string
  ss_created_at :: string

section \<open>Access to the database\<close>

definition txn :: "env \<Rightarrow> ('z world_scheme, 'a, store_error) act \<Rightarrow> ('z world_scheme, 'a, store_error) act" where
  "txn E f = (\<lambda>w.
     let w' = w\<lparr>tick := Suc (tick w)\<rparr> in
     case e_fault E (tick w) of
       Some SqliteFault \<Rightarrow> (Err StoreSqlite, w')
     | Some IoFault \<Rightarrow> (Err StoreIo, w')
     | None \<Rightarrow> f w')"

definition query :: "('z world_scheme \<Rightarrow> ('a, 'e) result) \<Rightarrow> ('z world_scheme, 'a, 'e) act" where
  "query f = (\<lambda>w. (f w, w))"

definition update :: "('z world_scheme \<Rightarrow> 'z world_scheme) \<Rightarrow> ('z world_scheme, unit, 'e) act" where
  "update f = (\<lambda>w. (Ok (), f w))"

text \<open>\<open>rusqlite\<close> binds a \<open>u64\<close> as a signed 64-bit integer and refuses one that does not fit.\<close>

definition fits :: "u64 \<Rightarrow> bool" where
  "fits v \<longleftrightarrow> unat v < 2 ^ 63"

definition initialize_schema :: "env \<Rightarrow> ('z world_scheme, unit, store_error) act" where
  "initialize_schema E = txn E (ret ())"

definition header_key :: string where
  "header_key = ''vault_header''"

definition create_vault :: "env \<Rightarrow> vault_header \<Rightarrow> ('z world_scheme, unit, store_error) act" where
  "create_vault E header =
     txn E (\<lambda>w. if map_of (db_metadata w) header_key \<noteq> None then (Err VaultAlreadyInitialized, w)
       else (Ok (), w\<lparr>db_metadata := tbl_put header_key (e_json_print E (enc_header header)) (db_metadata w)\<rparr>))"

definition load_header :: "env \<Rightarrow> ('z world_scheme, vault_header, store_error) act" where
  "load_header E =
     txn E (query (\<lambda>w. bind_r (ok_or (map_of (db_metadata w) header_key) VaultNotInitialized)
       (\<lambda>raw. ok_or (parse_as E dec_header raw) StoreJson)))"

definition update_header :: "env \<Rightarrow> vault_header \<Rightarrow> ('z world_scheme, unit, store_error) act" where
  "update_header E header =
     txn E (\<lambda>w. if map_of (db_metadata w) header_key = None then (Err VaultNotInitialized, w)
       else (Ok (), w\<lparr>db_metadata := tbl_put header_key (e_json_print E (enc_header header)) (db_metadata w)\<rparr>))"

definition get_metadata :: "env \<Rightarrow> string \<Rightarrow> ('z world_scheme, string option, store_error) act" where
  "get_metadata E key = txn E (query (\<lambda>w. Ok (map_of (db_metadata w) key)))"

definition set_metadata :: "env \<Rightarrow> string \<Rightarrow> string \<Rightarrow> ('z world_scheme, unit, store_error) act" where
  "set_metadata E key val =
     txn E (update (\<lambda>w. w\<lparr>db_metadata := tbl_put key val (db_metadata w)\<rparr>))"

section \<open>Secrets\<close>

definition row_of :: "env \<Rightarrow> secret_record \<Rightarrow> secret_row" where
  "row_of E r =
     \<lparr>row_secret_id = sr_secret_id r, row_namespace_id = sr_namespace_id r,
      row_status = status_name (sr_status r), row_secret_type = type_name (sr_secret_type r),
      row_created_at = sr_created_at r, row_record_json = e_json_print E (enc_secret_record r)\<rparr>"

definition save_secret_record :: "env \<Rightarrow> secret_record \<Rightarrow> ('z world_scheme, unit, store_error) act" where
  "save_secret_record E r =
     txn E (\<lambda>w.
       if map_of (db_metadata w) header_key = None then (Err VaultNotInitialized, w)
       else if \<not> fits (sr_secret_version r) then (Err StoreSqlite, w)
       else (Ok (), w\<lparr>db_secrets :=
         tbl_put (sr_secret_ref r, sr_secret_version r) (row_of E r) (db_secrets w)\<rparr>))"

definition versions :: "('z world_scheme) \<Rightarrow> string \<Rightarrow> u64 list" where
  "versions w secret_ref = map snd (filter (\<lambda>k. fst k = secret_ref) (map fst (db_secrets w)))"

definition max_version :: "('z world_scheme) \<Rightarrow> string \<Rightarrow> u64 option" where
  "max_version w secret_ref =
     (case versions w secret_ref of [] \<Rightarrow> None | v # vs \<Rightarrow> Some (fold max vs v))"

definition latest_version :: "env \<Rightarrow> string \<Rightarrow> ('z world_scheme, u64 option, store_error) act" where
  "latest_version E secret_ref = txn E (query (\<lambda>w. Ok (max_version w secret_ref)))"

definition load_latest_secret :: "env \<Rightarrow> string \<Rightarrow> ('z world_scheme, secret_record, store_error) act" where
  "load_latest_secret E secret_ref =
     txn E (query (\<lambda>w.
       bind_r (ok_or (Option.bind (max_version w secret_ref) (\<lambda>v. map_of (db_secrets w) (secret_ref, v)))
         (SecretNotFound secret_ref))
       (\<lambda>row. ok_or (parse_as E dec_secret_record (row_record_json row)) StoreJson)))"

definition load_secret_version :: "env \<Rightarrow> string \<Rightarrow> u64 \<Rightarrow> ('z world_scheme, secret_record, store_error) act" where
  "load_secret_version E secret_ref version =
     txn E (query (\<lambda>w.
       if \<not> fits version then Err StoreSqlite
       else bind_r (ok_or (map_of (db_secrets w) (secret_ref, version)) (SecretNotFound secret_ref))
         (\<lambda>row. ok_or (parse_as E dec_secret_record (row_record_json row)) StoreJson)))"

definition save_updated_secret_status :: "env \<Rightarrow> string \<Rightarrow> secret_status
    \<Rightarrow> ('z world_scheme, secret_record, store_error) act" where
  "save_updated_secret_status E secret_ref status =
     bnd (load_latest_secret E secret_ref) (\<lambda>record0.
     let r = record0\<lparr>sr_status := status\<rparr> in
     seq (save_secret_record E r) (ret r))"

definition summary_of :: "(string \<times> u64) \<times> secret_row \<Rightarrow> secret_summary" where
  "summary_of p = (case p of ((secret_ref, version), row) \<Rightarrow>
     \<lparr>ss_secret_ref = secret_ref, ss_secret_id = row_secret_id row,
      ss_namespace_id = row_namespace_id row, ss_latest_version = version,
      ss_status = row_status row, ss_secret_type = row_secret_type row,
      ss_created_at = row_created_at row\<rparr>)"

definition list_secrets :: "env \<Rightarrow> ('z world_scheme, secret_summary list, store_error) act" where
  "list_secrets E =
     txn E (query (\<lambda>w. Ok (map summary_of (sort_key (fst \<circ> fst)
       (filter (\<lambda>p. max_version w (fst (fst p)) = Some (snd (fst p))) (db_secrets w))))))"

section \<open>Tables of JSON texts\<close>

definition load_text :: "env \<Rightarrow> (json \<Rightarrow> 'a option) \<Rightarrow> (string \<times> string) list \<Rightarrow> string
    \<Rightarrow> ('a option, store_error) result" where
  "load_text E d tbl key = (case map_of tbl key of
       None \<Rightarrow> Ok None
     | Some raw \<Rightarrow> (case parse_as E d raw of None \<Rightarrow> Err StoreJson | Some x \<Rightarrow> Ok (Some x)))"

definition list_text :: "env \<Rightarrow> (json \<Rightarrow> 'a option) \<Rightarrow> string list \<Rightarrow> ('a list, store_error) result" where
  "list_text E d raw = ok_or (those (map (parse_as E d) raw)) StoreJson"

text \<open>\<open>SELECT ... ORDER BY\<close> the key; SQLite compares text byte by byte.\<close>

definition texts_by_key :: "(string \<times> string) list \<Rightarrow> string list" where
  "texts_by_key tbl = map snd (sort_key fst tbl)"

section \<open>Audit events\<close>

definition insert_event :: "env \<Rightarrow> audit_event \<Rightarrow> ('z world_scheme, unit, store_error) act" where
  "insert_event E event = (\<lambda>w.
     if ev_event_id event \<in> fst ` set (db_audit w) then (Err StoreSqlite, w)
     else (Ok (), w\<lparr>db_audit := db_audit w @ [(ev_event_id event, e_json_print E (enc_event event))]\<rparr>))"

definition save_audit_event :: "env \<Rightarrow> audit_event \<Rightarrow> ('z world_scheme, unit, store_error) act" where
  "save_audit_event E event = txn E (insert_event E event)"

definition list_audit_events :: "env \<Rightarrow> ('z world_scheme, audit_event list, store_error) act" where
  "list_audit_events E = txn E (query (\<lambda>w. list_text E dec_event (map snd (db_audit w))))"

text \<open>
  One immediate transaction: the events are read, the new one is built from them and inserted, and
  the commit may fail, with nothing written.
\<close>

definition append_audit_event :: "env \<Rightarrow> (audit_event list \<Rightarrow> ('z world_scheme, audit_event, store_error) act)
    \<Rightarrow> ('z world_scheme, audit_event, store_error) act" where
  "append_audit_event E build =
     bnd (list_audit_events E) (\<lambda>events.
     bnd (build events) (\<lambda>event.
     seq (txn E (insert_event E event)) (ret event)))"

section \<open>Policies, tickets, rotation jobs, fingerprints\<close>

definition save_policy :: "env \<Rightarrow> access_policy \<Rightarrow> ('z world_scheme, unit, store_error) act" where
  "save_policy E p =
     txn E (update (\<lambda>w. w\<lparr>db_policies :=
       tbl_put (ap_policy_id p) (e_json_print E (enc_policy E p)) (db_policies w)\<rparr>))"

definition list_policies :: "env \<Rightarrow> ('z world_scheme, access_policy list, store_error) act" where
  "list_policies E = txn E (query (\<lambda>w. list_text E (dec_policy E) (texts_by_key (db_policies w))))"

definition save_ticket :: "env \<Rightarrow> secret_access_ticket \<Rightarrow> ('z world_scheme, unit, store_error) act" where
  "save_ticket E t =
     txn E (update (\<lambda>w. w\<lparr>db_tickets :=
       tbl_put (tk_ticket_id t) (e_json_print E (enc_ticket t)) (db_tickets w)\<rparr>))"

text \<open>The conditional update changes the row only if its text is still the expected ticket's.\<close>

definition save_ticket_if_current :: "env \<Rightarrow> secret_access_ticket \<Rightarrow> secret_access_ticket
    \<Rightarrow> ('z world_scheme, unit, store_error) act" where
  "save_ticket_if_current E expected updated =
     txn E (\<lambda>w.
       if map_of (db_tickets w) (tk_ticket_id expected) = Some (e_json_print E (enc_ticket expected))
       then (Ok (), w\<lparr>db_tickets :=
         tbl_put (tk_ticket_id expected) (e_json_print E (enc_ticket updated)) (db_tickets w)\<rparr>)
       else (Err (TicketConflict (tk_ticket_id expected)), w))"

definition load_ticket :: "env \<Rightarrow> string \<Rightarrow> ('z world_scheme, secret_access_ticket option, store_error) act" where
  "load_ticket E ticket_id = txn E (query (\<lambda>w. load_text E dec_ticket (db_tickets w) ticket_id))"

definition list_tickets :: "env \<Rightarrow> ('z world_scheme, secret_access_ticket list, store_error) act" where
  "list_tickets E = txn E (query (\<lambda>w. list_text E dec_ticket (texts_by_key (db_tickets w))))"

definition save_rotation_job :: "env \<Rightarrow> rotation_job \<Rightarrow> ('z world_scheme, unit, store_error) act" where
  "save_rotation_job E j =
     txn E (update (\<lambda>w. w\<lparr>db_jobs := tbl_put (rj_job_id j)
       (rj_secret_ref j, job_status_name (rj_status j), e_json_print E (enc_job j)) (db_jobs w)\<rparr>))"

definition job_texts :: "('z world_scheme) \<Rightarrow> (string \<times> string) list" where
  "job_texts w = map (\<lambda>(k, _, _, text). (k, text)) (db_jobs w)"

definition load_rotation_job :: "env \<Rightarrow> string \<Rightarrow> ('z world_scheme, rotation_job option, store_error) act" where
  "load_rotation_job E job_id = txn E (query (\<lambda>w. load_text E dec_job (job_texts w) job_id))"

definition list_rotation_jobs :: "env \<Rightarrow> ('z world_scheme, rotation_job list, store_error) act" where
  "list_rotation_jobs E = txn E (query (\<lambda>w. list_text E dec_job (texts_by_key (job_texts w))))"

definition count_redaction_fingerprints :: "env \<Rightarrow> ('z world_scheme, nat, store_error) act" where
  "count_redaction_fingerprints E = txn E (query (\<lambda>w. Ok (length (db_fingerprints w))))"

definition save_redaction_fingerprint :: "env \<Rightarrow> string \<Rightarrow> u64 \<Rightarrow> string
    \<Rightarrow> ('z world_scheme, unit, store_error) act" where
  "save_redaction_fingerprint E secret_ref version fingerprint =
     txn E (\<lambda>w. if \<not> fits version then (Err StoreSqlite, w)
       else (Ok (), w\<lparr>db_fingerprints := tbl_put (secret_ref, version) fingerprint (db_fingerprints w)\<rparr>))"

definition list_redaction_fingerprints :: "env \<Rightarrow> ('z world_scheme, string list, store_error) act" where
  "list_redaction_fingerprints E =
     txn E (query (\<lambda>w. Ok (map snd (sort_key fst (db_fingerprints w)))))"

section \<open>Runs without and with faults\<close>

lemma txn_run: "e_fault E (tick w) = None \<Longrightarrow> txn E f w = f (w\<lparr>tick := Suc (tick w)\<rparr>)"
  by (simp add: txn_def)

lemma txn_no_faults [simp]: "no_faults E \<Longrightarrow> txn E f w = f (w\<lparr>tick := Suc (tick w)\<rparr>)"
  by (simp add: no_faults_def txn_run)

lemma txn_Ok_iff [simp]:
  "txn E f w = (Ok x, w') \<longleftrightarrow> e_fault E (tick w) = None \<and> f (w\<lparr>tick := Suc (tick w)\<rparr>) = (Ok x, w')"
  by (auto simp: txn_def Let_def split: option.splits store_fault.splits)

lemma query_Ok_iff [simp]: "query f w = (Ok x, w') \<longleftrightarrow> f w = Ok x \<and> w' = w"
  by (auto simp: query_def)

lemma update_Ok_iff [simp]: "update f w = (Ok u, w') \<longleftrightarrow> w' = f w"
  by (auto simp: update_def)

lemma keeps_query [keeps_intro]: "keeps I (query f)"
  by (simp add: keeps_def query_def)

lemma keeps_update: "(\<And>w. I w \<Longrightarrow> I (f w)) \<Longrightarrow> keeps I (update f)"
  by (simp add: keeps_def update_def)

text \<open>A predicate that time passing cannot break.\<close>

definition tick_free :: "('z world_scheme \<Rightarrow> bool) \<Rightarrow> bool" where
  "tick_free I \<longleftrightarrow> (\<forall>w n. tick w \<le> n \<longrightarrow> I w \<longrightarrow> I (w\<lparr>tick := n\<rparr>))"

lemma tick_freeD: "tick_free I \<Longrightarrow> I w \<Longrightarrow> tick w \<le> n \<Longrightarrow> I (w\<lparr>tick := n\<rparr>)"
  by (simp add: tick_free_def)

lemma keeps_effects:
  fixes I :: "'z world_scheme \<Rightarrow> bool"
  assumes "tick_free I"
  shows "keeps I (now E)" and "keeps I (new_uuid E)" and "keeps I (random_bytes E n)"
  using assms by (simp_all add: keeps_def now_def new_uuid_def random_bytes_def tick_free_def)

lemma keeps_txn:
  assumes "tick_free I" and "keeps I f"
  shows "keeps I (txn E f)"
proof (rule keepsI)
  fix w r w' assume I: "I w" and run: "txn E f w = (r, w')"
  have "I (w\<lparr>tick := Suc (tick w)\<rparr>)"
    using tick_freeD [OF assms(1) I] by simp
  then show "I w'"
    using run keepsD [OF assms(2)]
    by (auto simp: txn_def Let_def split: option.splits store_fault.splits)
qed

section \<open>Tables of JSON texts\<close>

text \<open>Every row holds the text of a record in the domain, under the record's own key.\<close>

definition text_table :: "env \<Rightarrow> ('a \<Rightarrow> json) \<Rightarrow> ('a \<Rightarrow> bool) \<Rightarrow> ('a \<Rightarrow> string) \<Rightarrow> (string \<times> string) list
    \<Rightarrow> bool" where
  "text_table E enc domain key tbl \<longleftrightarrow> distinct (map fst tbl) \<and>
     (\<forall>p \<in> set tbl. \<exists>x. domain x \<and> p = (key x, e_json_print E (enc x)))"

lemma those_map_ex:
  assumes "\<forall>s \<in> set xs. \<exists>y. f s = Some y"
  shows "\<exists>ys. those (map f xs) = Some ys \<and> map f xs = map Some ys"
  using assms by (induction xs) force+

text \<open>
  The contract of a table of JSON texts: its records read back from their texts. What a load and a
  listing return after a save follows.
\<close>

locale json_table =
  fixes E :: env and enc :: "'a \<Rightarrow> json" and dec :: "json \<Rightarrow> 'a option" and domain :: "'a \<Rightarrow> bool"
    and key :: "'a \<Rightarrow> string"
  assumes reads: "domain x \<Longrightarrow> parse_as E dec (e_json_print E (enc x)) = Some x"
begin

lemma empty_ok: "text_table E enc domain key []"
  by (simp add: text_table_def)

lemma put_ok:
  assumes "text_table E enc domain key tbl" and "domain x"
  shows "text_table E enc domain key (tbl_put (key x) (e_json_print E (enc x)) tbl)"
proof -
  have "set (tbl_put k v tbl) \<subseteq> insert (k, v) (set tbl)" for k v
    by (induction k v tbl rule: tbl_put.induct) auto
  from this [of "key x" "e_json_print E (enc x)"] show ?thesis
    using assms by (auto simp: text_table_def distinct_tbl_put)
qed

lemma load_put:
  "domain x \<Longrightarrow> load_text E dec (tbl_put (key x) (e_json_print E (enc x)) tbl) k =
     (if k = key x then Ok (Some x) else load_text E dec tbl k)"
  by (simp add: load_text_def reads)

lemma load_ok:
  assumes "text_table E enc domain key tbl"
  shows "load_text E dec tbl k = Ok (case map_of tbl k of None \<Rightarrow> None | Some s \<Rightarrow> parse_as E dec s)"
    and "load_text E dec tbl k = Ok (Some x) \<longleftrightarrow>
      domain x \<and> key x = k \<and> map_of tbl k = Some (e_json_print E (enc x))"
proof -
  have row: "\<exists>y. domain y \<and> key y = k \<and> s = e_json_print E (enc y)" if "map_of tbl k = Some s" for s
    using assms map_of_SomeD [OF that] by (auto simp: text_table_def)
  show "load_text E dec tbl k = Ok (case map_of tbl k of None \<Rightarrow> None | Some s \<Rightarrow> parse_as E dec s)"
    using row by (auto simp: load_text_def reads split: option.split)
  show "load_text E dec tbl k = Ok (Some x) \<longleftrightarrow>
      domain x \<and> key x = k \<and> map_of tbl k = Some (e_json_print E (enc x))"
    using row by (auto simp: load_text_def reads split: option.split dest: row)
qed

lemma list_rows:
  "\<forall>p \<in> set rows. \<exists>x. domain x \<and> p = (key x, e_json_print E (enc x)) \<Longrightarrow>
     \<exists>xs. those (map (parse_as E dec) (map snd rows)) = Some xs \<and> (\<forall>x \<in> set xs. domain x) \<and>
       rows = map (\<lambda>x. (key x, e_json_print E (enc x))) xs"
proof (induction rows)
  case (Cons p rows)
  then obtain x xs where "domain x" "p = (key x, e_json_print E (enc x))"
      "those (map (parse_as E dec) (map snd rows)) = Some xs" "\<forall>x \<in> set xs. domain x"
      "rows = map (\<lambda>x. (key x, e_json_print E (enc x))) xs"
    unfolding list.set ball_simps by blast
  then show ?case
    by (intro exI [of _ "x # xs"]) (simp add: reads)
qed simp

lemma list_ok:
  assumes "text_table E enc domain key tbl"
  shows "\<exists>xs. list_text E dec (texts_by_key tbl) = Ok xs \<and> map key xs = sort (map fst tbl) \<and>
    (\<forall>x. x \<in> set xs \<longleftrightarrow> load_text E dec tbl (key x) = Ok (Some x))"
proof -
  let ?rows = "sort_key fst tbl"
  have rows: "\<forall>p \<in> set ?rows. \<exists>x. domain x \<and> p = (key x, e_json_print E (enc x))"
    using assms by (simp add: text_table_def)
  obtain xs where xs: "those (map (parse_as E dec) (map snd ?rows)) = Some xs" "\<forall>x \<in> set xs. domain x"
      "?rows = map (\<lambda>x. (key x, e_json_print E (enc x))) xs"
    using list_rows [OF rows] by blast
  have "map key xs = map fst ?rows"
    by (simp add: xs(3) comp_def)
  then have keys: "map key xs = sort (map fst tbl)"
    by (metis mset_map mset_sort sorted_sort_key properties_for_sort)
  have mem: "x \<in> set xs \<longleftrightarrow> domain x \<and> (key x, e_json_print E (enc x)) \<in> set tbl" for x
  proof
    assume "domain x \<and> (key x, e_json_print E (enc x)) \<in> set tbl"
    then have "(key x, e_json_print E (enc x)) \<in> set ?rows" and x: "domain x"
      by simp_all
    then obtain y where "y \<in> set xs" "e_json_print E (enc x) = e_json_print E (enc y)"
      unfolding xs(3) by auto
    with xs(2) x show "x \<in> set xs"
      by (metis reads option.inject)
  next
    assume "x \<in> set xs"
    then have "(key x, e_json_print E (enc x)) \<in> set ?rows"
      unfolding xs(3) by simp
    with \<open>x \<in> set xs\<close> xs(2) show "domain x \<and> (key x, e_json_print E (enc x)) \<in> set tbl"
      by simp
  qed
  have "distinct (map fst tbl)"
    using assms by (simp add: text_table_def)
  then have "x \<in> set xs \<longleftrightarrow> load_text E dec tbl (key x) = Ok (Some x)" for x
    unfolding load_ok(2) [OF assms] mem by simp
  with keys xs(1) show ?thesis
    by (intro exI [of _ xs]) (simp add: list_text_def texts_by_key_def)
qed

end

text \<open>The three tables.\<close>

definition ticket_domain :: "env \<Rightarrow> secret_access_ticket \<Rightarrow> bool" where
  "ticket_domain E t \<longleftrightarrow> json_text_ok E"

definition stored_policy_domain :: "env \<Rightarrow> access_policy \<Rightarrow> bool" where
  "stored_policy_domain E p \<longleftrightarrow> json_text_ok E \<and> policy_domain E p"

definition job_domain :: "env \<Rightarrow> rotation_job \<Rightarrow> bool" where
  "job_domain E j \<longleftrightarrow> json_text_ok E"

interpretation ticket_table: json_table E enc_ticket dec_ticket "ticket_domain E" tk_ticket_id for E
  by unfold_locales (simp add: ticket_domain_def parse_as_print ticket_codec.dec_enc)

interpretation policy_table: json_table E "enc_policy E" "dec_policy E" "stored_policy_domain E"
  ap_policy_id for E
  by unfold_locales (simp add: stored_policy_domain_def parse_as_print policy_codec.dec_enc)

interpretation job_table: json_table E enc_job dec_job "job_domain E" rj_job_id for E
  by unfold_locales (simp add: job_domain_def parse_as_print job_codec.dec_enc)

section \<open>Versions of a secret\<close>

text \<open>Every row of \<open>secret_records\<close> is the row of one record, under its reference and version.\<close>

definition secrets_ok :: "env \<Rightarrow> ((string \<times> u64) \<times> secret_row) list \<Rightarrow> bool" where
  "secrets_ok E tbl \<longleftrightarrow> distinct (map fst tbl) \<and>
     (\<forall>p \<in> set tbl. \<exists>r. p = ((sr_secret_ref r, sr_secret_version r), row_of E r) \<and> fits (sr_secret_version r))"

definition secret_at :: "env \<Rightarrow> 'z world_scheme \<Rightarrow> string \<Rightarrow> u64 \<Rightarrow> secret_record option" where
  "secret_at E w secret_ref v =
     Option.bind (map_of (db_secrets w) (secret_ref, v)) (\<lambda>row. parse_as E dec_secret_record (row_record_json row))"

lemma set_versions: "set (versions w rf) = {v. (rf, v) \<in> fst ` set (db_secrets w)}"
  by (force simp: versions_def)

lemma fold_max: "fold max vs (v :: u64) = Max (insert v (set vs))"
  using Max.set_eq_fold [of v vs] by simp

lemma max_version_None: "max_version w rf = None \<longleftrightarrow> versions w rf = []"
  by (simp add: max_version_def split: list.split)

lemma max_version_Some:
  "max_version w rf = Some v \<longleftrightarrow> v \<in> set (versions w rf) \<and> (\<forall>u \<in> set (versions w rf). u \<le> v)"
proof (cases "versions w rf")
  case (Cons u us)
  then show ?thesis
    by (simp add: max_version_def fold_max Max_eq_iff)
qed (simp add: max_version_def)

lemma versions_put:
  "set (versions (w\<lparr>db_secrets := tbl_put (rf, v) row (db_secrets w)\<rparr>) rf') =
     (if rf' = rf then insert v (set (versions w rf')) else set (versions w rf'))"
  by (auto simp: set_versions)

lemma max_version_put:
  "(\<forall>u. max_version w rf = Some u \<longrightarrow> u \<le> v) \<Longrightarrow>
     max_version (w\<lparr>db_secrets := tbl_put (rf, v) row (db_secrets w)\<rparr>) rf = Some v"
proof -
  assume *: "\<forall>u. max_version w rf = Some u \<longrightarrow> u \<le> v"
  have "u \<le> v" if "u \<in> set (versions w rf)" for u
  proof -
    have "max_version w rf \<noteq> None"
      using that max_version_None [of w rf] by auto
    then obtain m where m: "max_version w rf = Some m"
      by blast
    then have "u \<le> m"
      using that max_version_Some [of w rf m] by blast
    also have "m \<le> v"
      using * m by blast
    finally show ?thesis .
  qed
  then show ?thesis
    unfolding max_version_Some versions_put by simp
qed

lemma secret_row_reads: "json_text_ok E \<Longrightarrow> parse_as E dec_secret_record (row_record_json (row_of E r)) = Some r"
  by (simp add: row_of_def parse_as_print secret_record_codec.dec_enc)

lemma secrets_ok_put:
  assumes "secrets_ok E tbl" and "fits (sr_secret_version r)"
  shows "secrets_ok E (tbl_put (sr_secret_ref r, sr_secret_version r) (row_of E r) tbl)"
proof -
  have "set (tbl_put k v tbl) \<subseteq> insert (k, v) (set tbl)" for k v
    by (induction k v tbl rule: tbl_put.induct) auto
  from this [of "(sr_secret_ref r, sr_secret_version r)" "row_of E r"] show ?thesis
    using assms by (auto simp: secrets_ok_def distinct_tbl_put)
qed

lemma secret_at_ok:
  assumes "secrets_ok E (db_secrets w)" and "json_text_ok E"
  shows "secret_at E w rf v = Some r \<longleftrightarrow>
      sr_secret_ref r = rf \<and> sr_secret_version r = v \<and> map_of (db_secrets w) (rf, v) = Some (row_of E r)"
    and "(rf, v) \<in> fst ` set (db_secrets w) \<Longrightarrow> \<exists>r. secret_at E w rf v = Some r"
    and "secret_at E w rf v = Some r \<Longrightarrow> fits v"
proof -
  have row: "\<exists>r. sr_secret_ref r = rf \<and> sr_secret_version r = v \<and> row = row_of E r \<and> fits v"
    if "map_of (db_secrets w) (rf, v) = Some row" for rf v row
    using assms(1) map_of_SomeD [OF that] by (auto simp: secrets_ok_def)
  show "secret_at E w rf v = Some r \<longleftrightarrow>
      sr_secret_ref r = rf \<and> sr_secret_version r = v \<and> map_of (db_secrets w) (rf, v) = Some (row_of E r)"
  proof (cases "map_of (db_secrets w) (rf, v)")
    case (Some a)
    then show ?thesis
      using row [OF Some] secret_row_reads [OF assms(2)] by (auto simp: secret_at_def)
  qed (simp add: secret_at_def)
  show "\<exists>r. secret_at E w rf v = Some r" if "(rf, v) \<in> fst ` set (db_secrets w)"
  proof -
    have "map_of (db_secrets w) (rf, v) \<noteq> None"
      using that by (simp add: map_of_eq_None_iff)
    then obtain a where a: "map_of (db_secrets w) (rf, v) = Some a"
      by blast
    then show ?thesis
      using row [OF a] secret_row_reads [OF assms(2)] by (auto simp: secret_at_def)
  qed
  show "fits v" if "secret_at E w rf v = Some r"
    using that row by (cases "map_of (db_secrets w) (rf, v)") (auto simp: secret_at_def)
qed

lemma load_latest_secret_Ok_iff:
  "load_latest_secret E rf w = (Ok r, w') \<longleftrightarrow>
     e_fault E (tick w) = None \<and> w' = w\<lparr>tick := Suc (tick w)\<rparr> \<and>
     (\<exists>v. max_version w rf = Some v \<and> secret_at E w rf v = Some r)"
  by (auto simp: load_latest_secret_def bind_r_Ok_iff bind_eq_Some_conv secret_at_def max_version_def
      versions_def)

lemma save_secret_record_Ok_iff:
  "save_secret_record E r w = (Ok (), w') \<longleftrightarrow>
     e_fault E (tick w) = None \<and> map_of (db_metadata w) header_key \<noteq> None \<and> fits (sr_secret_version r) \<and>
     w' = w\<lparr>tick := Suc (tick w), db_secrets :=
       tbl_put (sr_secret_ref r, sr_secret_version r) (row_of E r) (db_secrets w)\<rparr>"
  by (auto simp: save_secret_record_def split: if_splits)

section \<open>Properties\<close>

text \<open>
  C26: a ticket is replaced only if it is still the one that was read: the conditional save of an
  updated ticket takes effect exactly when the stored ticket equals the expected one in every field;
  otherwise it reports a conflict and the tables stay as they were.
\<close>

theorem ticket_compare_and_swap:
  fixes w :: "'z world_scheme"
  assumes "json_text_ok E" and "text_table E enc_ticket (ticket_domain E) tk_ticket_id (db_tickets w)"
    and "e_fault E (tick w) = None" and "tk_ticket_id updated = tk_ticket_id expected"
  shows "if load_text E dec_ticket (db_tickets w) (tk_ticket_id expected) = Ok (Some expected)
    then \<exists>w'. save_ticket_if_current E expected updated w = (Ok (), w') \<and>
      text_table E enc_ticket (ticket_domain E) tk_ticket_id (db_tickets w') \<and>
      (\<forall>k. load_text E dec_ticket (db_tickets w') k =
        (if k = tk_ticket_id expected then Ok (Some updated) else load_text E dec_ticket (db_tickets w) k))
    else save_ticket_if_current E expected updated w
      = (Err (TicketConflict (tk_ticket_id expected)), w\<lparr>tick := Suc (tick w)\<rparr>)"
proof -
  have dom: "ticket_domain E t" for t
    using assms(1) by (simp add: ticket_domain_def)
  have same: "load_text E dec_ticket (db_tickets w) (tk_ticket_id expected) = Ok (Some expected) \<longleftrightarrow>
      map_of (db_tickets w) (tk_ticket_id expected) = Some (e_json_print E (enc_ticket expected))"
    using ticket_table.load_ok(2) [OF assms(2)] dom by simp
  note put = ticket_table.put_ok [OF assms(2) dom, of updated]
    ticket_table.load_put [OF dom, of updated]
  show ?thesis
    unfolding same using assms(3,4) put by (simp add: save_ticket_if_current_def txn_run)
qed

lemma ticket_compare_and_swap_witness:
  "\<exists>w. load_text sample_env dec_ticket (db_tickets (w :: world)) (tk_ticket_id sample_ticket)
       = Ok (Some sample_ticket) \<and>
     (\<exists>w'. save_ticket_if_current sample_env sample_ticket (spent sample_env [1] sample_ticket) w = (Ok (), w'))"
proof -
  let ?tbl = "[(tk_ticket_id sample_ticket, e_json_print sample_env (enc_ticket sample_ticket))]"
  let ?w = "\<lparr>tick = 0, db_metadata = [], db_secrets = [], db_policies = [], db_tickets = ?tbl,
    db_audit = [], db_fingerprints = [], db_jobs = []\<rparr> :: world"
  have ok: "text_table sample_env enc_ticket (ticket_domain sample_env) tk_ticket_id (db_tickets ?w)"
    using sample_ok(4) by (auto simp: text_table_def ticket_domain_def simp del: sample_simps)
  have load: "load_text sample_env dec_ticket (db_tickets ?w) (tk_ticket_id sample_ticket) = Ok (Some sample_ticket)"
    using ticket_table.load_ok(2) [OF ok] sample_ok(4) by (simp add: ticket_domain_def del: sample_simps)
  have "tk_ticket_id (spent sample_env [1] sample_ticket) = tk_ticket_id sample_ticket"
    by (simp add: spent_def Let_def)
  from ticket_compare_and_swap [OF sample_ok(4) ok _ this] load
  have "\<exists>w'. save_ticket_if_current sample_env sample_ticket (spent sample_env [1] sample_ticket) ?w
      = (Ok (), w')"
    by fastforce
  with load show ?thesis
    by blast
qed

text \<open>
  A saved version of a secret is the latest one, and is read back as saved, if no later version
  exists; every other version of every secret stays as it was.
\<close>

theorem secret_save_load:
  fixes w :: "'z world_scheme"
  assumes "json_text_ok E" and "no_faults E" and "save_secret_record E r w = (Ok (), w')"
    and "\<forall>u. max_version w (sr_secret_ref r) = Some u \<longrightarrow> u \<le> sr_secret_version r"
  shows "load_latest_secret E (sr_secret_ref r) w' = (Ok r, w'\<lparr>tick := Suc (tick w')\<rparr>) \<and>
    load_secret_version E (sr_secret_ref r) (sr_secret_version r) w' = (Ok r, w'\<lparr>tick := Suc (tick w')\<rparr>) \<and>
    (\<forall>rf v. (rf, v) \<noteq> (sr_secret_ref r, sr_secret_version r) \<longrightarrow> secret_at E w' rf v = secret_at E w rf v)"
proof -
  let ?tbl = "tbl_put (sr_secret_ref r, sr_secret_version r) (row_of E r) (db_secrets w)"
  have w': "w' = w\<lparr>tick := Suc (tick w), db_secrets := ?tbl\<rparr>" and fits: "fits (sr_secret_version r)"
    using assms(3) by (simp_all add: save_secret_record_Ok_iff)
  have "max_version w' (sr_secret_ref r) = max_version (w\<lparr>db_secrets := ?tbl\<rparr>) (sr_secret_ref r)"
    by (simp add: w' max_version_def versions_def)
  then have latest: "max_version w' (sr_secret_ref r) = Some (sr_secret_version r)"
    using max_version_put [OF assms(4)] by simp
  have here: "secret_at E w' (sr_secret_ref r) (sr_secret_version r) = Some r"
    by (simp add: secret_at_def w' secret_row_reads [OF assms(1)])
  have "load_latest_secret E (sr_secret_ref r) w' = (Ok r, w'\<lparr>tick := Suc (tick w')\<rparr>)"
    using latest here assms(2) by (simp add: load_latest_secret_Ok_iff no_faults_def)
  moreover have "load_secret_version E (sr_secret_ref r) (sr_secret_version r) w'
      = (Ok r, w'\<lparr>tick := Suc (tick w')\<rparr>)"
    using fits assms(2) by (simp add: load_secret_version_def query_def w' secret_row_reads [OF assms(1)])
  moreover have "secret_at E w' rf v = secret_at E w rf v"
    if "(rf, v) \<noteq> (sr_secret_ref r, sr_secret_version r)" for rf v
    using that by (auto simp: secret_at_def w')
  ultimately show ?thesis
    by blast
qed

definition sample_world :: world where
  "sample_world = \<lparr>tick = 0, db_metadata = [(header_key, ''header'')], db_secrets = [], db_policies = [],
     db_tickets = [], db_audit = [], db_fingerprints = [], db_jobs = []\<rparr>"

definition sample_record :: secret_record where
  "sample_record =
     \<lparr>sr_schema_version = ''1'', sr_vault_id = ''v'', sr_namespace_id = ''ns'', sr_secret_id = ''s1'',
      sr_secret_ref = ''secret://app/db'', sr_secret_version = 1, sr_status = Active,
      sr_secret_type = ApiKey, sr_algorithm_id = ''AES-256-GCM'', sr_wrap_algorithm_id = ''AES-256-GCM'',
      sr_policy_id = ''p'', sr_policy_hash = ''ph'', sr_metadata_hash = ''mh'',
      sr_provider_policy_hash = ''pph'', sr_created_at = ''t'', sr_secret_nonce = ''n'',
      sr_ciphertext = ''c'', sr_dek_nonce = ''d'', sr_wrapped_dek = ''w'', sr_secret_aad_hash = ''a'',
      sr_dek_wrap_aad_hash = ''b''\<rparr>"

lemma secret_save_load_witness:
  "\<exists>w'. save_secret_record sample_env sample_record sample_world = (Ok (), w') \<and>
     load_latest_secret sample_env ''secret://app/db'' w' = (Ok sample_record, w'\<lparr>tick := Suc (tick w')\<rparr>)"
proof -
  obtain w' where run: "save_secret_record sample_env sample_record sample_world = (Ok (), w')"
    by (simp add: save_secret_record_Ok_iff sample_record_def sample_world_def fits_def)
  have "\<forall>u. max_version sample_world (sr_secret_ref sample_record) = Some u \<longrightarrow> u \<le> sr_secret_version sample_record"
    by (simp add: max_version_def versions_def sample_world_def)
  from secret_save_load [OF sample_ok(4,7) run this] run show ?thesis
    by (auto simp: sample_record_def)
qed

end
