(* ===== verification/Utf8.thy ===== *)
theory Utf8
  imports Rust_Str
begin

text \<open>
  UTF-8 on byte strings: \<open>str::from_utf8\<close> and \<open>String::from_utf8_lossy\<close> of the standard library.
\<close>

definition in_range :: "nat \<Rightarrow> nat \<Rightarrow> u8 \<Rightarrow> bool" where
  "in_range lo hi b \<longleftrightarrow> lo \<le> unat b \<and> unat b \<le> hi"

definition cont :: "u8 \<Rightarrow> bool" where
  "cont b = in_range 0x80 0xBF b"

text \<open>The range of the second byte, from the first.\<close>

definition second_ok :: "u8 \<Rightarrow> u8 \<Rightarrow> bool" where
  "second_ok b0 b1 =
     (if b0 = 0xE0 then in_range 0xA0 0xBF b1
      else if b0 = 0xED then in_range 0x80 0x9F b1
      else if b0 = 0xF0 then in_range 0x90 0xBF b1
      else if b0 = 0xF4 then in_range 0x80 0x8F b1
      else cont b1)"

text \<open>
  How many bytes the sequence at the front takes, and whether it is a character; a broken sequence
  is as long as its valid beginning, one byte at least.
\<close>

definition nth_ok :: "(u8 \<Rightarrow> bool) \<Rightarrow> bytes \<Rightarrow> nat \<Rightarrow> bool" where
  "nth_ok f bs i \<longleftrightarrow> i < length bs \<and> f (bs ! i)"

definition utf8_front :: "bytes \<Rightarrow> bool \<times> nat" where
  "utf8_front bs =
     (let b0 = hd bs in
      if in_range 0 0x7F b0 then (True, 1)
      else if in_range 0xC2 0xDF b0 then (nth_ok cont bs 1, if nth_ok cont bs 1 then 2 else 1)
      else if in_range 0xE0 0xEF b0 then
        (if \<not> nth_ok (second_ok b0) bs 1 then (False, 1)
         else if \<not> nth_ok cont bs 2 then (False, 2) else (True, 3))
      else if in_range 0xF0 0xF4 b0 then
        (if \<not> nth_ok (second_ok b0) bs 1 then (False, 1)
         else if \<not> nth_ok cont bs 2 then (False, 2)
         else if \<not> nth_ok cont bs 3 then (False, 3) else (True, 4))
      else (False, 1))"

lemma utf8_front_pos: "0 < snd (utf8_front bs)"
  by (simp add: utf8_front_def Let_def)

function utf8_valid :: "bytes \<Rightarrow> bool" where
  "utf8_valid bs =
     (if bs = [] then True
      else fst (utf8_front bs) \<and> utf8_valid (drop (snd (utf8_front bs)) bs))"
  by pat_completeness auto
termination
  using utf8_front_pos by (relation "measure length") (auto simp: neq_Nil_conv intro: diff_less)

function utf8_lossy :: "bytes \<Rightarrow> string" where
  "utf8_lossy bs =
     (if bs = [] then []
      else (if fst (utf8_front bs) then from_bytes (take (snd (utf8_front bs)) bs)
          else map char_of [0xEF, 0xBF, 0xBD :: nat])
        @ utf8_lossy (drop (snd (utf8_front bs)) bs))"
  by pat_completeness auto
termination
  using utf8_front_pos by (relation "measure length") (auto simp: neq_Nil_conv intro: diff_less)

declare utf8_valid.simps [simp del] utf8_lossy.simps [simp del]

lemma from_bytes_append: "from_bytes (a @ b) = from_bytes a @ from_bytes b"
  by (simp add: from_bytes_def)

lemma utf8_valid_step:
  "bs \<noteq> [] \<Longrightarrow> utf8_valid bs \<longleftrightarrow>
     fst (utf8_front bs) \<and> utf8_valid (drop (snd (utf8_front bs)) bs)"
  using utf8_valid.simps [of bs] by simp

lemma utf8_lossy_step:
  "bs \<noteq> [] \<Longrightarrow> fst (utf8_front bs) \<Longrightarrow> utf8_lossy bs =
     from_bytes (take (snd (utf8_front bs)) bs) @ utf8_lossy (drop (snd (utf8_front bs)) bs)"
  using utf8_lossy.simps [of bs] by simp

lemma utf8_lossy_valid: "utf8_valid bs \<Longrightarrow> utf8_lossy bs = from_bytes bs"
proof (induction bs rule: utf8_lossy.induct)
  case (1 bs)
  show ?case
  proof (cases "bs = []")
    case True
    then show ?thesis
      using utf8_lossy.simps [of bs] by (simp add: from_bytes_def)
  next
    case False
    with 1 show ?thesis
      by (simp add: utf8_valid_step utf8_lossy_step flip: from_bytes_append)
  qed
qed

lemma utf8_valid_ascii: "\<forall>b \<in> set bs. unat b < 128 \<Longrightarrow> utf8_valid bs"
proof (induction bs)
  case Nil
  then show ?case
    by (simp add: utf8_valid.simps)
next
  case (Cons b bs)
  then show ?case
    by (simp add: utf8_valid_step [of "b # bs"] utf8_front_def in_range_def Let_def)
qed

end
