(* ===== verification/Disk.thy ===== *)
theory Disk
  imports Store Utf8
begin

text \<open>
  The file system as \<open>std::fs\<close> shows it, and \<open>std::path\<close>: what the backup and release code does to
  files, their permissions and their directories. \<open>e_write_ok\<close> is the machine's word on whether an
  operation on a path goes through (permissions, space, hardware).
\<close>

section \<open>Paths\<close>

text \<open>Separators and \<open>.\<close> components at the end of a path do not count.\<close>

function path_trim :: "string \<Rightarrow> string" where
  "path_trim p =
     (if 1 < length p \<and> (ends_with p ''/'' \<or> ends_with p ''/.'') then path_trim (butlast p) else p)"
  by pat_completeness auto
termination
  by (relation "measure length") auto

declare path_trim.simps [simp del]

definition path_parent :: "string \<Rightarrow> string option" where
  "path_parent p =
     (let q = path_trim p in
      if q = [] \<or> q = ''/'' then None
      else case rsplit_once (CHR ''/'') q of
          None \<Rightarrow> Some []
        | Some (d, _) \<Rightarrow> Some (if d = [] then ''/'' else path_trim d))"

definition path_file_name :: "string \<Rightarrow> string option" where
  "path_file_name p =
     (let q = path_trim p;
          f = (case rsplit_once (CHR ''/'') q of None \<Rightarrow> q | Some (_, f) \<Rightarrow> f)
      in if f \<in> {[], ''.'', ''..''} then None else Some f)"

text \<open>The stem and the extension of a file name: a dot at the front starts no extension.\<close>

definition name_split :: "string \<Rightarrow> string \<times> string option" where
  "name_split f =
     (case rsplit_once (CHR ''.'') f of
        None \<Rightarrow> (f, None)
      | Some (s, e) \<Rightarrow> if s = [] then (f, None) else (s, Some e))"

definition path_extension :: "string \<Rightarrow> string option" where
  "path_extension p = Option.bind (path_file_name p) (snd \<circ> name_split)"

definition with_extension :: "string \<Rightarrow> string \<Rightarrow> string" where
  "with_extension p ext =
     (case path_file_name p of
        None \<Rightarrow> p
      | Some f \<Rightarrow>
          let q = path_trim p
          in take (length q - length f) q @ fst (name_split f) @ (if ext = [] then [] else CHR ''.'' # ext))"

text \<open>\<open>join\<close>: an absolute path replaces the base.\<close>

definition path_join :: "string \<Rightarrow> string \<Rightarrow> string" where
  "path_join base p =
     (if starts_with p ''/'' then p
      else if base = [] \<or> ends_with base ''/'' then base @ p
      else base @ ''/'' @ p)"

lemma rsplit_once_Some: "rsplit_once c s = Some (a, b) \<Longrightarrow> s = a @ c # b \<and> c \<notin> set b"
proof -
  assume *: "rsplit_once c s = Some (a, b)"
  then have "dropWhile (\<lambda>x. x \<noteq> c) (rev s) \<noteq> []"
    by (auto simp: rsplit_once_def dropWhile_eq_Nil_conv split: if_splits)
  then obtain t where t: "dropWhile (\<lambda>x. x \<noteq> c) (rev s) = c # t"
    using hd_dropWhile [of "\<lambda>x. x \<noteq> c" "rev s"] by (cases "dropWhile (\<lambda>x. x \<noteq> c) (rev s)") auto
  have "rev s = takeWhile (\<lambda>x. x \<noteq> c) (rev s) @ c # t"
    using takeWhile_dropWhile_id [of "\<lambda>x. x \<noteq> c" "rev s"] t by simp
  then have "s = rev t @ c # rev (takeWhile (\<lambda>x. x \<noteq> c) (rev s))"
    by (metis append_Cons append_Nil append_assoc rev.simps(2) rev_append rev_rev_ident)
  then show "s = a @ c # b \<and> c \<notin> set b"
    using * t by (auto simp: rsplit_once_def split: if_splits dest: set_takeWhileD)
qed

lemma path_trim_length: "length (path_trim p) \<le> length p"
proof (induction p rule: path_trim.induct)
  case (1 p)
  then show ?case
    by (subst path_trim.simps) (auto intro: le_trans)
qed

lemma path_trim_same: "last p \<notin> {CHR ''/'', CHR ''.''} \<Longrightarrow> path_trim p = p"
  by (subst path_trim.simps) (auto simp: ends_with_def suffix_def)

lemma path_parent_shorter: "path_parent p = Some d \<Longrightarrow> length d < length p"
proof -
  assume *: "path_parent p = Some d"
  let ?q = "path_trim p"
  have q: "?q \<noteq> []" "?q \<noteq> ''/''"
    using * by (auto simp: path_parent_def split: if_splits)
  have "length d < length ?q"
  proof (cases "rsplit_once (CHR ''/'') ?q")
    case None
    then show ?thesis
      using * q by (simp add: path_parent_def)
  next
    case (Some ab)
    obtain a b where ab: "ab = (a, b)" by fastforce
    have "?q = a @ CHR ''/'' # b"
      using rsplit_once_Some Some ab by blast
    then show ?thesis
      using * q Some ab path_trim_length [of a] by (cases a; cases b) (auto simp: path_parent_def)
  qed
  then show ?thesis
    using path_trim_length [of p] by simp
qed

lemma name_split_length:
  "name_split f = (s, e) \<Longrightarrow> length f = length s + (case e of None \<Rightarrow> 0 | Some x \<Rightarrow> Suc (length x))"
  by (auto simp: name_split_def split: option.splits if_splits prod.splits dest!: rsplit_once_Some)

section \<open>Lines\<close>

text \<open>\<open>lines\<close>: a line feed ends a line, with a carriage return before it; the last line needs none.\<close>

definition str_lines :: "string \<Rightarrow> string list" where
  "str_lines s =
     (let ps = split_char (CHR 10) s;
          bare = (\<lambda>l. case strip_suffix l [CHR 13] of None \<Rightarrow> l | Some l' \<Rightarrow> l')
      in map bare (butlast ps) @ (if last ps = [] then [] else [last ps]))"

section \<open>Files and directories\<close>

datatype io_error = IoError

text \<open>A file is its content and its permission bits; a directory is its permission bits.\<close>

record disk = world +
  d_files :: "string \<Rightarrow> (bytes \<times> nat) option"
  d_dirs :: "string \<Rightarrow> nat option"
  d_umask :: nat

definition fs_permits :: "env \<Rightarrow> string \<Rightarrow> ('z disk_scheme, unit, io_error) act" where
  "fs_permits E p = (\<lambda>w.
     (if e_write_ok E (tick w) p then Ok () else Err IoError, w\<lparr>tick := Suc (tick w)\<rparr>))"

definition on_disk :: "string \<Rightarrow> ('z disk_scheme, bool, 'e) act" where
  "on_disk p = (\<lambda>w. (Ok (d_files w p \<noteq> None \<or> d_dirs w p \<noteq> None), w))"

definition read_bytes :: "env \<Rightarrow> string \<Rightarrow> ('z disk_scheme, bytes, io_error) act" where
  "read_bytes E p = seq (fs_permits E p) (\<lambda>w. (ok_or (map_option fst (d_files w p)) IoError, w))"

definition umasked :: "'z disk_scheme \<Rightarrow> nat \<Rightarrow> nat" where
  "umasked w m = unat (and (word_of_nat m :: 32 word) (not (word_of_nat (d_umask w))))"

text \<open>\<open>create_dir_all\<close> makes the missing directories on the way to a path; the empty path is no error.\<close>

definition create_dir_all :: "env \<Rightarrow> string \<Rightarrow> ('z disk_scheme, unit, io_error) act" where
  "create_dir_all E p =
     (if p = [] then ret ()
      else seq (fs_permits E p) (\<lambda>w.
        if d_files w p \<noteq> None then (Err IoError, w)
        else (Ok (), w\<lparr>d_dirs := (\<lambda>q. if d_dirs w q = None \<and> (q = p \<or> prefix (q @ ''/'') p)
          then Some (umasked w 511) else d_dirs w q)\<rparr>)))"

text \<open>\<open>set_permissions\<close> needs something at the path; there is nothing at the empty path.\<close>

definition set_permissions :: "env \<Rightarrow> string \<Rightarrow> nat \<Rightarrow> ('z disk_scheme, unit, io_error) act" where
  "set_permissions E p mode =
     (if p = [] then fail IoError
      else seq (fs_permits E p) (\<lambda>w.
        case d_files w p of
          Some (c, _) \<Rightarrow> (Ok (), w\<lparr>d_files := (d_files w)(p \<mapsto> (c, mode))\<rparr>)
        | None \<Rightarrow> (case d_dirs w p of
            Some _ \<Rightarrow> (Ok (), w\<lparr>d_dirs := (d_dirs w)(p \<mapsto> mode)\<rparr>)
          | None \<Rightarrow> (Err IoError, w))))"

text \<open>Opening for writing empties the file; a new one gets the mode asked for, an old one keeps its own.\<close>

definition open_truncated :: "env \<Rightarrow> string \<Rightarrow> nat \<Rightarrow> ('z disk_scheme, unit, io_error) act" where
  "open_truncated E p mode =
     (if p = [] then fail IoError
      else seq (fs_permits E p) (\<lambda>w.
        if d_dirs w p \<noteq> None then (Err IoError, w)
        else (Ok (), w\<lparr>d_files := (d_files w)(p \<mapsto>
          ([], case d_files w p of None \<Rightarrow> umasked w mode | Some (_, m) \<Rightarrow> m))\<rparr>)))"

text \<open>
  Writing to an open file. What a write that fails leaves in the file is the machine's matter; nothing
  here depends on it.
\<close>

definition write_content :: "env \<Rightarrow> string \<Rightarrow> bytes \<Rightarrow> ('z disk_scheme, unit, io_error) act" where
  "write_content E p c = seq (fs_permits E p) (\<lambda>w.
     (Ok (), w\<lparr>d_files := (d_files w)(p := map_option (\<lambda>(_, m). (c, m)) (d_files w p))\<rparr>))"

definition write_bytes :: "env \<Rightarrow> string \<Rightarrow> bytes \<Rightarrow> ('z disk_scheme, unit, io_error) act" where
  "write_bytes E p c = seq (open_truncated E p 438) (write_content E p c)"

definition rename :: "env \<Rightarrow> string \<Rightarrow> string \<Rightarrow> ('z disk_scheme, unit, io_error) act" where
  "rename E p q = seq (fs_permits E q) (\<lambda>w.
     case d_files w p of
       None \<Rightarrow> (Err IoError, w)
     | Some f \<Rightarrow>
         if d_dirs w q \<noteq> None then (Err IoError, w)
         else (Ok (), w\<lparr>d_files := (d_files w)(p := None, q \<mapsto> f)\<rparr>))"

text \<open>
  \<open>copy\<close> opens the source, empties the destination and gives it the source's permissions before it reads
  the source: copying a file onto itself loses it.
\<close>

definition copy_file :: "env \<Rightarrow> string \<Rightarrow> string \<Rightarrow> ('z disk_scheme, unit, io_error) act" where
  "copy_file E p q = seq (fs_permits E p) (\<lambda>w.
     case d_files w p of
       None \<Rightarrow> (Err IoError, w)
     | Some (_, mode) \<Rightarrow>
         seq (open_truncated E q mode)
        (seq (set_permissions E q mode)
        (bnd (read_bytes E p) (write_content E q))) w)"

definition read_to_string :: "env \<Rightarrow> string \<Rightarrow> ('z disk_scheme, string, io_error) act" where
  "read_to_string E p = bnd (read_bytes E p) (\<lambda>c.
     if utf8_valid c then ret (from_bytes c) else fail IoError)"

definition file_at :: "string \<Rightarrow> ('z disk_scheme, bool, 'e) act" where
  "file_at p = (\<lambda>w. (Ok (d_files w p \<noteq> None), w))"

text \<open>An operation for each element of a list, until one fails.\<close>

primrec for_each :: "('a \<Rightarrow> ('w, 'b, 'e) act) \<Rightarrow> 'a list \<Rightarrow> ('w, 'b list, 'e) act" where
  "for_each f [] = ret []"
| "for_each f (x # xs) = bnd (f x) (\<lambda>y. bnd (for_each f xs) (\<lambda>ys. ret (y # ys)))"

section \<open>What each step does to a file\<close>

lemma fs_permits_Ok_iff [simp]:
  "fs_permits E p w = (Ok u, w') \<longleftrightarrow> e_write_ok E (tick w) p \<and> w' = w\<lparr>tick := Suc (tick w)\<rparr>"
  by (auto simp: fs_permits_def)

lemma read_bytes_Ok_iff:
  "read_bytes E p w = (Ok c, w') \<longleftrightarrow>
     e_write_ok E (tick w) p \<and> w' = w\<lparr>tick := Suc (tick w)\<rparr> \<and> (\<exists>m. d_files w p = Some (c, m))"
  by (auto simp: read_bytes_def seq_Ok_iff)

lemma keeps_fs_permits: "(\<And>w n. I w \<Longrightarrow> I (w\<lparr>tick := n\<rparr>)) \<Longrightarrow> keeps I (fs_permits E p)"
  by (simp add: keeps_def fs_permits_def)

text \<open>What a file says stays, whatever happens to permissions and to other files.\<close>

definition says :: "string \<Rightarrow> bytes \<Rightarrow> 'z disk_scheme \<Rightarrow> bool" where
  "says p c w \<longleftrightarrow> (\<exists>m. d_files w p = Some (c, m))"

named_theorems says_intro

lemma says_permits [says_intro]: "keeps (says p c) (fs_permits E q)"
  by (rule keeps_fs_permits) (simp add: says_def)

lemma says_look [says_intro]: "keeps (says p c) (read_bytes E q)" "keeps (says p c) (on_disk q)" "keeps (says p c) (file_at q)"
proof -
  show "keeps (says p c) (read_bytes E q)"
    unfolding read_bytes_def by (intro keeps_seq says_permits) (simp add: keeps_def)
qed (simp_all add: keeps_def on_disk_def file_at_def)

lemma says_read_to_string [says_intro]: "keeps (says p c) (read_to_string E q)"
  unfolding read_to_string_def by (intro keeps_intro says_intro)

lemma says_dir [says_intro]: "keeps (says p c) (create_dir_all E q)"
  unfolding create_dir_all_def by (intro keeps_intro says_intro) (simp add: keeps_def says_def)

lemma says_set_permissions [says_intro]: "keeps (says p c) (set_permissions E q mode)"
  unfolding set_permissions_def by (intro keeps_intro says_intro) (auto simp: keeps_def says_def split: option.split)

lemma says_open [says_intro]: "p \<noteq> q \<Longrightarrow> keeps (says p c) (open_truncated E q mode)"
  unfolding open_truncated_def by (intro keeps_intro says_intro) (auto simp: keeps_def says_def)

lemma says_write_content [says_intro]: "p \<noteq> q \<Longrightarrow> keeps (says p c) (write_content E q c')"
  unfolding write_content_def by (intro keeps_intro says_intro) (auto simp: keeps_def says_def)

lemma says_write_bytes [says_intro]: "p \<noteq> q \<Longrightarrow> keeps (says p c) (write_bytes E q c')"
  unfolding write_bytes_def by (intro keeps_intro says_intro)

lemma says_copy [says_intro]:
  assumes "p \<noteq> q"
  shows "keeps (says p c) (copy_file E a q)"
proof -
  have "keeps (says p c) (seq (open_truncated E q mode) (seq (set_permissions E q mode) (bnd (read_bytes E a) (write_content E q))))"
    for mode
    using assms by (intro keeps_intro says_intro)
  then show ?thesis
    unfolding copy_file_def
    by (intro keeps_seq says_intro) (auto simp: keeps_def split: option.split)
qed

lemma keeps_for_each [keeps_intro]: "(\<And>x. keeps I (f x)) \<Longrightarrow> keeps I (for_each f xs)"
  by (induction xs) (simp_all add: keeps_intro)

text \<open>What was written is there.\<close>

lemma write_bytes_says: "write_bytes E p c w = (Ok u, w') \<Longrightarrow> says p c w'"
  by (auto simp: write_bytes_def open_truncated_def write_content_def seq_Ok_iff says_def split: if_splits)

section \<open>What the machine does\<close>

text \<open>A machine that lets every operation through; pretty-printed JSON that reads back.\<close>

definition all_allowed :: "env \<Rightarrow> bool" where
  "all_allowed E \<longleftrightarrow> (\<forall>n p. e_write_ok E n p)"

definition pretty_ok :: "env \<Rightarrow> bool" where
  "pretty_ok E \<longleftrightarrow> (\<forall>v. json_wf v \<longrightarrow> e_json_parse E (x_json_pretty (e_host E) v) = Some v)"

lemma allowed_run: "all_allowed E \<Longrightarrow> fs_permits E p w = (Ok (), w\<lparr>tick := Suc (tick w)\<rparr>)"
  by (simp add: all_allowed_def fs_permits_def)

lemma create_dir_all_run:
  assumes "all_allowed E" and "p \<noteq> []" and "d_files w p = None"
  shows "\<exists>v. create_dir_all E p w = (Ok (), v) \<and> d_files v = d_files w \<and> d_dirs v p \<noteq> None \<and>
    (\<forall>q. d_dirs w q = None \<and> q \<noteq> p \<and> \<not> prefix (q @ ''/'') p \<longrightarrow> d_dirs v q = None)"
proof -
  let ?v = "w\<lparr>tick := Suc (tick w)\<rparr>"
  let ?dirs = "\<lambda>q. if d_dirs ?v q = None \<and> (q = p \<or> prefix (q @ ''/'') p) then Some (umasked ?v 511) else d_dirs ?v q"
  have "create_dir_all E p w = (Ok (), ?v\<lparr>d_dirs := ?dirs\<rparr>)"
    using assms by (simp add: create_dir_all_def seq_step [OF allowed_run])
  then show ?thesis
    by (intro exI [of _ "?v\<lparr>d_dirs := ?dirs\<rparr>"]) simp
qed

lemma write_bytes_run:
  assumes "all_allowed E" and "p \<noteq> []" and "d_dirs w p = None"
  shows "\<exists>v k. write_bytes E p c w = (Ok (), v) \<and> d_files v p = Some (c, k) \<and> d_dirs v = d_dirs w \<and>
    (\<forall>q. q \<noteq> p \<longrightarrow> d_files v q = d_files w q)"
  using assms
  by (auto simp: write_bytes_def open_truncated_def write_content_def seq_step [OF allowed_run]
      intro!: exI simp: seq_Ok_iff fs_permits_def all_allowed_def)

end
