(* ===== verification/Backup.thy ===== *)
theory Backup
  imports Disk
begin

text \<open>
  Component \<open>backup.rs\<close>: a backup is a zip archive of the database file with a manifest that holds its
  hash; a restore checks the archive and puts the file in place in one step.
\<close>

section \<open>Data\<close>

datatype backup_error =
    BkStore store_error | VaultDatabaseMissing | UnexpectedContents | DatabaseHashMismatch
  | BkIo | BkZip | BkJson | BkSqlite

record backup_manifest =
  bm_format_version :: u64
  bm_created_at :: string
  bm_vault_id :: string
  bm_database_sha256 :: string
  bm_contains_plaintext_secrets :: bool
  bm_contains_plaintext_root_key :: bool

definition enc_backup_manifest :: "backup_manifest \<Rightarrow> json" where
  "enc_backup_manifest m = JObj
     [(''format_version'', enc_u64 (bm_format_version m)),
      (''created_at'', JStr (bm_created_at m)),
      (''vault_id'', JStr (bm_vault_id m)),
      (''database_sha256'', JStr (bm_database_sha256 m)),
      (''contains_plaintext_secrets'', JBool (bm_contains_plaintext_secrets m)),
      (''contains_plaintext_root_key'', JBool (bm_contains_plaintext_root_key m))]"

definition dec_backup_manifest :: "json \<Rightarrow> backup_manifest option" where
  "dec_backup_manifest v = do {
     m \<leftarrow> dec_obj v;
     version \<leftarrow> fld dec_u64 ''format_version'' m;
     created_at \<leftarrow> fld dec_str ''created_at'' m;
     vault_id \<leftarrow> fld dec_str ''vault_id'' m;
     sha \<leftarrow> fld dec_str ''database_sha256'' m;
     secrets \<leftarrow> fld_def dec_bool False ''contains_plaintext_secrets'' m;
     root_key \<leftarrow> fld_def dec_bool False ''contains_plaintext_root_key'' m;
     Some \<lparr>bm_format_version = version, bm_created_at = created_at, bm_vault_id = vault_id,
       bm_database_sha256 = sha, bm_contains_plaintext_secrets = secrets,
       bm_contains_plaintext_root_key = root_key\<rparr>
   }"

interpretation backup_manifest_codec: json_codec enc_backup_manifest dec_backup_manifest "\<lambda>_. True"
  by unfold_locales (simp add: dec_backup_manifest_def enc_backup_manifest_def)

lemma enc_backup_manifest_wf [simp]: "json_wf (enc_backup_manifest m)"
  by (simp add: enc_backup_manifest_def)

section \<open>Operations\<close>

text \<open>
  The connection that runs the checkpoint is the \<open>sqlite\<close> library's: it takes what the write-ahead log
  beside the database holds into the database file. Its answer, whether it could, is not looked at.
\<close>

definition checkpoint_database :: "env \<Rightarrow> string \<Rightarrow> ('z disk_scheme, unit, backup_error) act" where
  "checkpoint_database E path = (\<lambda>w.
     case Option.bind (d_files w path) (\<lambda>(db, m).
       map_option (\<lambda>db'. (db', m)) (x_checkpoint (e_host E) db (map_option fst (d_files w (path @ ''-wal''))))) of
       None \<Rightarrow> (Err BkSqlite, w)
     | Some f \<Rightarrow> (Ok (), w\<lparr>d_files := (d_files w)(path \<mapsto> f)\<rparr>))"

definition bk_io :: "('z disk_scheme, 'a, io_error) act \<Rightarrow> ('z disk_scheme, 'a, backup_error) act" where
  "bk_io m = on_err (\<lambda>_. BkIo) m"

definition create_private_file :: "env \<Rightarrow> string \<Rightarrow> ('z disk_scheme, unit, backup_error) act" where
  "create_private_file E path = bk_io (open_truncated E path 384)"

definition harden_dir_permissions :: "env \<Rightarrow> string \<Rightarrow> ('z disk_scheme, unit, backup_error) act" where
  "harden_dir_permissions E path = bk_io (set_permissions E path 448)"

definition harden_file_permissions :: "env \<Rightarrow> string \<Rightarrow> ('z disk_scheme, unit, backup_error) act" where
  "harden_file_permissions E path = bk_io (set_permissions E path 384)"

text \<open>The directory of a file that is about to be written, made and made private.\<close>

definition private_parent :: "env \<Rightarrow> string \<Rightarrow> ('z disk_scheme, unit, backup_error) act" where
  "private_parent E path =
     (case path_parent path of
        None \<Rightarrow> ret ()
      | Some parent \<Rightarrow> seq (bk_io (create_dir_all E parent)) (harden_dir_permissions E parent))"

definition create_backup :: "env \<Rightarrow> string \<Rightarrow> string \<Rightarrow> ('z disk_scheme, backup_manifest, backup_error) act" where
  "create_backup E path destination =
     bnd (on_err BkStore (load_header E)) (\<lambda>header.
     bnd (on_disk path) (\<lambda>there.
     if \<not> there then fail VaultDatabaseMissing
     else
     seq (checkpoint_database E path)
    (bnd (bk_io (read_bytes E path)) (\<lambda>content.
     bnd (now E) (\<lambda>time.
     let manifest = \<lparr>bm_format_version = 1, bm_created_at = e_time_ms E time, bm_vault_id = vh_vault_id header,
       bm_database_sha256 = e_b64url E (e_sha256 E content), bm_contains_plaintext_secrets = False,
       bm_contains_plaintext_root_key = False\<rparr> in
     seq (private_parent E destination)
    (seq (create_private_file E destination)
    (seq (bk_io (write_content E destination (x_zip (e_host E)
       [(''manifest.json'', as_bytes (x_json_pretty (e_host E) (enc_backup_manifest manifest))),
        (''vault.db'', content)])))
     (ret manifest))))))))"

text \<open>The two entries of an archive, its manifest, and its database under the manifest's hash.\<close>

definition open_archive :: "env \<Rightarrow> bytes \<Rightarrow> (backup_manifest \<times> bytes, backup_error) result" where
  "open_archive E archive =
     bind_r (ok_or (x_unzip (e_host E) archive) BkZip) (\<lambda>entries.
     if set (map fst entries) \<noteq> {''manifest.json'', ''vault.db''} then Err UnexpectedContents
     else
     bind_r (ok_or (Option.bind (map_of entries ''manifest.json'') id) BkIo) (\<lambda>raw.
     if \<not> utf8_valid raw then Err BkIo
     else
     bind_r (ok_or (parse_as E dec_backup_manifest (from_bytes raw)) BkJson) (\<lambda>manifest.
     bind_r (ok_or (Option.bind (map_of entries ''vault.db'') id) BkIo) (\<lambda>db_data.
     if e_b64url E (e_sha256 E db_data) \<noteq> bm_database_sha256 manifest then Err DatabaseHashMismatch
     else Ok (manifest, db_data)))))"

definition staging_path :: "string \<Rightarrow> string" where
  "staging_path destination_db =
     with_extension destination_db
       ((case path_extension destination_db of None \<Rightarrow> [] | Some e \<Rightarrow> e) @ ''tmp'')"

definition restore_backup :: "env \<Rightarrow> string \<Rightarrow> string \<Rightarrow> ('z disk_scheme, backup_manifest, backup_error) act" where
  "restore_backup E source destination_db =
     bnd (bk_io (read_bytes E source)) (\<lambda>archive.
     bnd (lift_r (open_archive E archive)) (\<lambda>(manifest, db_data).
     seq (private_parent E destination_db)
    (let tmp = staging_path destination_db in
     seq (bk_io (write_bytes E tmp db_data))
    (seq (harden_file_permissions E tmp)
    (seq (bk_io (rename E tmp destination_db))
    (seq (harden_file_permissions E destination_db)
     (ret manifest)))))))"

section \<open>What each step does to a file\<close>

lemma bk_io_Ok_iff [simp]: "bk_io m w = (Ok x, w') \<longleftrightarrow> m w = (Ok x, w')"
  by (simp add: bk_io_def)

text \<open>What is kept at one path.\<close>

definition holds_file :: "string \<Rightarrow> (bytes \<times> nat) option \<Rightarrow> 'z disk_scheme \<Rightarrow> bool" where
  "holds_file p f w \<longleftrightarrow> d_files w p = f"

lemma keeps_file_ops:
  shows "keeps (holds_file p f) (read_bytes E q)" and "keeps (holds_file p f) (create_dir_all E q)"
    and "p \<noteq> q \<Longrightarrow> keeps (holds_file p f) (set_permissions E q mode)"
    and "p \<noteq> q \<Longrightarrow> keeps (holds_file p f) (open_truncated E q mode)"
    and "p \<noteq> q \<Longrightarrow> keeps (holds_file p f) (write_content E q c)"
    and "p \<noteq> q \<Longrightarrow> keeps (holds_file p f) (write_bytes E q c)"
proof -
  have al: "keeps (holds_file p f) (fs_permits E q)" for q
    by (rule keeps_fs_permits) (simp add: holds_file_def)
  show "keeps (holds_file p f) (read_bytes E q)"
    unfolding read_bytes_def by (intro keeps_seq al) (simp add: keeps_def)
  show "keeps (holds_file p f) (create_dir_all E q)"
    unfolding create_dir_all_def by (intro keeps_if keeps_ret keeps_seq al) (simp add: keeps_def holds_file_def)
  show "keeps (holds_file p f) (set_permissions E q mode)" if "p \<noteq> q"
    unfolding set_permissions_def using that
    by (intro keeps_if keeps_fail keeps_seq al) (auto simp: keeps_def holds_file_def split: option.split)
  show op: "keeps (holds_file p f) (open_truncated E q mode)" if "p \<noteq> q" for mode
    unfolding open_truncated_def using that
    by (intro keeps_if keeps_fail keeps_seq al) (auto simp: keeps_def holds_file_def)
  show wr: "keeps (holds_file p f) (write_content E q c)" if "p \<noteq> q"
    unfolding write_content_def using that by (intro keeps_seq al) (auto simp: keeps_def holds_file_def)
  show "keeps (holds_file p f) (write_bytes E q c)" if "p \<noteq> q"
    unfolding write_bytes_def using that by (intro keeps_seq op wr)
qed

lemma staging_differs: "path_file_name p \<noteq> None \<Longrightarrow> staging_path p \<noteq> p"
proof
  assume "path_file_name p \<noteq> None" and same: "staging_path p = p"
  then obtain f where f: "path_file_name p = Some f"
    by blast
  obtain s e where se: "name_split f = (s, e)"
    by fastforce
  let ?q = "path_trim p"
  let ?ext = "(case e of None \<Rightarrow> [] | Some x \<Rightarrow> x) @ ''tmp''"
  have staged: "staging_path p = take (length ?q - length f) ?q @ s @ CHR ''.'' # ?ext"
    using f se by (simp add: staging_path_def with_extension_def path_extension_def Let_def)
  then have "last (staging_path p) = CHR ''p''"
    by simp
  then have q: "?q = p"
    using path_trim_same [of p] same by simp
  have "length f \<le> length ?q"
    using f rsplit_once_Some [of "CHR ''/''" ?q]
    by (fastforce simp: path_file_name_def Let_def split: option.splits if_splits)
  then have "length (staging_path p) = length ?q - length f + length s + Suc (length ?ext)"
    unfolding staged by simp
  then have "length p < length (staging_path p)"
    using name_split_length [OF se] \<open>length f \<le> length ?q\<close> q by (cases e) simp_all
  then show False
    using same by simp
qed

section \<open>Restoring\<close>

lemma private_parent_keeps: "keeps (holds_file p f) (private_parent E p)"
proof (cases "path_parent p")
  case (Some d)
  then have "d \<noteq> p"
    using path_parent_shorter by blast
  then show ?thesis
    unfolding private_parent_def harden_dir_permissions_def bk_io_def Some option.case
    by (intro keeps_seq keeps_on_err keeps_file_ops) simp
qed (simp add: private_parent_def keeps_ret)

lemma bnd_stopped: "bnd (lift_r (Err e)) f w = (Err e, w)" "bnd (lift_r Panic) f w = (Panic, w)"
  by (simp_all add: bnd_def lift_r_def)

lemma bnd_bnd_stopped:
  assumes "m w = (Ok x, w1)" and "g x = Panic \<or> (\<exists>e. g x = Err e)"
  shows "\<exists>r. bnd m (\<lambda>x. bnd (lift_r (g x)) (f x)) w = (r, w1) \<and> (\<forall>y. r \<noteq> Ok y)"
  using assms(2) unfolding bnd_step [where m = m and w = w, OF assms(1)] by (auto simp: bnd_stopped)

lemma triple_seq:
  "triple P m (\<lambda>_. Q) R \<Longrightarrow> triple Q n S R \<Longrightarrow> triple P (seq m n) S R"
  unfolding seq_def by (rule triple_bnd)

lemma triple_weaken: "triple P m Q R \<Longrightarrow> (\<And>v. R v \<Longrightarrow> R' v) \<Longrightarrow> triple P m Q R'"
  by (fastforce simp: triple_def split: prod.splits result.splits)

lemma triple_case:
  "triple P m Q R \<Longrightarrow> P w \<Longrightarrow> m w = (r, w') \<Longrightarrow> case r of Ok x \<Rightarrow> Q x w' | Err _ \<Rightarrow> R w' | Panic \<Rightarrow> R w'"
  by (fastforce simp: triple_def split: result.splits)

text \<open>The last steps: the new database is written beside the old one and then takes its place.\<close>

lemma place_database:
  fixes db :: bytes and f :: "(bytes \<times> nat) option"
  assumes "tmp \<noteq> t"
  defines "R \<equiv> \<lambda>v :: 'z disk_scheme. d_files v t = f \<or> (\<exists>mode. d_files v t = Some (db, mode))"
  shows "triple (\<lambda>v. d_files v t = f)
    (seq (bk_io (write_bytes E tmp db)) (seq (harden_file_permissions E tmp)
      (seq (bk_io (rename E tmp t)) (seq (harden_file_permissions E t) (ret m)))))
    (\<lambda>x v. x = m \<and> d_files v t = Some (db, 384)) R"
proof (rule triple_seq)
  let ?staged = "\<lambda>v :: 'z disk_scheme. d_files v t = f \<and> (\<exists>mode. d_files v tmp = Some (db, mode))"
  show "triple (\<lambda>v. d_files v t = f) (bk_io (write_bytes E tmp db)) (\<lambda>_. ?staged) R"
    using assms(1)
    by (auto simp: R_def triple_def bk_io_def write_bytes_def open_truncated_def write_content_def fs_permits_def act_run
        split: option.split)
  show "triple ?staged (seq (harden_file_permissions E tmp)
      (seq (bk_io (rename E tmp t)) (seq (harden_file_permissions E t) (ret m)))) (\<lambda>x v. x = m \<and> d_files v t = Some (db, 384)) R"
  proof (rule triple_seq)
    show "triple ?staged (harden_file_permissions E tmp) (\<lambda>_. ?staged) R"
      using assms(1)
      by (auto simp: R_def triple_def harden_file_permissions_def bk_io_def set_permissions_def fs_permits_def act_run
          split: option.split)
    let ?placed = "\<lambda>v :: 'z disk_scheme. \<exists>mode. d_files v t = Some (db, mode)"
    show "triple ?staged (seq (bk_io (rename E tmp t)) (seq (harden_file_permissions E t) (ret m)))
        (\<lambda>x v. x = m \<and> d_files v t = Some (db, 384)) R"
    proof (rule triple_seq)
      show "triple ?staged (bk_io (rename E tmp t)) (\<lambda>_. ?placed) R"
        by (auto simp: R_def triple_def bk_io_def rename_def fs_permits_def act_run split: option.split)
      show "triple ?placed (seq (harden_file_permissions E t) (ret m)) (\<lambda>x v. x = m \<and> d_files v t = Some (db, 384)) R"
        by (auto simp: R_def triple_def harden_file_permissions_def bk_io_def set_permissions_def fs_permits_def act_run
            split: option.split)
    qed
  qed
qed

text \<open>
  C31: a restore is all or nothing. However it ends, the database file at its destination is as it was,
  or it is the database of an archive with exactly the two entries whose hash the manifest gives; if the
  restore succeeds it is that database, readable and writable by its owner only.
\<close>

theorem restore_all_or_nothing:
  assumes "restore_backup E source target w = (r, w')" and "path_file_name target \<noteq> None"
  shows "(d_files w' target = d_files w target \<or>
      (\<exists>archive mode m db mode'. d_files w source = Some (archive, mode) \<and> open_archive E archive = Ok (m, db) \<and>
        d_files w' target = Some (db, mode'))) \<and>
    (\<forall>m. r = Ok m \<longrightarrow> (\<exists>archive mode db. d_files w source = Some (archive, mode) \<and>
      open_archive E archive = Ok (m, db) \<and> d_files w' target = Some (db, 384)))"
proof -
  let ?t = target and ?f = "d_files w target"
  have same: "holds_file ?t ?f w"
    by (simp add: holds_file_def)
  obtain x w1 where read: "read_bytes E source w = (x, w1)"
    by fastforce
  then have w1: "holds_file ?t ?f w1"
    using keepsD [OF keeps_file_ops(1) same] by blast
  show ?thesis
  proof (cases "\<exists>archive m db. x = Ok archive \<and> open_archive E archive = Ok (m, db)")
    case False
    have io: "bk_io (read_bytes E source) w = (map_err (\<lambda>_. BkIo) x, w1)"
      using read by (simp add: bk_io_def on_err_map)
    have "\<exists>e. restore_backup E source target w = (e, w1) \<and> (\<forall>m. e \<noteq> Ok m)"
    proof (cases x)
      case (Ok archive)
      with False have bad: "open_archive E archive = Panic \<or> (\<exists>e. open_archive E archive = Err e)"
        by (cases "open_archive E archive") auto
      have step: "bk_io (read_bytes E source) w = (Ok archive, w1)"
        using read Ok by simp
      show ?thesis
        unfolding restore_backup_def by (rule bnd_bnd_stopped [where m = "bk_io (read_bytes E source)" and g = "open_archive E", OF step bad])
    qed (use io in \<open>simp_all add: restore_backup_def bnd_def [of "bk_io (read_bytes E source)"]\<close>)
    then have "w' = w1 \<and> (\<forall>m. r \<noteq> Ok m)"
      using assms(1) by auto
    then show ?thesis
      using w1 by (simp add: holds_file_def)
  next
    case True
    then obtain archive m db where a: "x = Ok archive" "open_archive E archive = Ok (m, db)"
      by blast
    then obtain mode where source: "d_files w source = Some (archive, mode)"
      using read by (auto simp: read_bytes_Ok_iff)
    let ?place = "seq (bk_io (write_bytes E (staging_path ?t) db)) (seq (harden_file_permissions E (staging_path ?t))
      (seq (bk_io (rename E (staging_path ?t) ?t)) (seq (harden_file_permissions E ?t) (ret m))))"
    let ?R = "\<lambda>v. d_files v ?t = ?f \<or> (\<exists>mode. d_files v ?t = Some (db, mode))"
    have run: "seq (private_parent E ?t) ?place w1 = (r, w')"
    proof -
      have steps: "bk_io (read_bytes E source) w = (Ok archive, w1)"
          "lift_r (open_archive E archive) w1 = (Ok (m, db), w1)"
        using read a by (simp_all add: lift_r_def)
      show ?thesis
        using assms(1) unfolding restore_backup_def bnd_step [where m = "bk_io (read_bytes E source)", OF steps(1)]
          bnd_step [where m = "lift_r (open_archive E archive)", OF steps(2)] Let_def case_prod_conv .
    qed
    have "triple (\<lambda>v. d_files v ?t = ?f) (private_parent E ?t) (\<lambda>_ v. d_files v ?t = ?f) (\<lambda>v. d_files v ?t = ?f)"
      using private_parent_keeps [of ?t ?f E] unfolding keeps_triple holds_file_def .
    then have "triple (\<lambda>v. d_files v ?t = ?f) (private_parent E ?t) (\<lambda>_ v. d_files v ?t = ?f) ?R"
      by (rule triple_weaken) blast
    from triple_seq [OF this place_database [OF staging_differs [OF assms(2)]]]
    have "case r of Ok x \<Rightarrow> x = m \<and> d_files w' ?t = Some (db, 384) | Err _ \<Rightarrow> ?R w' | Panic \<Rightarrow> ?R w'"
      by (rule triple_case [where m = "seq (private_parent E ?t) ?place", OF _ _ run]) (use w1 in \<open>simp add: holds_file_def\<close>)
    then show ?thesis
      using source a(2) by (cases r) auto
  qed
qed

section \<open>Backing up and restoring\<close>

text \<open>The documented behaviour of the zip library.\<close>

definition zip_ok :: "env \<Rightarrow> bool" where
  "zip_ok E \<longleftrightarrow> (\<forall>es. distinct (map fst es) \<longrightarrow>
     x_unzip (e_host E) (x_zip (e_host E) es) = Some (map (\<lambda>(n, c). (n, Some c)) es))"

definition archive_of :: "env \<Rightarrow> backup_manifest \<Rightarrow> bytes \<Rightarrow> bytes" where
  "archive_of E m content = x_zip (e_host E)
     [(''manifest.json'', as_bytes (x_json_pretty (e_host E) (enc_backup_manifest m))), (''vault.db'', content)]"

lemma keeps_says:
  shows "keeps (says p c) (private_parent E q)"
    and "p \<noteq> q \<Longrightarrow> keeps (says p c) (create_private_file E q)"
    and "p \<noteq> q \<Longrightarrow> keeps (says p c) (bk_io (write_content E q c'))"
  unfolding private_parent_def harden_dir_permissions_def create_private_file_def bk_io_def
  by (intro keeps_intro says_intro; simp)+

lemma create_backup_Ok:
  assumes "create_backup E path dest w = (Ok m, w')" and "dest \<noteq> path"
  shows "\<exists>content. says path content w' \<and> says dest (archive_of E m content) w' \<and>
    bm_database_sha256 m = e_b64url E (e_sha256 E content)"
proof -
  obtain content w1 w2 w3 w4 where run: "read_bytes E path w1 = (Ok content, w2)"
      "private_parent E dest (w2\<lparr>tick := Suc (tick w2)\<rparr>) = (Ok (), w3)" "create_private_file E dest w3 = (Ok (), w4)"
      "bk_io (write_content E dest (archive_of E m content)) w4 = (Ok (), w')"
      "bm_database_sha256 m = e_b64url E (e_sha256 E content)"
    using assms(1)
    by (auto simp: create_backup_def bnd_Ok_iff seq_Ok_iff Let_def archive_of_def split: if_splits)
  have path: "path \<noteq> dest"
    using assms(2) by simp
  have "says path content (w2\<lparr>tick := Suc (tick w2)\<rparr>)"
    using run(1) by (auto simp: read_bytes_Ok_iff says_def)
  then have "says path content w3"
    using keepsD [OF keeps_says(1) _ run(2)] by blast
  then have "says path content w4"
    using keepsD [OF keeps_says(2) [OF path] _ run(3)] by blast
  then have "says path content w'"
    using keepsD [OF keeps_says(3) [OF path] _ run(4)] by blast
  moreover have "says dest [] w4"
    using run(3) by (auto simp: create_private_file_def open_truncated_def seq_Ok_iff says_def split: if_splits)
  then have "says dest (archive_of E m content) w'"
    using run(4) by (auto simp: write_content_def seq_Ok_iff says_def)
  ultimately show ?thesis
    using run(5) by blast
qed

lemma open_archive_of:
  assumes "zip_ok E" and "pretty_ok E" and "utf8_valid (as_bytes (x_json_pretty (e_host E) (enc_backup_manifest m)))"
    and "bm_database_sha256 m = e_b64url E (e_sha256 E content)"
  shows "open_archive E (archive_of E m content) = Ok (m, content)"
proof -
  have "x_unzip (e_host E) (archive_of E m content) = Some [(''manifest.json'',
      Some (as_bytes (x_json_pretty (e_host E) (enc_backup_manifest m)))), (''vault.db'', Some content)]"
    using assms(1) by (simp add: zip_ok_def archive_of_def)
  moreover have "parse_as E dec_backup_manifest (x_json_pretty (e_host E) (enc_backup_manifest m)) = Some m"
    using assms(2) backup_manifest_codec.dec_enc [of m] by (simp add: parse_as_def pretty_ok_def)
  ultimately show ?thesis
    using assms(3,4) by (simp add: open_archive_def)
qed

text \<open>A restore on a machine that lets everything through.\<close>

lemma set_permissions_run:
  assumes "all_allowed E" and "p \<noteq> []"
  shows "d_files w p = None \<Longrightarrow> d_dirs w p \<noteq> None \<Longrightarrow> \<exists>v. set_permissions E p mode w = (Ok (), v) \<and> d_files v = d_files w \<and>
      (\<forall>q. q \<noteq> p \<longrightarrow> d_dirs v q = d_dirs w q)"
    and "d_files w p = Some (c, k) \<Longrightarrow> \<exists>v. set_permissions E p mode w = (Ok (), v) \<and> d_files v = (d_files w)(p \<mapsto> (c, mode)) \<and>
      d_dirs v = d_dirs w"
  using assms by (auto simp: set_permissions_def seq_step [OF allowed_run])

lemma rename_run:
  assumes "all_allowed E" and "d_files w p = Some f" and "d_dirs w q = None"
  shows "\<exists>v. rename E p q w = (Ok (), v) \<and> d_files v q = Some f"
  using assms by (auto simp: rename_def seq_step [OF allowed_run])

lemma restore_run:
  assumes "all_allowed E" and "open_archive E archive = Ok (m, db)" and "says source archive w"
    and "path_parent target = Some d" and "d \<noteq> []" and "d_files w d = None"
    and "\<forall>q. q \<in> {target, staging_path target} \<longrightarrow> q \<noteq> [] \<and> d_dirs w q = None \<and> \<not> prefix (q @ ''/'') d \<and> q \<noteq> d"
    and "path_file_name target \<noteq> None"
  shows "\<exists>w'. restore_backup E source target w = (Ok m, w') \<and> d_files w' target = Some (db, 384)"
proof -
  let ?tmp = "staging_path target"
  have tmp: "?tmp \<noteq> target"
    by (rule staging_differs [OF assms(8)])
  have names: "target \<noteq> []" "?tmp \<noteq> []" "target \<noteq> d" "?tmp \<noteq> d"
    using assms(7) by auto
  let ?calm = "\<lambda>v :: 'a disk_scheme. d_dirs v target = None \<and> d_dirs v ?tmp = None"
  let ?w0 = "w\<lparr>tick := Suc (tick w)\<rparr>"
  have read: "bk_io (read_bytes E source) w = (Ok archive, ?w0)"
    using assms(1,3) by (auto simp: read_bytes_Ok_iff says_def all_allowed_def)
  obtain v where v: "create_dir_all E d ?w0 = (Ok (), v)" "d_files v = d_files ?w0" "d_dirs v d \<noteq> None"
      "\<forall>q. d_dirs ?w0 q = None \<and> q \<noteq> d \<and> \<not> prefix (q @ ''/'') d \<longrightarrow> d_dirs v q = None"
    using create_dir_all_run [OF assms(1,5), of ?w0] assms(6) by auto
  obtain w1 where w1: "set_permissions E d 448 v = (Ok (), w1)" "\<forall>q. q \<noteq> d \<longrightarrow> d_dirs w1 q = d_dirs v q"
    using set_permissions_run(1) [OF assms(1,5), of v] v(2,3) assms(6) by auto
  have parent: "private_parent E target ?w0 = (Ok (), w1)"
    using v(1) w1(1) assms(4) by (simp add: private_parent_def harden_dir_permissions_def seq_Ok_iff)
  have calm: "?calm w1"
    using w1(2) v(4) assms(7) names by auto
  obtain w2 k where w2: "write_bytes E ?tmp db w1 = (Ok (), w2)" "d_files w2 ?tmp = Some (db, k)" "?calm w2"
    using write_bytes_run [OF assms(1) names(2)] calm by metis
  obtain w3 where w3: "set_permissions E ?tmp 384 w2 = (Ok (), w3)" "d_files w3 ?tmp = Some (db, 384)" "?calm w3"
    using set_permissions_run(2) [OF assms(1) names(2) w2(2), of 384] w2(3) by auto
  obtain w4 where w4: "rename E ?tmp target w3 = (Ok (), w4)" "d_files w4 target = Some (db, 384)"
    using rename_run [OF assms(1) w3(2)] w3(3) by blast
  obtain w5 where w5: "set_permissions E target 384 w4 = (Ok (), w5)" "d_files w5 target = Some (db, 384)"
    using set_permissions_run(2) [OF assms(1) names(1) w4(2), of 384] by auto
  have steps: "bk_io (write_bytes E ?tmp db) w1 = (Ok (), w2)" "harden_file_permissions E ?tmp w2 = (Ok (), w3)"
      "bk_io (rename E ?tmp target) w3 = (Ok (), w4)" "harden_file_permissions E target w4 = (Ok (), w5)"
    using w2(1) w3(1) w4(1) w5(1) by (simp_all add: harden_file_permissions_def)
  have "restore_backup E source target w = (Ok m, w5)"
    unfolding restore_backup_def bnd_step [where m = "bk_io (read_bytes E source)", OF read] assms(2) Let_def
    by (simp add: bnd_Ok_iff seq_Ok_iff parent steps(2,4) w2(1) w4(1))
  then show ?thesis
    using w5(2) by blast
qed


text \<open>A backup on a machine that lets everything through.\<close>

lemma open_truncated_run:
  assumes "all_allowed E" and "p \<noteq> []" and "d_dirs w p = None"
  shows "\<exists>v. open_truncated E p mode w = (Ok (), v) \<and> d_files v p \<noteq> None \<and> d_dirs v = d_dirs w \<and>
    (\<forall>q. q \<noteq> p \<longrightarrow> d_files v q = d_files w q)"
  using assms by (auto simp: open_truncated_def seq_step [OF allowed_run])

lemma create_backup_run:
  assumes "all_allowed E" and "load_header E w = (Ok h, w\<lparr>tick := n\<rparr>)"
    and "d_files w path = Some (db, k)" and "x_checkpoint (e_host E) db (map_option fst (d_files w (path @ ''-wal''))) = Some db'"
    and "path_parent dest = Some d" and "d \<noteq> []" and "d_files w d = None"
    and "dest \<noteq> []" and "d_dirs w dest = None" and "dest \<noteq> d" and "\<not> prefix (dest @ ''/'') d"
  shows "\<exists>m w1. create_backup E path dest w = (Ok m, w1) \<and>
    m = \<lparr>bm_format_version = 1, bm_created_at = e_time_ms E (e_clock E (Suc n)), bm_vault_id = vh_vault_id h,
      bm_database_sha256 = e_b64url E (e_sha256 E db'), bm_contains_plaintext_secrets = False,
      bm_contains_plaintext_root_key = False\<rparr> \<and>
    (\<forall>q. q \<notin> {dest, path} \<longrightarrow> d_files w1 q = d_files w q) \<and>
    (\<forall>q. d_dirs w q = None \<and> q \<noteq> d \<and> \<not> prefix (q @ ''/'') d \<longrightarrow> d_dirs w1 q = None)"
proof -
  let ?m = "\<lparr>bm_format_version = 1, bm_created_at = e_time_ms E (e_clock E (Suc n)), bm_vault_id = vh_vault_id h,
      bm_database_sha256 = e_b64url E (e_sha256 E db'), bm_contains_plaintext_secrets = False,
      bm_contains_plaintext_root_key = False\<rparr>"
  let ?w0 = "w\<lparr>tick := n\<rparr>" and ?w1 = "w\<lparr>tick := n, d_files := (d_files w)(path \<mapsto> (db', k))\<rparr>"
  let ?w2 = "?w1\<lparr>tick := Suc (Suc n)\<rparr>"
  have header: "on_err BkStore (load_header E) w = (Ok h, ?w0)"
    using assms(2) by simp
  have check: "checkpoint_database E path ?w0 = (Ok (), ?w1)"
    using assms(3,4) by (simp add: checkpoint_database_def)
  have read: "read_bytes E path ?w1 = (Ok db', ?w1\<lparr>tick := Suc n\<rparr>)"
    using assms(1) by (simp add: read_bytes_Ok_iff all_allowed_def)
  have apart: "d \<noteq> path"
    using assms(3,7) by auto
  obtain v where v: "create_dir_all E d ?w2 = (Ok (), v)" "d_files v = d_files ?w2" "d_dirs v d \<noteq> None"
      "\<forall>q. d_dirs ?w2 q = None \<and> q \<noteq> d \<and> \<not> prefix (q @ ''/'') d \<longrightarrow> d_dirs v q = None"
    using create_dir_all_run [OF assms(1,6), of ?w2] assms(7) apart by auto
  have "d_files v d = None"
    using v(2) assms(7) apart by simp
  then obtain w3 where w3: "set_permissions E d 448 v = (Ok (), w3)" "d_files w3 = d_files v"
      "\<forall>q. q \<noteq> d \<longrightarrow> d_dirs w3 q = d_dirs v q"
    using set_permissions_run(1) [OF assms(1,6) _ v(3)] by blast
  have parent: "private_parent E dest ?w2 = (Ok (), w3)"
    using v(1) w3(1) assms(5) by (simp add: private_parent_def harden_dir_permissions_def seq_Ok_iff)
  have "d_dirs w3 dest = None"
    using w3(3) v(4) assms(9-11) by simp
  then obtain w4 where w4: "open_truncated E dest 384 w3 = (Ok (), w4)" "d_dirs w4 = d_dirs w3"
      "\<forall>q. q \<noteq> dest \<longrightarrow> d_files w4 q = d_files w3 q"
    using open_truncated_run [OF assms(1,8)] by blast
  obtain w5 where w5: "write_content E dest (archive_of E ?m db') w4 = (Ok (), w5)" "d_dirs w5 = d_dirs w4"
      "\<forall>q. q \<noteq> dest \<longrightarrow> d_files w5 q = d_files w4 q"
    using assms(1) by (simp add: write_content_def seq_Ok_iff all_allowed_def)
  have "create_backup E path dest w = (Ok ?m, w5)"
    unfolding create_backup_def bnd_step [where m = "on_err BkStore (load_header E)", OF header]
    using assms(3) by (simp add: bnd_Ok_iff seq_Ok_iff on_disk_def check read Let_def parent [simplified] create_private_file_def w4(1)
        w5(1) [unfolded archive_of_def]) blast
  moreover have "d_files w5 q = d_files w q" if "q \<notin> {dest, path}" for q
    using that w5(3) w4(3) w3(2) v(2) by simp
  moreover have "d_dirs w5 q = None" if "d_dirs w q = None \<and> q \<noteq> d \<and> \<not> prefix (q @ ''/'') d" for q
    using that w5(2) w4(2) w3(3) v(4) by simp
  ultimately show ?thesis
    by blast
qed

section \<open>An example\<close>

text \<open>A zip library: the entries as a JSON text.\<close>

definition toy_zip :: "(string \<times> bytes) list \<Rightarrow> bytes" where
  "toy_zip es = as_bytes (pr (JArr (map (\<lambda>(n, c). JArr [JStr n, JStr (from_bytes c)]) es)))"

fun toy_entry :: "json \<Rightarrow> (string \<times> bytes option) option" where
  "toy_entry (JArr [JStr n, JStr c]) = Some (n, Some (as_bytes c))"
| "toy_entry _ = None"

definition toy_unzip :: "bytes \<Rightarrow> (string \<times> bytes option) list option" where
  "toy_unzip bs = (case e_json_parse sample_env (from_bytes bs) of
     Some (JArr xs) \<Rightarrow> those (map toy_entry xs) | _ \<Rightarrow> None)"

lemma toy_unzip_zip: "toy_unzip (toy_zip es) = Some (map (\<lambda>(n, c). (n, Some c)) es)"
proof -
  let ?v = "JArr (map (\<lambda>(n, c). JArr [JStr n, JStr (from_bytes c)]) es)"
  have "json_wf ?v"
    by auto
  then have "e_json_parse sample_env (pr ?v) = Some ?v"
    using json_parse_print [OF sample_ok(4)] by (simp only: sample_simps)
  moreover have "those (map toy_entry (map (\<lambda>(n, c). JArr [JStr n, JStr (from_bytes c)]) es))
      = Some (map (\<lambda>(n, c). (n, Some c)) es)"
    by (induction es) auto
  ultimately show ?thesis
    by (simp add: toy_unzip_def toy_zip_def del: pr.simps)
qed

definition backup_env :: env where
  "backup_env = sample_env\<lparr>e_time_ms := \<lambda>_. ''t'', e_b64url := \<lambda>_. ''h'',
     e_host := (e_host sample_env)\<lparr>x_zip := toy_zip, x_unzip := toy_unzip\<rparr>\<rparr>"

definition sample_header :: vault_header where
  "sample_header = \<lparr>vh_schema_version = 1, vh_vault_id = ''v'', vh_namespace_id = ''ns'',
     vh_provider_binding = JNull, vh_created_at = ''t''\<rparr>"

definition sample_disk :: disk where
  "sample_disk = \<lparr>tick = 0, db_metadata = [(header_key, pr (enc_header sample_header))], db_secrets = [],
     db_policies = [], db_tickets = [], db_audit = [], db_fingerprints = [], db_jobs = [],
     d_files = [''/v/vault.db'' \<mapsto> ([1, 2], 384)], d_dirs = (\<lambda>_. None), d_umask = 18\<rparr>"

lemma backup_env_ok:
  "zip_ok backup_env" "pretty_ok backup_env" "all_allowed backup_env"
  using sample_ok(4) toy_unzip_zip
  by (simp_all add: zip_ok_def pretty_ok_def all_allowed_def json_text_ok_def backup_env_def sample_env_def sample_host_def)

lemma sample_paths:
  "path_parent ''/b/x.zip'' = Some ''/b''" "path_parent ''/r/vault.db'' = Some ''/r''"
  "staging_path ''/r/vault.db'' = ''/r/vault.dbtmp''" "path_file_name ''/r/vault.db'' = Some ''vault.db''"
  by code_simp+

lemma sample_header_loads: "load_header backup_env sample_disk = (Ok sample_header, sample_disk\<lparr>tick := 1\<rparr>)"
proof -
  have "json_text_ok backup_env" "e_json_print backup_env = pr" "e_fault backup_env 0 = None"
    using sample_ok(4) by (simp_all add: json_text_ok_def backup_env_def sample_env_def)
  moreover have "header_domain sample_header"
    by (simp add: header_domain_def sample_header_def)
  ultimately have "parse_as backup_env dec_header (pr (enc_header sample_header)) = Some sample_header"
    using parse_as_print [of backup_env "enc_header sample_header" dec_header] by (simp add: enc_header_wf header_codec.dec_enc)
  then show ?thesis
    using \<open>e_fault backup_env 0 = None\<close> by (simp add: load_header_def query_def txn_def sample_disk_def)
qed

lemma sample_backup:
  "\<exists>m w1. create_backup backup_env ''/v/vault.db'' ''/b/x.zip'' sample_disk = (Ok m, w1) \<and>
     utf8_valid (as_bytes (x_json_pretty (e_host backup_env) (enc_backup_manifest m))) \<and>
     d_files w1 ''/r'' = None \<and> (\<forall>q \<in> {''/r/vault.db'', ''/r/vault.dbtmp''}. d_dirs w1 q = None)"
proof -
  have disk: "d_files sample_disk ''/v/vault.db'' = Some ([1, 2], 384)" "d_files sample_disk (''/v/vault.db'' @ ''-wal'') = None"
      "d_files sample_disk ''/b'' = None" "d_files sample_disk ''/r'' = None" "d_dirs sample_disk = (\<lambda>_. None)"
      "x_checkpoint (e_host backup_env) [1, 2] None = Some [1, 2]"
    by (simp_all add: sample_disk_def backup_env_def sample_env_def sample_host_def)
  let ?m = "\<lparr>bm_format_version = 1, bm_created_at = ''t'', bm_vault_id = ''v'', bm_database_sha256 = ''h'',
    bm_contains_plaintext_secrets = False, bm_contains_plaintext_root_key = False\<rparr>"
  have "e_time_ms backup_env t = ''t''" "e_b64url backup_env x = ''h''" "x_json_pretty (e_host backup_env) = pr" for t x
    by (simp_all add: backup_env_def sample_env_def sample_host_def)
  note env = this
  have "list_all (\<lambda>b. unat b < 128) (as_bytes (pr (enc_backup_manifest ?m)))"
    by code_simp
  then have "utf8_valid (as_bytes (x_json_pretty (e_host backup_env) (enc_backup_manifest ?m)))"
    unfolding env(3) by (intro utf8_valid_ascii) (simp add: list_all_iff)
  moreover obtain w1 where "create_backup backup_env ''/v/vault.db'' ''/b/x.zip'' sample_disk = (Ok ?m, w1)"
      "\<forall>q. q \<notin> {''/b/x.zip'', ''/v/vault.db''} \<longrightarrow> d_files w1 q = d_files sample_disk q"
      "\<forall>q. q \<noteq> ''/b'' \<and> \<not> prefix (q @ ''/'') ''/b'' \<longrightarrow> d_dirs w1 q = None"
    using create_backup_run [OF backup_env_ok(3) sample_header_loads disk(1) _ sample_paths(1), of "[1, 2]"] disk
    by (auto simp: env sample_header_def)
  moreover have "\<not> prefix (''/r/vault.db'' @ ''/'') ''/b''" "\<not> prefix (''/r/vault.dbtmp'' @ ''/'') ''/b''"
    by simp_all
  ultimately show ?thesis
    using disk(4) by (intro exI [of _ ?m] exI [of _ w1]) simp
qed


lemma restore_all_or_nothing_witness:
  "\<exists>w1 w' r. restore_backup backup_env ''/b/x.zip'' ''/r/vault.db'' (w1 :: disk) = (r, w') \<and>
     (d_files w' ''/r/vault.db'' = d_files w1 ''/r/vault.db'' \<or> d_files w' ''/r/vault.db'' \<noteq> None)"
proof -
  obtain r and w' :: disk where run: "restore_backup backup_env ''/b/x.zip'' ''/r/vault.db'' sample_disk = (r, w')"
    by fastforce
  have "path_file_name ''/r/vault.db'' \<noteq> None"
    by (simp add: sample_paths(4))
  from restore_all_or_nothing [OF run this] run show ?thesis
    by auto
qed

end
