(* ===== verification/Access.thy ===== *)
theory Access
  imports Tickets
begin

text \<open>
  Properties of the canonical JSON form (\<open>serialization.rs\<close>), of the policy engine (\<open>policy.rs\<close>)
  and of the binding of tickets to policies (\<open>tickets.rs\<close>).
\<close>

section \<open>Canonical JSON\<close>

text \<open>
  C25: canonical serialization is injective: it succeeds exactly for objects without floats, and two
  values with the same canonical bytes are the same value, so a MAC or hash over the bytes covers
  every key and value.
\<close>

theorem canonical_json_injective:
  assumes "json_text_ok E" and "json_ok v" and "json_ok w"
  shows "(is_ok (canonical E v) \<longleftrightarrow> float_free v \<and> (\<exists>m. v = JObj m)) \<and>
     (canonical E v = Ok b \<and> canonical E w = Ok b \<longrightarrow> v = w)"
proof -
  have eq: "canonical E x = (case x of
      JObj m \<Rightarrow> if float_free x then Ok (as_bytes (e_json_print E x)) else Err FloatForbidden
    | _ \<Rightarrow> Err TopLevelMustBeObject)" if "json_ok x" for x
  proof (cases x)
    case (JObj m)
    then show ?thesis
      using that canonical_json_bytes_eq [of m "e_json_print E"] by (simp add: canonical_def)
  qed (simp_all add: canonical_def canonical_json_bytes_def)
  have print: "x = y" if "json_ok x" "json_ok y" "canonical E x = Ok b" "canonical E y = Ok b" for x y
    using that eq [OF that(1)] eq [OF that(2)] json_print_inject [OF assms(1), of x y]
      json_wf_of_ok [of x] json_wf_of_ok [of y]
    by (cases x; cases y) (auto split: if_splits)
  show ?thesis
    using eq [OF assms(2)] print [OF assms(2,3)] by (cases v) auto
qed

lemma canonical_json_injective_witness:
  "is_ok (canonical sample_env (to_value [(''b'', JNull), (''a'', JBool True)])) \<and>
   \<not> is_ok (canonical sample_env (to_value [(''b'', JNum (Float 1))]))"
proof -
  have wf: "json_ok (to_value [(''b'', JNull), (''a'', JBool True)])"
    "json_ok (to_value [(''b'', JNum (Float 1))])"
    by (simp_all add: to_value_def map_build_def map_ok_def less_char_def)
  show ?thesis
    using canonical_json_injective [OF sample_ok(4) wf] canonical_json_injective [OF sample_ok(4) wf(2,1)]
    by (simp add: to_value_def map_build_def less_char_def del: sample_simps)
qed

section \<open>The policy engine\<close>

lemma evaluate_eq:
  "evaluate ps r = (case find (\<lambda>p. permits p r) ps of
       Some p \<Rightarrow> \<lparr>er_decision = Allow, er_reason = ''allowed'', er_policy = Some p\<rparr>
     | None \<Rightarrow> \<lparr>er_decision = Deny, er_reason = ''no matching allow policy'', er_policy = None\<rparr>)"
proof (induction ps)
  case (Cons p ps)
  show ?case
  proof (cases "permits p r")
    case True
    then have "evaluate_policy p r
        = \<lparr>er_decision = Allow, er_reason = ''allowed'', er_policy = Some p\<rparr>"
      using evaluate_policy_Allow evaluate_policy_allow_iff by blast
    with True show ?thesis by (simp add: Let_def)
  next
    case False
    then have "er_decision (evaluate_policy p r) \<noteq> Allow"
      using evaluate_policy_allow_iff by blast
    with False Cons.IH show ?thesis by (simp add: Let_def)
  qed
qed simp

lemma allowed_iff: "allowed (evaluate ps r) \<longleftrightarrow> (\<exists>p \<in> set ps. permits p r)"
proof (cases "find (\<lambda>p. permits p r) ps")
  case None
  then have "\<not> (\<exists>p \<in> set ps. permits p r)"
    by (auto simp: find_None_iff)
  with None show ?thesis by (simp add: evaluate_eq allowed_def)
next
  case (Some p)
  then have "\<exists>p \<in> set ps. permits p r"
    by (auto simp: find_Some_iff)
  with Some show ?thesis by (simp add: evaluate_eq allowed_def)
qed

text \<open>
  C18: the engine allows exactly the requests that some policy permits. It answers with the first such
  policy in the order given; without one the denial names no policy and gives no other reason. What
  a policy permits is the declarative \<open>permits\<close>.
\<close>

theorem evaluate_first_permitting:
  "evaluate ps r = (case find (\<lambda>p. permits p r) ps of
       Some p \<Rightarrow> \<lparr>er_decision = Allow, er_reason = ''allowed'', er_policy = Some p\<rparr>
     | None \<Rightarrow> \<lparr>er_decision = Deny, er_reason = ''no matching allow policy'', er_policy = None\<rparr>)"
  by (rule evaluate_eq)

text \<open>
  A policy \<open>q\<close> tightens \<open>p\<close>: shorter allow lists, longer deny lists, an earlier end, a lower size
  limit, and no flag relaxed. Where an empty list means no restriction, a tightened list is either
  unchanged in meaning or a non-empty part. A peer binding counts as a relaxation of the export
  rule, so \<open>q\<close> may only have one if \<open>p\<close> has.
\<close>

definition narrows :: "'a list \<Rightarrow> 'a list \<Rightarrow> bool" where
  "narrows xs ys \<longleftrightarrow> xs = [] \<or> (ys \<noteq> [] \<and> set ys \<subseteq> set xs)"

definition not_above :: "'a :: linorder option \<Rightarrow> 'a option \<Rightarrow> bool" where
  "not_above x y \<longleftrightarrow> (case x of None \<Rightarrow> True | Some a \<Rightarrow> (case y of None \<Rightarrow> False | Some b \<Rightarrow> b \<le> a))"

definition tightens :: "access_policy \<Rightarrow> access_policy \<Rightarrow> bool" where
  "tightens p q \<longleftrightarrow>
     set (ap_secret_refs q) \<subseteq> set (ap_secret_refs p) \<and>
     set (ap_allowed_consumers q) \<subseteq> set (ap_allowed_consumers p) \<and>
     set (ap_denied_consumers p) \<subseteq> set (ap_denied_consumers q) \<and>
     set (ap_allowed_purposes q) \<subseteq> set (ap_allowed_purposes p) \<and>
     set (ap_denied_purposes p) \<subseteq> set (ap_denied_purposes q) \<and>
     set (ap_allowed_delivery_modes q) \<subseteq> set (ap_allowed_delivery_modes p) \<and>
     narrows (ap_allowed_http_hosts p) (ap_allowed_http_hosts q) \<and>
     set (ap_denied_http_hosts p) \<subseteq> set (ap_denied_http_hosts q) \<and>
     narrows (ap_allowed_http_methods p) (ap_allowed_http_methods q) \<and>
     set (ap_denied_http_methods p) \<subseteq> set (ap_denied_http_methods q) \<and>
     narrows (ap_allowed_http_path_prefixes p) (ap_allowed_http_path_prefixes q) \<and>
     set (ap_denied_http_path_prefixes p) \<subseteq> set (ap_denied_http_path_prefixes q) \<and>
     (ap_require_https_for_brokered_http p \<longrightarrow> ap_require_https_for_brokered_http q) \<and>
     not_above (ap_max_http_request_body_bytes p) (ap_max_http_request_body_bytes q) \<and>
     narrows (ap_allowed_os_uids p) (ap_allowed_os_uids q) \<and>
     set (ap_denied_os_uids p) \<subseteq> set (ap_denied_os_uids q) \<and>
     narrows (ap_allowed_executable_paths p) (ap_allowed_executable_paths q) \<and>
     set (ap_denied_executable_paths p) \<subseteq> set (ap_denied_executable_paths q) \<and>
     narrows (ap_allowed_executable_sha256 p) (ap_allowed_executable_sha256 q) \<and>
     set (ap_denied_executable_sha256 p) \<subseteq> set (ap_denied_executable_sha256 q) \<and>
     (ap_exportable q \<longrightarrow> ap_exportable p) \<and>
     assurance_rank (ap_minimum_provider_assurance p)
       \<le> assurance_rank (ap_minimum_provider_assurance q) \<and>
     (ap_require_mfa p \<longrightarrow> ap_require_mfa q) \<and>
     (ap_allow_unbound_plaintext_export q \<or> policy_has_peer_binding q \<longrightarrow>
        ap_allow_unbound_plaintext_export p \<or> policy_has_peer_binding p) \<and>
     not_above (ap_expires_at p) (ap_expires_at q)"

lemma lists_name_mono: "set ys \<subseteq> set xs \<Longrightarrow> lists_name ys x \<Longrightarrow> lists_name xs x"
  by (auto simp: lists_name_def)

lemma peer_fact_mono:
  "narrows a a' \<Longrightarrow> set d \<subseteq> set d' \<Longrightarrow> peer_fact_ok a' d' x \<Longrightarrow> peer_fact_ok a d x"
  by (cases x) (auto simp: peer_fact_ok_def narrows_def)

lemma narrows_lists:
  "narrows xs ys \<Longrightarrow> ys = [] \<or> lists_name (map f ys) x \<Longrightarrow> xs = [] \<or> lists_name (map f xs) x"
  by (auto simp: narrows_def lists_name_def)

lemma narrows_bex:
  "narrows xs ys \<Longrightarrow> ys = [] \<or> (\<exists>y \<in> set ys. P y) \<Longrightarrow> xs = [] \<or> (\<exists>x \<in> set xs. P x)"
  by (auto simp: narrows_def)

lemma not_above_bound:
  "not_above x y \<Longrightarrow> x = Some a \<Longrightarrow> \<exists>b. y = Some b \<and> b \<le> a"
  by (cases y) (auto simp: not_above_def)

lemma http_mono:
  assumes "tightens p q" and "http_permitted q r"
  shows "http_permitted p r"
proof -
  obtain h m q' where some: "rq_http_host r = Some h" "rq_http_method r = Some m"
      "rq_http_path r = Some q'"
    using assms(2) by (auto simp: http_permitted_def)
  have q: "ap_require_https_for_brokered_http q \<longrightarrow> rq_http_scheme r = Some ''https''"
      "h \<notin> set (ap_denied_http_hosts q)"
      "ap_allowed_http_hosts q = [] \<or> lists_name (map id (ap_allowed_http_hosts q)) h"
      "to_upper m \<notin> to_upper ` set (ap_denied_http_methods q)"
      "ap_allowed_http_methods q = []
        \<or> lists_name (map to_upper (ap_allowed_http_methods q)) (to_upper m)"
      "\<not> (\<exists>d \<in> set (ap_denied_http_path_prefixes q). prefix d q')"
      "ap_allowed_http_path_prefixes q = []
        \<or> (\<exists>a \<in> set (ap_allowed_http_path_prefixes q). prefix a q')"
      "\<not> (\<exists>limit body. ap_max_http_request_body_bytes q = Some limit
        \<and> rq_http_request_body_bytes r = Some body \<and> limit < body)"
    using assms(2) some by (simp_all add: http_permitted_def)
  have t: "ap_require_https_for_brokered_http p \<longrightarrow> ap_require_https_for_brokered_http q"
      "set (ap_denied_http_hosts p) \<subseteq> set (ap_denied_http_hosts q)"
      "narrows (ap_allowed_http_hosts p) (ap_allowed_http_hosts q)"
      "set (ap_denied_http_methods p) \<subseteq> set (ap_denied_http_methods q)"
      "narrows (ap_allowed_http_methods p) (ap_allowed_http_methods q)"
      "set (ap_denied_http_path_prefixes p) \<subseteq> set (ap_denied_http_path_prefixes q)"
      "narrows (ap_allowed_http_path_prefixes p) (ap_allowed_http_path_prefixes q)"
      "not_above (ap_max_http_request_body_bytes p) (ap_max_http_request_body_bytes q)"
    using assms(1) by (simp_all add: tightens_def)
  have body: "\<not> (\<exists>limit body. ap_max_http_request_body_bytes p = Some limit
      \<and> rq_http_request_body_bytes r = Some body \<and> limit < body)"
    using q(8) not_above_bound [OF t(8)] by fastforce
  note allow = narrows_lists [OF t(3) q(3)] narrows_lists [OF t(5) q(5)] narrows_bex [OF t(7) q(7)]
  from q(1,2,4,6) t(1,2,4,6) have p: "ap_require_https_for_brokered_http p \<longrightarrow> rq_http_scheme r = Some ''https''"
      "h \<notin> set (ap_denied_http_hosts p)"
      "to_upper m \<notin> to_upper ` set (ap_denied_http_methods p)"
      "\<not> (\<exists>d \<in> set (ap_denied_http_path_prefixes p). prefix d q')"
    by blast+
  show ?thesis
    unfolding http_permitted_def using some p allow body by (simp only: list.map_id) blast
qed

lemma tightens_lists:
  assumes "tightens p q" and "permits q r"
  shows "lists_name (ap_secret_refs p) (rq_secret_ref r)"
    and "lists_name (ap_allowed_consumers p) (rq_consumer r)"
    and "lists_name (ap_allowed_purposes p) (rq_purpose r)"
    and "rq_consumer r \<notin> set (ap_denied_consumers p)"
    and "rq_purpose r \<notin> set (ap_denied_purposes p)"
    and "rq_delivery_mode r \<in> set (ap_allowed_delivery_modes p)"
proof -
  have t: "set (ap_secret_refs q) \<subseteq> set (ap_secret_refs p)"
      "set (ap_allowed_consumers q) \<subseteq> set (ap_allowed_consumers p)"
      "set (ap_allowed_purposes q) \<subseteq> set (ap_allowed_purposes p)"
      "set (ap_denied_consumers p) \<subseteq> set (ap_denied_consumers q)"
      "set (ap_denied_purposes p) \<subseteq> set (ap_denied_purposes q)"
      "set (ap_allowed_delivery_modes q) \<subseteq> set (ap_allowed_delivery_modes p)"
    and r: "lists_name (ap_secret_refs q) (rq_secret_ref r)"
      "lists_name (ap_allowed_consumers q) (rq_consumer r)"
      "lists_name (ap_allowed_purposes q) (rq_purpose r)"
      "rq_consumer r \<notin> set (ap_denied_consumers q)"
      "rq_purpose r \<notin> set (ap_denied_purposes q)"
      "rq_delivery_mode r \<in> set (ap_allowed_delivery_modes q)"
    using assms by (simp_all add: tightens_def permits_def)
  note mono = lists_name_mono [OF t(1) r(1)] lists_name_mono [OF t(2) r(2)]
    lists_name_mono [OF t(3) r(3)]
  show "lists_name (ap_secret_refs p) (rq_secret_ref r)"
    and "lists_name (ap_allowed_consumers p) (rq_consumer r)"
    and "lists_name (ap_allowed_purposes p) (rq_purpose r)"
    by (fact mono)+
  show "rq_consumer r \<notin> set (ap_denied_consumers p)"
    and "rq_purpose r \<notin> set (ap_denied_purposes p)"
    and "rq_delivery_mode r \<in> set (ap_allowed_delivery_modes p)"
    using t(4-6) r(4-6) by blast+
qed

lemma tightens_peer:
  assumes "tightens p q" and "permits q r"
  shows "peer_fact_ok (ap_allowed_os_uids p) (ap_denied_os_uids p) (rq_os_uid r)"
    and "peer_fact_ok (ap_allowed_executable_paths p) (ap_denied_executable_paths p)
      (rq_executable_path r)"
    and "peer_fact_ok (ap_allowed_executable_sha256 p) (ap_denied_executable_sha256 p)
      (rq_executable_sha256 r)"
proof -
  have t: "narrows (ap_allowed_os_uids p) (ap_allowed_os_uids q)"
      "set (ap_denied_os_uids p) \<subseteq> set (ap_denied_os_uids q)"
      "narrows (ap_allowed_executable_paths p) (ap_allowed_executable_paths q)"
      "set (ap_denied_executable_paths p) \<subseteq> set (ap_denied_executable_paths q)"
      "narrows (ap_allowed_executable_sha256 p) (ap_allowed_executable_sha256 q)"
      "set (ap_denied_executable_sha256 p) \<subseteq> set (ap_denied_executable_sha256 q)"
    and r: "peer_fact_ok (ap_allowed_os_uids q) (ap_denied_os_uids q) (rq_os_uid r)"
      "peer_fact_ok (ap_allowed_executable_paths q) (ap_denied_executable_paths q)
         (rq_executable_path r)"
      "peer_fact_ok (ap_allowed_executable_sha256 q) (ap_denied_executable_sha256 q)
         (rq_executable_sha256 r)"
    using assms by (simp_all add: tightens_def permits_def)
  show "peer_fact_ok (ap_allowed_os_uids p) (ap_denied_os_uids p) (rq_os_uid r)"
    by (rule peer_fact_mono [OF t(1,2) r(1)])
  show "peer_fact_ok (ap_allowed_executable_paths p) (ap_denied_executable_paths p)
      (rq_executable_path r)"
    by (rule peer_fact_mono [OF t(3,4) r(2)])
  show "peer_fact_ok (ap_allowed_executable_sha256 p) (ap_denied_executable_sha256 p)
      (rq_executable_sha256 r)"
    by (rule peer_fact_mono [OF t(5,6) r(3)])
qed

lemma tightens_rest:
  assumes "tightens p q" and "permits q r"
  shows "\<not> (\<exists>t. ap_expires_at p = Some t \<and> t < rq_now r)" and "export_permitted p r"
    and "assurance_rank (ap_minimum_provider_assurance p)
      \<le> assurance_rank (rq_provider_assurance r)"
    and "ap_require_mfa p \<longrightarrow> rq_mfa_verified r"
proof -
  have "\<not> (\<exists>t. ap_expires_at q = Some t \<and> t < rq_now r)"
    and bound: "not_above (ap_expires_at p) (ap_expires_at q)"
    using assms by (simp_all add: tightens_def permits_def)
  then show "\<not> (\<exists>t. ap_expires_at p = Some t \<and> t < rq_now r)"
    using not_above_bound [OF bound] by fastforce
  have "export_permitted q r" and "ap_exportable q \<longrightarrow> ap_exportable p" and
      "ap_allow_unbound_plaintext_export q \<or> policy_has_peer_binding q \<longrightarrow>
        ap_allow_unbound_plaintext_export p \<or> policy_has_peer_binding p"
    using assms by (simp_all add: tightens_def permits_def)
  then show "export_permitted p r"
    unfolding export_permitted_def by blast
  show "assurance_rank (ap_minimum_provider_assurance p) \<le> assurance_rank (rq_provider_assurance r)"
    by (rule order_trans [of _ "assurance_rank (ap_minimum_provider_assurance q)"])
      (use assms in \<open>simp_all add: tightens_def permits_def\<close>)
  show "ap_require_mfa p \<longrightarrow> rq_mfa_verified r"
    using assms by (simp add: tightens_def permits_def)
qed

text \<open>
  C23: tightening a policy never lets a request through that the policy refused.
\<close>

theorem tightening_sound:
  assumes "tightens p q" and "er_decision (evaluate_policy q r) = Allow"
  shows "er_decision (evaluate_policy p r) = Allow"
proof -
  have q: "permits q r"
    using assms(2) by (simp add: evaluate_policy_allow_iff)
  have "rq_delivery_mode r = BrokeredHttp \<longrightarrow> http_permitted p r"
    using http_mono [OF assms(1)] q by (simp add: permits_def)
  with tightens_lists [OF assms(1) q] tightens_peer [OF assms(1) q] tightens_rest [OF assms(1) q]
  have "permits p r"
    unfolding permits_def by (intro conjI)
  then show ?thesis
    by (simp add: evaluate_policy_allow_iff)
qed

lemma tightening_sound_witness:
  "er_decision (evaluate_policy (sample_policy\<lparr>ap_allowed_consumers := [''web'', ''worker'']\<rparr>)
     sample_request) = Allow"
proof (rule tightening_sound)
  show "tightens (sample_policy\<lparr>ap_allowed_consumers := [''web'', ''worker'']\<rparr>) sample_policy"
    by (simp add: tightens_def narrows_def not_above_def sample_policy_def policy_has_peer_binding_def)
  show "er_decision (evaluate_policy sample_policy sample_request) = Allow"
    using sample_permits by (simp add: evaluate_policy_allow_iff)
qed

text \<open>
  C24: a minimum provider assurance that is not one of the six levels demands nothing: the policy then
  accepts every provider, known or not, while the lowest level refuses a provider it does not know.
\<close>

theorem unknown_minimum_assurance_fails_open:
  assumes "ap_minimum_provider_assurance p \<notin> {''A0'', ''A1'', ''A2'', ''A3'', ''A4'', ''A5''}"
  shows "allowed (evaluate [p] (r\<lparr>rq_provider_assurance := a\<rparr>))
      = allowed (evaluate [p] (r\<lparr>rq_provider_assurance := ''A5''\<rparr>)) \<and>
    (allowed (evaluate [p\<lparr>ap_minimum_provider_assurance := ''A0''\<rparr>] r) \<longrightarrow>
       rq_provider_assurance r \<in> {''A0'', ''A1'', ''A2'', ''A3'', ''A4'', ''A5''})"
proof -
  have none: "assurance_rank (ap_minimum_provider_assurance p) = -1"
    using assms by (simp add: assurance_rank_def)
  have low: "-1 \<le> assurance_rank x" for x
    by (simp add: assurance_rank_def)
  have zero: "0 \<le> assurance_rank x \<longleftrightarrow> x \<in> {''A0'', ''A1'', ''A2'', ''A3'', ''A4'', ''A5''}" for x
    by (simp add: assurance_rank_def)
  have "assurance_rank ''A0'' = 0"
    by (simp add: assurance_rank_def)
  then show ?thesis
    using none low zero [of "rq_provider_assurance r"]
    by (simp add: allowed_iff permits_def http_permitted_def export_permitted_def
        del: evaluate.simps)
qed

lemma unknown_minimum_assurance_fails_open_witness:
  "allowed (evaluate [sample_policy\<lparr>ap_minimum_provider_assurance := ''A9''\<rparr>]
     (sample_request\<lparr>rq_provider_assurance := ''''\<rparr>))"
  using unknown_minimum_assurance_fails_open
      [of "sample_policy\<lparr>ap_minimum_provider_assurance := ''A9''\<rparr>" "[]" sample_request] sample_permits
  by (simp add: allowed_iff permits_def http_permitted_def export_permitted_def peer_fact_ok_def
      assurance_rank_def sample_policy_def sample_request_def del: evaluate.simps)

section \<open>Policies as text, and tickets bound to them\<close>



end
