(* ===== verification/Bits.thy ===== *)
theory Bits
  imports Prelude
begin

text \<open>
  Regrouping a byte string into groups of fewer bits through a 32-bit buffer, as the base32 codec of
  \<open>mfa.rs\<close> and the mnemonic of \<open>recovery.rs\<close> do, and what it means on the level of bits.
\<close>

section \<open>The buffer loops\<close>

text \<open>\<open>while bits >= k\<close>: the top \<open>k\<close> of the \<open>bits\<close> pending bits go out.\<close>

function emit :: "nat \<Rightarrow> u32 \<Rightarrow> nat \<Rightarrow> nat list \<times> nat" where
  "emit k buffer bits =
     (if 0 < k \<and> k \<le> bits
      then let index = unat (and (drop_bit (bits - k) buffer) (mask k)) in
        case emit k buffer (bits - k) of (out, left) \<Rightarrow> (index # out, left)
      else ([], bits))"
  by pat_completeness auto
termination by (relation "measure (\<lambda>(k, buffer, bits). bits)") auto

declare emit.simps [simp del]

text \<open>Groups of \<open>j\<close> bits come in, groups of \<open>k\<close> bits go out; the last bits stay in the buffer.\<close>

fun regroup :: "nat \<Rightarrow> nat \<Rightarrow> u32 \<Rightarrow> nat \<Rightarrow> nat list \<Rightarrow> nat list \<times> u32 \<times> nat" where
  "regroup j k buffer bits [] = ([], buffer, bits)"
| "regroup j k buffer bits (x # xs) =
     (let buffer' = or (push_bit j buffer) (word_of_nat x);
          (out, bits') = emit k buffer' (bits + j);
          (out', rest) = regroup j k buffer' bits' xs
      in (out @ out', rest))"

section \<open>Bits\<close>

definition bits_of :: "nat \<Rightarrow> nat \<Rightarrow> bool list" where
  "bits_of n x = rev (map (bit x) [0..<n])"

definition low_bits :: "nat \<Rightarrow> u32 \<Rightarrow> bool list" where
  "low_bits n w = rev (map (bit w) [0..<n])"

lemma length_bits_of [simp]: "length (bits_of n x) = n" "length (low_bits n w) = n"
  by (simp_all add: bits_of_def low_bits_def)

lemma bits_of_inject: "x < 2 ^ n \<Longrightarrow> y < 2 ^ n \<Longrightarrow> bits_of n x = bits_of n y \<longleftrightarrow> x = y"
proof
  assume less: "x < 2 ^ n" "y < 2 ^ n" and eq: "bits_of n x = bits_of n y"
  have "bit x i = bit y i" if "i < n" for i
    using eq that by (simp add: bits_of_def)
  then have "take_bit n x = take_bit n y"
    by (auto simp: bit_eq_iff bit_take_bit_iff)
  then show "x = y"
    using less by (simp add: take_bit_nat_eq_self)
qed simp

lemma upt_add_map: "m \<le> n \<Longrightarrow> map f [0..<n] = map f [0..<m] @ map (\<lambda>i. f (i + m)) [0..<n - m]"
  by (rule nth_equalityI) (auto simp: nth_append)

lemma low_bits_split: "k \<le> n \<Longrightarrow> low_bits n w = low_bits (n - k) (drop_bit k w) @ low_bits k w"
  unfolding low_bits_def
  by (subst upt_add_map [of k n]) (simp_all add: bit_drop_bit_eq add.commute)

lemma low_bits_push:
  assumes "x < 2 ^ j" and "n + j \<le> 32"
  shows "low_bits (n + j) (or (push_bit j w) (word_of_nat x)) = low_bits n w @ bits_of j x"
proof -
  have small: "bit x i \<Longrightarrow> i < j" for i
    using assms(1) by (metis bit_take_bit_iff take_bit_nat_eq_self)
  show ?thesis
    unfolding low_bits_def bits_of_def
    by (subst upt_add_map [of j "n + j"])
      (use assms(2) in \<open>auto simp: bit_or_iff bit_push_bit_iff bit_of_nat_iff dest: small\<close>)
qed

lemma bits_of_mask:
  assumes "k \<le> 32"
  shows "bits_of k (unat (and w (mask k))) = low_bits k (w :: u32)"
    and "unat (and w (mask k)) < 2 ^ k"
proof -
  have "bit (unat (and w (mask k))) i = (i < k \<and> bit w i)" for i
    using assms by (auto simp: bit_unsigned_iff bit_and_iff bit_mask_iff dest: bit_imp_le_length)
  then show "bits_of k (unat (and w (mask k))) = low_bits k w"
    unfolding bits_of_def low_bits_def by simp
  have "and w (mask k) = take_bit k w"
    by (simp add: take_bit_eq_mask and.commute)
  then show "unat (and w (mask k)) < 2 ^ k"
    by (simp add: unsigned_take_bit_eq)
qed

lemma unat_u8_less: "unat (b :: u8) < 256"
  using unsigned_less [of b] by simp

definition all_bits :: "nat \<Rightarrow> nat list \<Rightarrow> bool list" where
  "all_bits n xs = concat (map (bits_of n) xs)"

lemma all_bits_simps [simp]:
  "all_bits n [] = []" "all_bits n (x # xs) = bits_of n x @ all_bits n xs"
  "all_bits n (xs @ ys) = all_bits n xs @ all_bits n ys" "length (all_bits n xs) = n * length xs"
  by (induction xs) (simp_all add: all_bits_def)

lemma all_bits_inject:
  "\<forall>x \<in> set xs. x < 2 ^ n \<Longrightarrow> \<forall>y \<in> set ys. y < 2 ^ n \<Longrightarrow> length xs = length ys \<Longrightarrow>
     all_bits n xs = all_bits n ys \<longleftrightarrow> xs = ys"
proof (induction xs ys rule: list_induct2')
  case (4 x xs y ys)
  then show ?case by (auto simp: bits_of_inject)
qed auto

lemma emit_bits:
  assumes "0 < k" and "k \<le> 32" and "emit k buffer bits = (out, left)"
  shows "low_bits bits buffer = all_bits k out @ low_bits left buffer \<and> left < k \<and>
    (\<forall>x \<in> set out. x < 2 ^ k)"
  using assms(3)
proof (induction bits arbitrary: out left rule: less_induct)
  case (less bits)
  show ?case
  proof (cases "k \<le> bits")
    case True
    obtain out' left' where rest: "emit k buffer (bits - k) = (out', left')"
      by fastforce
    then have out: "out = unat (and (drop_bit (bits - k) buffer) (mask k)) # out'" "left = left'"
      using less.prems assms(1) True by (simp_all add: emit.simps [of k buffer bits])
    have "low_bits bits buffer = low_bits k (drop_bit (bits - k) buffer) @ low_bits (bits - k) buffer"
      using low_bits_split [of "bits - k" bits buffer] True by simp
    then show ?thesis
      using less.IH [OF _ rest] assms(1,2) True bits_of_mask [OF assms(2)]
      by (simp add: out)
  next
    case False
    then show ?thesis
      using less.prems assms(1) by (simp add: emit.simps [of k buffer bits])
  qed
qed

lemma regroup_bits:
  assumes "0 < k" and "k + j \<le> 32" and "\<forall>x \<in> set xs. x < 2 ^ j" and "bits < k"
    and "regroup j k buffer bits xs = (out, buffer', bits')"
  shows "low_bits bits buffer @ all_bits j xs = all_bits k out @ low_bits bits' buffer' \<and> bits' < k \<and>
    (\<forall>x \<in> set out. x < 2 ^ k)"
  using assms(3-)
proof (induction xs arbitrary: buffer bits out)
  case (Cons x xs)
  let ?buffer = "or (push_bit j buffer) (word_of_nat x)"
  obtain o1 b1 where e: "emit k ?buffer (bits + j) = (o1, b1)"
    by fastforce
  obtain o2 where r: "regroup j k ?buffer b1 xs = (o2, buffer', bits')" and out: "out = o1 @ o2"
    using Cons.prems(3) e by (auto simp: Let_def split: prod.splits)
  have k: "k \<le> 32"
    using assms(2) by simp
  note emitted = emit_bits [OF assms(1) k e]
  have "low_bits (bits + j) ?buffer = low_bits bits buffer @ bits_of j x"
    using Cons.prems assms(2) by (intro low_bits_push) auto
  moreover have "low_bits b1 ?buffer @ all_bits j xs = all_bits k o2 @ low_bits bits' buffer' \<and> bits' < k \<and>
      (\<forall>x \<in> set o2. x < 2 ^ k)"
    using Cons.IH [OF _ _ r] Cons.prems(1) emitted by simp
  moreover have "low_bits bits buffer @ bits_of j x = all_bits k o1 @ low_bits b1 ?buffer"
    using calculation(1) emitted by simp
  ultimately show ?case
    using emitted by (simp add: out ball_Un flip: append_assoc) simp
qed simp

end
