(* ===== verification/Mfa.thy ===== *)
theory Mfa
  imports Bits Sample
begin

text \<open>
  Component \<open>mfa.rs\<close>: TOTP enrollment and verification, with its own base32 codec. HMAC-SHA1 is a
  parameter.
\<close>

section \<open>Base32\<close>

datatype mfa_error = InvalidSeed | InvalidCode | UnsupportedAlgorithm string

definition base32_alphabet :: string where
  "base32_alphabet = ''ABCDEFGHIJKLMNOPQRSTUVWXYZ234567''"

definition base32_encode_no_padding :: "bytes \<Rightarrow> string" where
  "base32_encode_no_padding val =
     (case regroup 8 5 0 0 (map unat val) of (indexes, buffer, bits) \<Rightarrow>
        map (\<lambda>i. base32_alphabet ! i)
          (indexes @ (if bits > 0 then [unat (and (push_bit (5 - bits) buffer) (mask 5))] else [])))"

definition base32_index :: "char \<Rightarrow> nat option" where
  "base32_index ch =
     (let u = of_char (ascii_upper ch) :: nat in
      if u \<in> {65..90} then Some (u - 65)
      else if u \<in> {50..55} then Some (of_char ch - 50 + 26)
      else None)"

definition base32_decode_no_padding :: "string \<Rightarrow> (bytes, mfa_error) result" where
  "base32_decode_no_padding val =
     (case those (map base32_index (filter (\<lambda>ch. ch \<noteq> CHR ''='') (drop_ws val))) of
        None \<Rightarrow> Err InvalidSeed
      | Some indexes \<Rightarrow>
          (let out = map word_of_nat (fst (regroup 5 8 0 0 indexes))
           in if out = [] then Err InvalidSeed else Ok out))"

lemma base32_index_alphabet: "i < 32 \<Longrightarrow> base32_index (base32_alphabet ! i) = Some i"
proof -
  have "\<forall>i \<in> set [0..<32]. base32_index (base32_alphabet ! i) = Some i"
    by (simp add: upt_rec base32_alphabet_def base32_index_def ascii_upper_def Let_def)
  then show "i < 32 \<Longrightarrow> base32_index (base32_alphabet ! i) = Some i"
    by simp
qed

lemma base32_alphabet_alnum: "i < 32 \<Longrightarrow> is_ascii_alnum (base32_alphabet ! i)"
proof -
  have "\<forall>i \<in> set [0..<32]. is_ascii_alnum (base32_alphabet ! i)"
    by (simp add: upt_rec base32_alphabet_def is_ascii_alnum_def)
  then show "i < 32 \<Longrightarrow> is_ascii_alnum (base32_alphabet ! i)"
    by simp
qed

text \<open>What encoding yields on the level of bits: the bytes' bits, padded with less than five zeros.\<close>

lemma base32_encode_bits:
  "\<exists>idx p. base32_encode_no_padding bs = map (\<lambda>i. base32_alphabet ! i) idx \<and> (\<forall>i \<in> set idx. i < 32) \<and>
     all_bits 5 idx = all_bits 8 (map unat bs) @ replicate p False \<and> p < 5"
proof -
  obtain idx buffer bits where run: "regroup 8 5 0 0 (map unat bs) = (idx, buffer, bits)"
    by (cases "regroup 8 5 0 0 (map unat bs)")
  have bytes: "\<forall>x \<in> set (map unat bs). x < 2 ^ 8"
    by (simp add: unat_u8_less)
  have "low_bits 0 0 @ all_bits 8 (map unat bs) = all_bits 5 idx @ low_bits bits buffer \<and> bits < 5 \<and>
      (\<forall>x \<in> set idx. x < 2 ^ 5)"
    by (rule regroup_bits [OF _ _ bytes _ run]) simp_all
  then have b: "all_bits 8 (map unat bs) = all_bits 5 idx @ low_bits bits buffer" "bits < 5"
      "\<forall>x \<in> set idx. x < 32"
    by (simp_all add: low_bits_def)
  show ?thesis
  proof (cases "bits = 0")
    case True
    then show ?thesis
      using b run by (intro exI [of _ idx] exI [of _ 0]) (simp add: base32_encode_no_padding_def low_bits_def)
  next
    case False
    let ?last = "unat (and (push_bit (5 - bits) buffer) (mask 5))"
    have "low_bits (bits + (5 - bits)) (or (push_bit (5 - bits) buffer) (word_of_nat 0))
        = low_bits bits buffer @ bits_of (5 - bits) 0"
      using b(2) by (intro low_bits_push) simp_all
    moreover have "bits_of (5 - bits) 0 = replicate (5 - bits) False"
      unfolding bits_of_def by (rule nth_equalityI) (simp_all add: rev_nth)
    ultimately have "bits_of 5 ?last = low_bits bits buffer @ replicate (5 - bits) False"
      using b(2) bits_of_mask(1) [of 5 "push_bit (5 - bits) buffer"] by simp
    moreover have "?last < 32"
      using bits_of_mask(2) [of 5 "push_bit (5 - bits) buffer"] by simp
    ultimately show ?thesis
      using b run False
      by (intro exI [of _ "idx @ [?last]"] exI [of _ "5 - bits"]) (simp add: base32_encode_no_padding_def)
  qed
qed

lemma ws_head_alnum: "is_ascii_alnum c \<Longrightarrow> ws_head (c # s) = 0"
proof -
  assume c: "is_ascii_alnum c"
  have first: "\<forall>q \<in> set ws_codes. hd q \<in> {9, 10, 11, 12, 13, 32, 194, 225, 226, 227} \<and> q \<noteq> []"
    by (simp add: ws_codes_def)
  have "\<not> prefix q (c # s)" if q: "q \<in> set ws_seqs" for q
  proof
    assume p: "prefix q (c # s)"
    obtain n where n: "n \<in> set ws_codes" "q = map char_of n"
      using q unfolding ws_seqs_def set_map by blast
    then have "n \<noteq> []" "hd n \<in> {9, 10, 11, 12, 13, 32, 194, 225, 226, 227}"
      using first by blast+
    moreover then have "hd q = c"
      using p n(2) by (cases n) auto
    ultimately have "c = char_of (hd n)"
      using n(2) by (simp add: hd_map)
    with c \<open>hd n \<in> _\<close> show False
      by (auto simp: is_ascii_alnum_def)
  qed
  then show ?thesis
    by (auto simp: ws_head_def find_Some_iff dest: nth_mem split: option.split)
qed

lemma drop_ws_alnum: "\<forall>c \<in> set s. is_ascii_alnum c \<Longrightarrow> drop_ws s = s"
proof (induction s)
  case Nil
  then show ?case by (simp add: drop_ws.simps)
next
  case (Cons c s)
  then show ?case by (subst drop_ws.simps) (simp add: ws_head_alnum)
qed

lemma base32_roundtrip:
  assumes "bs \<noteq> []"
  shows "base32_decode_no_padding (base32_encode_no_padding bs) = Ok bs"
proof -
  obtain idx p where e: "base32_encode_no_padding bs = map (\<lambda>i. base32_alphabet ! i) idx"
      "\<forall>i \<in> set idx. i < 32" "all_bits 5 idx = all_bits 8 (map unat bs) @ replicate p False" "p < 5"
    using base32_encode_bits by blast
  have alnum: "\<forall>c \<in> set (base32_encode_no_padding bs). is_ascii_alnum c"
    using e(1,2) base32_alphabet_alnum by auto
  then have "filter (\<lambda>ch. ch \<noteq> CHR ''='') (base32_encode_no_padding bs) = base32_encode_no_padding bs"
    by (auto simp: filter_id_conv is_ascii_alnum_def)
  moreover have "those (map base32_index (base32_encode_no_padding bs)) = Some idx"
    using e(2) those_map_Some [of idx base32_index "\<lambda>i. base32_alphabet ! i"]
    by (simp add: e(1) base32_index_alphabet)
  moreover obtain out buffer bits where run: "regroup 5 8 0 0 idx = (out, buffer, bits)"
    by (cases "regroup 5 8 0 0 idx")
  moreover have "low_bits 0 0 @ all_bits 5 idx = all_bits 8 out @ low_bits bits buffer \<and> bits < 8 \<and>
      (\<forall>x \<in> set out. x < 2 ^ 8)"
    by (rule regroup_bits [OF _ _ _ _ run]) (use e(2) in simp_all)
  then have d: "all_bits 8 (map unat bs) @ replicate p False = all_bits 8 out @ low_bits bits buffer"
      "bits < 8" "\<forall>x \<in> set out. x < 2 ^ 8"
    by (simp_all add: e(3) low_bits_def)
  have "8 * length bs + p = 8 * length out + bits"
    using arg_cong [OF d(1), of length] by simp
  with d(2) e(4) have len: "length (map unat bs) = length out"
    by simp
  then have "all_bits 8 (map unat bs) = all_bits 8 out"
    using d(1) by (simp add: append_eq_append_conv)
  then have "map unat bs = out"
    using all_bits_inject [of "map unat bs" 8 out] d(3) len by (simp add: unat_u8_less)
  then have "map word_of_nat out = bs"
    by (auto simp: comp_def)
  ultimately show ?thesis
    using assms by (simp add: base32_decode_no_padding_def drop_ws_alnum [OF alnum] Let_def)
qed

section \<open>TOTP\<close>

definition totp_secret_ref :: string where
  "totp_secret_ref = ''secret://hbse/internal/mfa/totp''"

definition default_totp_period_seconds :: u64 where
  "default_totp_period_seconds = 30"

definition default_totp_digits :: u32 where
  "default_totp_digits = 6"

record totp_config =
  tc_issuer :: string
  tc_account :: string
  tc_algorithm :: string
  tc_digits :: u32
  tc_period_seconds :: u64
  tc_secret_base32 :: string

definition enc_totp_config :: "totp_config \<Rightarrow> json" where
  "enc_totp_config c = JObj
     [(''issuer'', JStr (tc_issuer c)),
      (''account'', JStr (tc_account c)),
      (''algorithm'', JStr (tc_algorithm c)),
      (''digits'', enc_u32 (tc_digits c)),
      (''period_seconds'', enc_u64 (tc_period_seconds c)),
      (''secret_base32'', JStr (tc_secret_base32 c))]"

definition dec_totp_config :: "json \<Rightarrow> totp_config option" where
  "dec_totp_config v = do {
     m \<leftarrow> dec_obj v;
     issuer \<leftarrow> fld dec_str ''issuer'' m;
     account \<leftarrow> fld dec_str ''account'' m;
     algorithm \<leftarrow> fld dec_str ''algorithm'' m;
     digits \<leftarrow> fld dec_u32 ''digits'' m;
     period_seconds \<leftarrow> fld dec_u64 ''period_seconds'' m;
     secret_base32 \<leftarrow> fld dec_str ''secret_base32'' m;
     Some \<lparr>tc_issuer = issuer, tc_account = account, tc_algorithm = algorithm, tc_digits = digits,
       tc_period_seconds = period_seconds, tc_secret_base32 = secret_base32\<rparr>
   }"

interpretation totp_config_codec: json_codec enc_totp_config dec_totp_config "\<lambda>_. True"
proof
  show "dec_totp_config (enc_totp_config c) = Some c" for c
    by (simp add: dec_totp_config_def enc_totp_config_def)
qed

record totp_enrollment =
  te_issuer :: string
  te_account :: string
  te_algorithm :: string
  te_digits :: u32
  te_period_seconds :: u64
  te_secret_base32 :: string
  te_otpauth_uri :: string

definition percent_encode :: "string \<Rightarrow> string" where
  "percent_encode val =
     concat (map (\<lambda>c. if is_ascii_alnum c \<or> c \<in> {CHR ''-'', CHR ''_'', CHR ''.'', CHR ''~''} then [c]
       else CHR ''%'' # hex2_upper (char_byte c)) val)"

definition otpauth_uri :: "totp_config \<Rightarrow> string" where
  "otpauth_uri c =
     ''otpauth://totp/'' @ percent_encode (tc_issuer c) @ '':'' @ percent_encode (tc_account c)
       @ ''?secret='' @ tc_secret_base32 c @ ''&issuer='' @ percent_encode (tc_issuer c)
       @ ''&algorithm='' @ tc_algorithm c @ ''&digits='' @ nat_dec (unat (tc_digits c))
       @ ''&period='' @ nat_dec (unat (tc_period_seconds c))"

definition enrollment :: "totp_config \<Rightarrow> totp_enrollment" where
  "enrollment c =
     \<lparr>te_issuer = tc_issuer c, te_account = tc_account c, te_algorithm = tc_algorithm c,
      te_digits = tc_digits c, te_period_seconds = tc_period_seconds c,
      te_secret_base32 = tc_secret_base32 c, te_otpauth_uri = otpauth_uri c\<rparr>"

definition new_totp_config :: "env \<Rightarrow> string \<Rightarrow> string \<Rightarrow> ('z sys_scheme, totp_config, 'e) act" where
  "new_totp_config E issuer account =
     bnd (random_bytes E 20) (\<lambda>secret.
     ret \<lparr>tc_issuer = issuer, tc_account = account, tc_algorithm = ''SHA1'',
       tc_digits = default_totp_digits, tc_period_seconds = default_totp_period_seconds,
       tc_secret_base32 = base32_encode_no_padding secret\<rparr>)"

definition be64 :: "u64 \<Rightarrow> bytes" where
  "be64 x = map (\<lambda>i. ucast (drop_bit (8 * i) x)) [7, 6, 5, 4, 3, 2, 1, 0]"

text \<open>
  The digest of HMAC-SHA1 has 20 bytes, so the four indices from a nibble are in range.
  \<open>checked_pow\<close> of ten fails from ten digits on.
\<close>

definition totp_at_step :: "env \<Rightarrow> bytes \<Rightarrow> u64 \<Rightarrow> u32 \<Rightarrow> (string, mfa_error) result" where
  "totp_at_step E secret step digits =
     (let digest = e_hmac_sha1 E secret (be64 step);
          offset = unat (and (digest ! 19) 0x0f);
          binary = or (push_bit 24 (ucast (and (digest ! offset) 0x7f)))
            (or (push_bit 16 (ucast (digest ! (offset + 1))))
            (or (push_bit 8 (ucast (digest ! (offset + 2)))) (ucast (digest ! (offset + 3))))) :: u32
      in if 10 ^ unat digits < (2 ^ 32 :: nat)
         then Ok (zero_pad (unat digits) (nat_dec (unat binary mod 10 ^ unat digits)))
         else Err InvalidCode)"

definition normalize_code :: "string \<Rightarrow> (string, mfa_error) result" where
  "normalize_code code =
     (let normalized = drop_ws code in
      if normalized = [] \<or> \<not> list_all is_ascii_digit normalized then Err InvalidCode
      else Ok normalized)"

text \<open>The loop over the offsets; a step before the epoch is skipped.\<close>

fun try_steps :: "env \<Rightarrow> bytes \<Rightarrow> u32 \<Rightarrow> string \<Rightarrow> int \<Rightarrow> int list \<Rightarrow> (bool, mfa_error) result" where
  "try_steps E secret digits code step [] = Ok False"
| "try_steps E secret digits code step (offset # rest) =
     (let candidate_step = step + offset in
      if candidate_step < 0 then try_steps E secret digits code step rest
      else bind_r (totp_at_step E secret (word_of_int candidate_step) digits)
        (\<lambda>candidate. if candidate = code then Ok True else try_steps E secret digits code step rest))"

definition verify_totp_code :: "env \<Rightarrow> totp_config \<Rightarrow> string \<Rightarrow> u64 \<Rightarrow> int \<Rightarrow> (bool, mfa_error) result" where
  "verify_totp_code E c code unix_time_seconds allowed_drift_steps =
     (if \<not> eq_ignore_case (tc_algorithm c) ''SHA1'' then Err (UnsupportedAlgorithm (tc_algorithm c))
      else bind_r (normalize_code code) (\<lambda>code.
        bind_r (base32_decode_no_padding (tc_secret_base32 c)) (\<lambda>secret.
        let period = max (tc_period_seconds c) 1;
            step = sint (unix_time_seconds div period)
        in try_steps E secret (tc_digits c) code step [- allowed_drift_steps..allowed_drift_steps])))"

section \<open>Properties\<close>

text \<open>
  An enrolled seed survives its text form: base32 without padding decodes to the bytes that were
  encoded, for every non-empty seed, through the 32-bit buffers of both loops.
\<close>

theorem base32_seed_roundtrip:
  assumes "seed \<noteq> []"
  shows "base32_decode_no_padding (base32_encode_no_padding seed) = Ok seed"
  using assms by (rule base32_roundtrip)

lemma base32_seed_roundtrip_witness:
  "base32_decode_no_padding (base32_encode_no_padding [222, 173, 190, 239]) = Ok [222, 173, 190, 239]"
  by (rule base32_seed_roundtrip) simp

lemma try_steps_eq:
  assumes "10 ^ unat digits < (2 ^ 32 :: nat)"
  shows "try_steps E secret digits code step os =
    Ok (\<exists>k \<in> set os. 0 \<le> step + k \<and> totp_at_step E secret (word_of_int (step + k)) digits = Ok code)"
proof (induction os)
  case (Cons k os)
  obtain c where "totp_at_step E secret (word_of_int (step + k)) digits = Ok c"
    using assms by (simp add: totp_at_step_def Let_def)
  then show ?case
    by (auto simp: Let_def Cons.IH)
qed simp

lemma totp_code_length:
  assumes "totp_at_step E secret step digits = Ok code" and "digits \<noteq> 0"
  shows "length code = unat digits"
proof -
  have pos: "0 < unat digits"
    using assms(2) by (simp add: unat_gt_0)
  obtain n where n: "code = zero_pad (unat digits) (nat_dec (n mod 10 ^ unat digits))"
    using assms(1) by (auto simp: totp_at_step_def Let_def split: if_splits)
  have "length (nat_dec (n mod 10 ^ unat digits)) \<le> unat digits"
    using pos by (intro nat_dec_length) simp_all
  then show ?thesis
    by (simp add: n zero_pad_def)
qed

text \<open>
  A TOTP code is accepted exactly when it is the code of one of the time steps within the drift
  allowed around the current one, none before the epoch; and an accepted code has exactly as many
  digits as the enrollment says.
\<close>

theorem totp_window:
  assumes "eq_ignore_case (tc_algorithm c) ''SHA1''" and "normalize_code code = Ok digits_only"
    and "base32_decode_no_padding (tc_secret_base32 c) = Ok secret" and "10 ^ unat (tc_digits c) < (2 ^ 32 :: nat)"
    and "tc_digits c \<noteq> 0"
  shows "\<exists>accepted. verify_totp_code E c code time drift = Ok accepted \<and>
    (accepted \<longleftrightarrow> (\<exists>k. \<bar>k - sint (time div max (tc_period_seconds c) 1)\<bar> \<le> drift \<and> 0 \<le> k \<and>
       totp_at_step E secret (word_of_int k) (tc_digits c) = Ok digits_only)) \<and>
    (accepted \<longrightarrow> length digits_only = unat (tc_digits c))"
proof -
  let ?step = "sint (time div max (tc_period_seconds c) 1)"
  let ?hit = "\<exists>k. \<bar>k - ?step\<bar> \<le> drift \<and> 0 \<le> k \<and>
    totp_at_step E secret (word_of_int k) (tc_digits c) = Ok digits_only"
  have "(\<exists>o1 \<in> set [- drift..drift]. 0 \<le> ?step + o1 \<and>
      totp_at_step E secret (word_of_int (?step + o1)) (tc_digits c) = Ok digits_only) \<longleftrightarrow> ?hit"
  proof
    assume ?hit
    then obtain k where "\<bar>k - ?step\<bar> \<le> drift" "0 \<le> k"
        "totp_at_step E secret (word_of_int k) (tc_digits c) = Ok digits_only"
      by blast
    then show "\<exists>o1 \<in> set [- drift..drift]. 0 \<le> ?step + o1 \<and>
        totp_at_step E secret (word_of_int (?step + o1)) (tc_digits c) = Ok digits_only"
      by (intro bexI [of _ "k - ?step"]) auto
  next
    assume "\<exists>o1 \<in> set [- drift..drift]. 0 \<le> ?step + o1 \<and>
        totp_at_step E secret (word_of_int (?step + o1)) (tc_digits c) = Ok digits_only"
    then show ?hit
      by (force intro: exI [of _ "?step + o1" for o1])
  qed
  then have "verify_totp_code E c code time drift = Ok ?hit"
    using assms(1-3) try_steps_eq [OF assms(4)] by (simp add: verify_totp_code_def Let_def)
  moreover have "?hit \<longrightarrow> length digits_only = unat (tc_digits c)"
    using totp_code_length assms(5) by blast
  ultimately show ?thesis
    by blast
qed

definition sample_totp :: totp_config where
  "sample_totp =
     \<lparr>tc_issuer = ''HBSE'', tc_account = ''me'', tc_algorithm = ''SHA1'', tc_digits = 6,
      tc_period_seconds = 30, tc_secret_base32 = ''GEZDGNBV''\<rparr>"

lemma totp_window_witness:
  "\<exists>accepted. verify_totp_code sample_env sample_totp ''000000'' 59 1 = Ok accepted \<and>
     (accepted \<longrightarrow> length ''000000'' = unat (tc_digits sample_totp))"
proof -
  have code: "normalize_code ''000000'' = Ok ''000000''"
    using drop_ws_alnum [of "''000000''"]
    by (simp add: normalize_code_def is_ascii_alnum_def is_ascii_digit_def)
  have "base32_encode_no_padding [49, 50, 51, 52, 53] = ''GEZDGNBV''"
    by code_simp
  then have seed: "base32_decode_no_padding (tc_secret_base32 sample_totp) = Ok [49, 50, 51, 52, 53]"
    using base32_roundtrip [of "[49, 50, 51, 52, 53]"] by (simp add: sample_totp_def)
  have facts: "eq_ignore_case (tc_algorithm sample_totp) ''SHA1''"
      "10 ^ unat (tc_digits sample_totp) < (2 ^ 32 :: nat)" "tc_digits sample_totp \<noteq> 0"
    by (simp_all add: sample_totp_def eq_ignore_case_def)
  show ?thesis
    using totp_window [OF facts(1) code seed facts(2,3), of sample_env 59 1] by blast
qed

end
