(* ===== verification/Providers.thy ===== *)
theory Providers
  imports Store Utf8
begin

text \<open>
  Components \<open>provider.rs\<close>, \<open>provider_system.rs\<close>, \<open>provider_tpm2.rs\<close>, \<open>provider_tpm2_esapi.rs\<close>,
  \<open>provider_yubikey.rs\<close> and \<open>provider_catalog.rs\<close>: how a vault's root key is wrapped for storage and
  unwrapped again. scrypt, AES-GCM, the \<open>tpm2-tools\<close> programs and the TSS library are parameters.
\<close>

section \<open>The passphrase provider\<close>

definition passphrase_provider_id :: string where
  "passphrase_provider_id = ''passphrase-scrypt-aesgcm''"

datatype provider_error =
    ProvInvalidRootKeyLength | EmptyPassphrase | ProvUnsupportedProvider | ProvInvalidKdfParameters
  | ProvDecode | ProvUnlockFailed

record scrypt_params =
  sp_n :: u32
  sp_r :: u32
  sp_p :: u32

definition default_scrypt_params :: scrypt_params where
  "default_scrypt_params = \<lparr>sp_n = 2 ^ 14, sp_r = 8, sp_p = 1\<rparr>"

definition enc_scrypt_params :: "scrypt_params \<Rightarrow> json" where
  "enc_scrypt_params p = to_value
     [(''n'', enc_u32 (sp_n p)), (''r'', enc_u32 (sp_r p)), (''p'', enc_u32 (sp_p p))]"

definition dec_scrypt_params :: "json \<Rightarrow> scrypt_params option" where
  "dec_scrypt_params v = do {
     m \<leftarrow> dec_obj v;
     n \<leftarrow> fld dec_u32 ''n'' m;
     r \<leftarrow> fld dec_u32 ''r'' m;
     p \<leftarrow> fld dec_u32 ''p'' m;
     Some \<lparr>sp_n = n, sp_r = r, sp_p = p\<rparr>
   }"

record passphrase_binding =
  pb_provider_id :: string
  pb_kdf :: string
  pb_kdf_params :: scrypt_params
  pb_salt :: string
  pb_nonce :: string
  pb_wrapped_root_key :: string
  pb_assurance_level :: string
  pb_warning :: string

text \<open>Bindings are kept as a \<open>serde_json::Value\<close>, a sorted map.\<close>

definition enc_passphrase_binding :: "passphrase_binding \<Rightarrow> json" where
  "enc_passphrase_binding b = to_value
     [(''provider_id'', JStr (pb_provider_id b)),
      (''kdf'', JStr (pb_kdf b)),
      (''kdf_params'', enc_scrypt_params (pb_kdf_params b)),
      (''salt'', JStr (pb_salt b)),
      (''nonce'', JStr (pb_nonce b)),
      (''wrapped_root_key'', JStr (pb_wrapped_root_key b)),
      (''assurance_level'', JStr (pb_assurance_level b)),
      (''warning'', JStr (pb_warning b))]"

definition dec_passphrase_binding :: "json \<Rightarrow> passphrase_binding option" where
  "dec_passphrase_binding v = do {
     m \<leftarrow> dec_obj v;
     provider_id \<leftarrow> fld dec_str ''provider_id'' m;
     kdf \<leftarrow> fld dec_str ''kdf'' m;
     kdf_params \<leftarrow> fld dec_scrypt_params ''kdf_params'' m;
     salt \<leftarrow> fld dec_str ''salt'' m;
     nonce \<leftarrow> fld dec_str ''nonce'' m;
     wrapped_root_key \<leftarrow> fld dec_str ''wrapped_root_key'' m;
     assurance_level \<leftarrow> fld dec_str ''assurance_level'' m;
     warning \<leftarrow> fld dec_str ''warning'' m;
     Some \<lparr>pb_provider_id = provider_id, pb_kdf = kdf, pb_kdf_params = kdf_params, pb_salt = salt,
       pb_nonce = nonce, pb_wrapped_root_key = wrapped_root_key, pb_assurance_level = assurance_level,
       pb_warning = warning\<rparr>
   }"

lemma fld_to_value [simp]:
  "distinct (map fst fs) \<Longrightarrow> map_of fs k = Some v \<Longrightarrow> fld d k (map_build fs) = d v"
  "distinct (map fst fs) \<Longrightarrow> map_of fs k = Some v \<Longrightarrow> fld_opt d k (map_build fs) = dec_opt d v"
  "distinct (map fst fs) \<Longrightarrow> map_of fs k = Some v \<Longrightarrow> fld_def d x k (map_build fs) = d v"
  by (simp_all add: map_of_build_distinct)

interpretation scrypt_params_codec: json_codec enc_scrypt_params dec_scrypt_params "\<lambda>_. True"
proof
  show "dec_scrypt_params (enc_scrypt_params p) = Some p" for p
    by (simp add: dec_scrypt_params_def enc_scrypt_params_def to_value_def)
qed

declare scrypt_params_codec.dec_enc [simp]

interpretation passphrase_binding_codec: json_codec enc_passphrase_binding dec_passphrase_binding "\<lambda>_. True"
proof
  show "dec_passphrase_binding (enc_passphrase_binding b) = Some b" for b
    by (simp add: dec_passphrase_binding_def enc_passphrase_binding_def to_value_def)
qed

lemma enc_binding_ok [simp]:
  "json_ok (enc_scrypt_params p)" "float_free (enc_scrypt_params p)"
  "json_ok (enc_passphrase_binding b)" "float_free (enc_passphrase_binding b)"
proof -
  show params: "json_ok (enc_scrypt_params p)" "float_free (enc_scrypt_params p)" for p
    unfolding enc_scrypt_params_def by (rule to_value_ok; simp)+
  show "json_ok (enc_passphrase_binding b)" "float_free (enc_passphrase_binding b)"
    unfolding enc_passphrase_binding_def by (rule to_value_ok; simp add: params)+
qed

text \<open>\<open>checked_ilog2\<close>; the derivation then insists that \<open>n\<close> is a power of two.\<close>

fun floor_log2 :: "nat \<Rightarrow> nat" where
  "floor_log2 n = (if n < 2 then 0 else Suc (floor_log2 (n div 2)))"

declare floor_log2.simps [simp del]

definition checked_ilog2 :: "u32 \<Rightarrow> nat option" where
  "checked_ilog2 n = (if n = 0 then None else Some (floor_log2 (unat n)))"

definition scrypt_key :: "env \<Rightarrow> scrypt_params \<Rightarrow> bytes \<Rightarrow> bytes \<Rightarrow> 'e \<Rightarrow> (bytes, 'e) result" where
  "scrypt_key E params input salt invalid =
     bind_r (ok_or (checked_ilog2 (sp_n params)) invalid) (\<lambda>log_n.
     if push_bit log_n 1 \<noteq> sp_n params then Err invalid
     else ok_or (e_scrypt E input salt log_n (sp_r params) (sp_p params)) invalid)"

definition passphrase_derive :: "env \<Rightarrow> scrypt_params \<Rightarrow> string \<Rightarrow> bytes \<Rightarrow> (bytes, provider_error) result" where
  "passphrase_derive E params passphrase salt =
     (if passphrase = [] then Err EmptyPassphrase
      else scrypt_key E params (as_bytes passphrase) salt ProvInvalidKdfParameters)"

definition provider_aad :: "env \<Rightarrow> string \<Rightarrow> (bytes, 'e) result" where
  "provider_aad E vault_id =
     expect_r (canonical E (to_value
       [(''provider_id'', JStr passphrase_provider_id),
        (''record_type'', JStr ''vault-root-wrap''),
        (''vault_id'', JStr vault_id)]))"

definition passphrase_to_nonce :: "bytes \<Rightarrow> (bytes, provider_error) result" where
  "passphrase_to_nonce val = (if length val = 12 then Ok val else Err ProvUnlockFailed)"

definition passphrase_wrap :: "env \<Rightarrow> scrypt_params \<Rightarrow> string \<Rightarrow> bytes \<Rightarrow> string
    \<Rightarrow> ('z sys_scheme, passphrase_binding, provider_error) act" where
  "passphrase_wrap E params vault_id root_key passphrase =
     (if length root_key \<noteq> key_size then fail ProvInvalidRootKeyLength
      else
     bnd (random_bytes E 16) (\<lambda>salt.
     bnd (random_bytes E 12) (\<lambda>nonce.
     bnd (lift_r (passphrase_derive E params passphrase salt)) (\<lambda>wrapping_key.
     bnd (lift_r (provider_aad E vault_id)) (\<lambda>aad.
     bnd (lift_r (ok_or (e_aes_enc E wrapping_key nonce root_key aad) ProvUnlockFailed)) (\<lambda>wrapped.
     ret \<lparr>pb_provider_id = passphrase_provider_id, pb_kdf = ''scrypt'', pb_kdf_params = params,
       pb_salt = e_b64url E salt, pb_nonce = e_b64url E nonce,
       pb_wrapped_root_key = e_b64url E wrapped, pb_assurance_level = ''A1'',
       pb_warning = ''MVP passphrase provider; enroll a hardware provider before production use.''\<rparr>))))))"

definition passphrase_unwrap :: "env \<Rightarrow> string \<Rightarrow> passphrase_binding \<Rightarrow> string
    \<Rightarrow> (bytes, provider_error) result" where
  "passphrase_unwrap E vault_id b passphrase =
     (if pb_provider_id b \<noteq> passphrase_provider_id then Err ProvUnsupportedProvider
      else
     bind_r (ok_or (e_b64url_dec E (pb_salt b)) ProvDecode) (\<lambda>salt.
     bind_r (ok_or (e_b64url_dec E (pb_nonce b)) ProvDecode) (\<lambda>nonce0.
     bind_r (ok_or (e_b64url_dec E (pb_wrapped_root_key b)) ProvDecode) (\<lambda>wrapped.
     bind_r (passphrase_derive E (pb_kdf_params b) passphrase salt) (\<lambda>wrapping_key.
     bind_r (passphrase_to_nonce nonce0) (\<lambda>nonce.
     bind_r (provider_aad E vault_id) (\<lambda>aad.
     bind_r (ok_or (e_aes_dec E wrapping_key nonce wrapped aad) ProvUnlockFailed) (\<lambda>root_key.
     if length root_key = key_size then Ok root_key else Err ProvUnlockFailed))))))))"

section \<open>The system fingerprint provider\<close>

definition system_fingerprint_provider_id :: string where
  "system_fingerprint_provider_id = ''system-fingerprint-scrypt-aesgcm''"

datatype system_error =
    SysInvalidRootKeyLength | SysUnsupportedProvider | NoUsableComponents | FingerprintMismatch
  | SysInvalidKdfParameters | SysDecode | SysUnlockFailed

record component =
  cp_name :: string
  cp_source :: string
  cp_sha256 :: string

record system_status =
  st_available :: bool
  st_component_count :: nat
  st_components :: "component list"
  st_fingerprint_sha256 :: string
  st_detail :: string

record system_binding =
  sb_provider_id :: string
  sb_kdf :: string
  sb_kdf_params :: scrypt_params
  sb_salt :: string
  sb_nonce :: string
  sb_wrapped_root_key :: string
  sb_fingerprint_sha256 :: string
  sb_components :: "component list"
  sb_assurance_level :: string
  sb_warning :: string

definition enc_component :: "component \<Rightarrow> json" where
  "enc_component c = to_value
     [(''name'', JStr (cp_name c)), (''source'', JStr (cp_source c)), (''sha256'', JStr (cp_sha256 c))]"

definition dec_component :: "json \<Rightarrow> component option" where
  "dec_component v = do {
     m \<leftarrow> dec_obj v;
     name \<leftarrow> fld dec_str ''name'' m;
     source \<leftarrow> fld dec_str ''source'' m;
     sha256 \<leftarrow> fld dec_str ''sha256'' m;
     Some \<lparr>cp_name = name, cp_source = source, cp_sha256 = sha256\<rparr>
   }"

interpretation component_codec: json_codec enc_component dec_component "\<lambda>_. True"
proof
  show "dec_component (enc_component c) = Some c" for c
    by (simp add: dec_component_def enc_component_def to_value_def)
qed

declare component_codec.dec_enc [simp]

definition enc_system_binding :: "system_binding \<Rightarrow> json" where
  "enc_system_binding b = to_value
     [(''provider_id'', JStr (sb_provider_id b)),
      (''kdf'', JStr (sb_kdf b)),
      (''kdf_params'', enc_scrypt_params (sb_kdf_params b)),
      (''salt'', JStr (sb_salt b)),
      (''nonce'', JStr (sb_nonce b)),
      (''wrapped_root_key'', JStr (sb_wrapped_root_key b)),
      (''fingerprint_sha256'', JStr (sb_fingerprint_sha256 b)),
      (''components'', enc_list enc_component (sb_components b)),
      (''assurance_level'', JStr (sb_assurance_level b)),
      (''warning'', JStr (sb_warning b))]"

definition dec_system_binding :: "json \<Rightarrow> system_binding option" where
  "dec_system_binding v = do {
     m \<leftarrow> dec_obj v;
     provider_id \<leftarrow> fld dec_str ''provider_id'' m;
     kdf \<leftarrow> fld dec_str ''kdf'' m;
     kdf_params \<leftarrow> fld dec_scrypt_params ''kdf_params'' m;
     salt \<leftarrow> fld dec_str ''salt'' m;
     nonce \<leftarrow> fld dec_str ''nonce'' m;
     wrapped_root_key \<leftarrow> fld dec_str ''wrapped_root_key'' m;
     fingerprint \<leftarrow> fld dec_str ''fingerprint_sha256'' m;
     components \<leftarrow> fld (dec_list dec_component) ''components'' m;
     assurance_level \<leftarrow> fld dec_str ''assurance_level'' m;
     warning \<leftarrow> fld dec_str ''warning'' m;
     Some \<lparr>sb_provider_id = provider_id, sb_kdf = kdf, sb_kdf_params = kdf_params, sb_salt = salt,
       sb_nonce = nonce, sb_wrapped_root_key = wrapped_root_key, sb_fingerprint_sha256 = fingerprint,
       sb_components = components, sb_assurance_level = assurance_level, sb_warning = warning\<rparr>
   }"

interpretation system_binding_codec: json_codec enc_system_binding dec_system_binding "\<lambda>_. True"
proof
  show "dec_system_binding (enc_system_binding b) = Some b" for b
    by (simp add: dec_system_binding_def enc_system_binding_def to_value_def)
qed

definition usable_component :: "string \<Rightarrow> string option" where
  "usable_component text =
     (let val = trim text in
      if val = [] \<or> eq_ignore_case val ''none'' \<or> eq_ignore_case val ''unknown''
        \<or> list_all (\<lambda>c. c = CHR ''0'' \<or> c = CHR ''-'') val
      then None else Some val)"

definition read_component :: "env \<Rightarrow> string \<Rightarrow> ('z sys_scheme, string option, 'e) act" where
  "read_component E path =
     (\<lambda>w. (Ok (Option.bind (e_read_text E (tick w) path) usable_component), w\<lparr>tick := Suc (tick w)\<rparr>))"

definition component_candidates :: "(string \<times> string) list" where
  "component_candidates =
     [(''machine-id'', ''/etc/machine-id''),
      (''dbus-machine-id'', ''/var/lib/dbus/machine-id''),
      (''dmi-product-uuid'', ''/sys/class/dmi/id/product_uuid''),
      (''dmi-board-serial'', ''/sys/class/dmi/id/board_serial''),
      (''dmi-product-serial'', ''/sys/class/dmi/id/product_serial'')]"

fun read_components :: "env \<Rightarrow> (string \<times> string) list \<Rightarrow> ('z sys_scheme, component list, 'e) act" where
  "read_components E [] = ret []"
| "read_components E ((name, source) # rest) =
     bnd (read_component E source) (\<lambda>val.
     bnd (read_components E rest) (\<lambda>cs.
     ret (case val of
        None \<Rightarrow> cs
      | Some v \<Rightarrow> \<lparr>cp_name = name, cp_source = source,
          cp_sha256 = e_b64url E (e_sha256 E (as_bytes v))\<rparr> # cs)))"

definition sort_components :: "component list \<Rightarrow> component list" where
  "sort_components cs = sort_key (\<lambda>c. (cp_name c, cp_source c)) cs"

fun dedup_by :: "('a \<Rightarrow> 'a \<Rightarrow> bool) \<Rightarrow> 'a list \<Rightarrow> 'a list" where
  "dedup_by same (x # y # xs) =
     (if same y x then dedup_by same (x # xs) else x # dedup_by same (y # xs))"
| "dedup_by same xs = xs"

definition collect_components :: "env \<Rightarrow> ('z sys_scheme, component list option, 'e) act" where
  "collect_components E =
     bnd (read_components E component_candidates) (\<lambda>cs.
     let components = dedup_by (\<lambda>l r. cp_name l = cp_name r \<and> cp_sha256 l = cp_sha256 r)
       (sort_components cs)
     in ret (if components = [] then None else Some components))"

definition components_json :: "component list \<Rightarrow> json" where
  "components_json cs = to_value
     [(''provider_id'', JStr system_fingerprint_provider_id),
      (''components'', enc_list enc_component cs)]"

definition fingerprint_sha256 :: "env \<Rightarrow> component list \<Rightarrow> (string, 'e) result" where
  "fingerprint_sha256 E cs =
     bind_r (expect_r (canonical E (components_json (sort_components cs))))
       (\<lambda>b. Ok (e_b64url E (e_sha256 E b)))"

definition system_aad :: "env \<Rightarrow> string \<Rightarrow> string \<Rightarrow> (bytes, 'e) result" where
  "system_aad E vault_id fingerprint =
     expect_r (canonical E (to_value
       [(''provider_id'', JStr system_fingerprint_provider_id),
        (''record_type'', JStr ''vault-root-wrap''),
        (''vault_id'', JStr vault_id),
        (''fingerprint_sha256'', JStr fingerprint)]))"

definition system_derive :: "env \<Rightarrow> scrypt_params \<Rightarrow> component list \<Rightarrow> bytes \<Rightarrow> (bytes, system_error) result" where
  "system_derive E params cs salt =
     bind_r (map_err (\<lambda>_. SysUnlockFailed) (canonical E (components_json cs))) (\<lambda>fingerprint.
     scrypt_key E params fingerprint salt SysInvalidKdfParameters)"

definition system_to_nonce :: "bytes \<Rightarrow> (bytes, system_error) result" where
  "system_to_nonce val = (if length val = 12 then Ok val else Err SysUnlockFailed)"

definition require_components :: "env \<Rightarrow> ('z sys_scheme, component list, system_error) act" where
  "require_components E =
     bnd (collect_components E) (\<lambda>cs. lift_r (ok_or cs NoUsableComponents))"

definition system_wrap :: "env \<Rightarrow> scrypt_params \<Rightarrow> string \<Rightarrow> bytes
    \<Rightarrow> ('z sys_scheme, system_binding, system_error) act" where
  "system_wrap E params vault_id root_key =
     (if length root_key \<noteq> key_size then fail SysInvalidRootKeyLength
      else
     bnd (require_components E) (\<lambda>cs.
     bnd (lift_r (fingerprint_sha256 E cs)) (\<lambda>fingerprint.
     bnd (random_bytes E 16) (\<lambda>salt.
     bnd (random_bytes E 12) (\<lambda>nonce.
     bnd (lift_r (system_derive E params cs salt)) (\<lambda>wrapping_key.
     bnd (lift_r (system_aad E vault_id fingerprint)) (\<lambda>aad.
     bnd (lift_r (ok_or (e_aes_enc E wrapping_key nonce root_key aad) SysUnlockFailed)) (\<lambda>wrapped.
     ret \<lparr>sb_provider_id = system_fingerprint_provider_id, sb_kdf = ''scrypt'',
       sb_kdf_params = params, sb_salt = e_b64url E salt, sb_nonce = e_b64url E nonce,
       sb_wrapped_root_key = e_b64url E wrapped, sb_fingerprint_sha256 = fingerprint,
       sb_components = cs, sb_assurance_level = ''A1'',
       sb_warning = ''System fingerprint provider binds the vault to local machine identifiers but is not hardware-backed and may break after motherboard, OS identity, or VM image changes.''\<rparr>))))))))"

definition system_unwrap :: "env \<Rightarrow> string \<Rightarrow> system_binding \<Rightarrow> ('z sys_scheme, bytes, system_error) act" where
  "system_unwrap E vault_id b =
     (if sb_provider_id b \<noteq> system_fingerprint_provider_id then fail SysUnsupportedProvider
      else
     bnd (require_components E) (\<lambda>cs.
     bnd (lift_r (fingerprint_sha256 E cs)) (\<lambda>fingerprint.
     if fingerprint \<noteq> sb_fingerprint_sha256 b then fail FingerprintMismatch
     else lift_r (
     bind_r (ok_or (e_b64url_dec E (sb_salt b)) SysDecode) (\<lambda>salt.
     bind_r (ok_or (e_b64url_dec E (sb_nonce b)) SysDecode) (\<lambda>nonce0.
     bind_r (ok_or (e_b64url_dec E (sb_wrapped_root_key b)) SysDecode) (\<lambda>wrapped.
     bind_r (system_derive E (sb_kdf_params b) cs salt) (\<lambda>wrapping_key.
     bind_r (system_to_nonce nonce0) (\<lambda>nonce.
     bind_r (system_aad E vault_id (sb_fingerprint_sha256 b)) (\<lambda>aad.
     bind_r (ok_or (e_aes_dec E wrapping_key nonce wrapped aad) SysUnlockFailed) (\<lambda>root_key.
     if length root_key = key_size then Ok root_key else Err SysUnlockFailed))))))))))) "

definition system_detect :: "env \<Rightarrow> ('z sys_scheme, system_status, 'e) act" where
  "system_detect E =
     bnd (collect_components E) (\<lambda>found.
     let components = (case found of None \<Rightarrow> [] | Some cs \<Rightarrow> cs);
         available = (components \<noteq> []) in
     bnd (if available then lift_r (fingerprint_sha256 E components) else ret []) (\<lambda>fingerprint.
     ret \<lparr>st_available = available, st_component_count = length components,
       st_components = components, st_fingerprint_sha256 = fingerprint,
       st_detail = (if available
         then ''system fingerprint available from '' @ nat_dec (length components) @ '' stable component(s)''
         else ''no usable stable system fingerprint components found'')\<rparr>))"

lemma floor_log2_power [simp]: "floor_log2 (2 ^ k) = k"
proof (induction k)
  case 0
  then show ?case by (simp add: floor_log2.simps)
next
  case (Suc k)
  have "floor_log2 (2 ^ Suc k) = Suc (floor_log2 (2 ^ Suc k div 2))"
    by (subst floor_log2.simps) simp
  with Suc show ?case by simp
qed

section \<open>What a provider promises\<close>

text \<open>
  A provider wraps a root key for a vault into a binding and unwraps it later. \<open>stable\<close> says that
  what the provider depends on outside the vault behaves as documented and is as it was; \<open>ready\<close>
  holds of the states in which the provider can be reached.
\<close>

locale root_key_provider =
  fixes wrap :: "string \<Rightarrow> bytes \<Rightarrow> ('z sys_scheme, 'b, 'e) act"
    and unwrap :: "string \<Rightarrow> 'b \<Rightarrow> ('z sys_scheme, bytes, 'e) act"
    and stable :: bool
    and ready :: "'z sys_scheme \<Rightarrow> bool"
  assumes wrap_size: "wrap vid rk w = (Ok b, w') \<Longrightarrow> length rk = key_size"
    and unwrap_size: "unwrap vid b w = (Ok rk, w') \<Longrightarrow> length rk = key_size"
    and unwrap_wrap: "stable \<Longrightarrow> wrap vid rk w = (Ok b, w') \<Longrightarrow> ready v \<Longrightarrow>
      fst (unwrap vid b v) = Ok rk"
begin

lemma unwrap_only_own:
  assumes "stable" and "wrap vid rk w = (Ok b, w')" and "ready v" and "unwrap vid b v = (Ok rk', v')"
  shows "rk' = rk"
  using unwrap_wrap [OF assms(1-3)] assms(4) by simp

text \<open>A binding of a binding's key opens to the same key: the providers can be changed any number of times.\<close>

lemma rewrap:
  assumes "stable" and "wrap vid rk w = (Ok b, w1)" and "ready v" and "unwrap vid b v = (Ok rk', v1)"
    and "wrap vid rk' u = (Ok b', u1)" and "ready x"
  shows "fst (unwrap vid b' x) = Ok rk"
  using unwrap_wrap [OF assms(1,5,6)] unwrap_only_own [OF assms(1-4)] by simp

end

lemma lift_r_run [simp]: "bnd (lift_r (Ok x)) f = f x" "fst (lift_r r w) = r"
  by (simp_all add: bnd_def lift_r_def)

lemma provider_aad_eq:
  "provider_aad E vid = Ok (as_bytes (e_json_print E (to_value
     [(''provider_id'', JStr passphrase_provider_id), (''record_type'', JStr ''vault-root-wrap''),
      (''vault_id'', JStr vid)])))"
  using canonical_to_value [of "[(''provider_id'', JStr passphrase_provider_id),
      (''record_type'', JStr ''vault-root-wrap''), (''vault_id'', JStr vid)]" "e_json_print E"]
  by (simp add: provider_aad_def canonical_def expect_r_def)

lemma system_aad_eq:
  "system_aad E vid f = Ok (as_bytes (e_json_print E (to_value
     [(''provider_id'', JStr system_fingerprint_provider_id), (''record_type'', JStr ''vault-root-wrap''),
      (''vault_id'', JStr vid), (''fingerprint_sha256'', JStr f)])))"
  using canonical_to_value [of "[(''provider_id'', JStr system_fingerprint_provider_id),
      (''record_type'', JStr ''vault-root-wrap''), (''vault_id'', JStr vid),
      (''fingerprint_sha256'', JStr f)]" "e_json_print E"]
  by (simp add: system_aad_def canonical_def expect_r_def)

lemma enc_component_ok [simp]: "json_ok (enc_component c)" "float_free (enc_component c)"
  unfolding enc_component_def by (rule to_value_ok; simp)+

lemma components_canonical:
  "canonical E (components_json cs) = Ok (as_bytes (e_json_print E (components_json cs)))"
  using canonical_to_value [of "[(''provider_id'', JStr system_fingerprint_provider_id),
      (''components'', enc_list enc_component cs)]" "e_json_print E"]
  by (simp add: components_json_def canonical_def enc_list_def)

lemma passphrase_unwrap_wrap:
  assumes "aead_ok E" and "b64url_ok E" and "fresh_ok E"
    and "passphrase_wrap E params vid rk pw w = (Ok b, w')"
  shows "passphrase_unwrap E vid b pw = Ok rk" and "length rk = key_size"
proof -
  show len: "length rk = key_size"
    using assms(4) by (auto simp: passphrase_wrap_def split: if_splits)
  show "passphrase_unwrap E vid b pw = Ok rk"
    using assms len aead_okD [OF assms(1)]
    by (auto simp: passphrase_wrap_def passphrase_unwrap_def bnd_Ok_iff provider_aad_eq
        passphrase_to_nonce_def fresh_ok_def)
qed

lemma system_unwrap_wrap:
  fixes w :: "'y sys_scheme" and v :: "'z sys_scheme"
  assumes "aead_ok E" and "b64url_ok E" and "fresh_ok E"
    and "system_wrap E params vid rk w = (Ok b, w')"
    and "fst (require_components E v) = Ok cs" and "fst (require_components E w) = Ok cs"
  shows "fst (system_unwrap E vid b v) = Ok rk" and "length rk = key_size"
proof -
  show len: "length rk = key_size"
    using assms(4) by (auto simp: system_wrap_def split: if_splits)
  show "fst (system_unwrap E vid b v) = Ok rk"
    using assms(1-4) len aead_okD [OF assms(1)]
    by (auto simp: system_wrap_def system_unwrap_def bnd_fst [where m = "require_components E", OF assms(5)]
        bnd_fst [where m = "require_components E", OF assms(6)]
        bnd_Ok_iff system_aad_eq system_to_nonce_def fresh_ok_def fingerprint_sha256_def components_canonical expect_r_def)
qed

text \<open>Machine identifiers that do not change between calls.\<close>

definition machine_stable :: "env \<Rightarrow> bool" where
  "machine_stable E \<longleftrightarrow> (\<forall>t t' p. e_read_text E t p = e_read_text E t' p)"

fun present :: "env \<Rightarrow> (string \<times> string) list \<Rightarrow> component list" where
  "present E [] = []"
| "present E ((name, source) # rest) =
     (case Option.bind (e_read_text E 0 source) usable_component of
        None \<Rightarrow> present E rest
      | Some v \<Rightarrow> \<lparr>cp_name = name, cp_source = source,
          cp_sha256 = e_b64url E (e_sha256 E (as_bytes v))\<rparr> # present E rest)"

lemma read_components_stable:
  assumes "machine_stable E"
  shows "fst (read_components E cands w) = Ok (present E cands)"
proof (induction cands arbitrary: w)
  case Nil
  then show ?case by (simp add: ret_def)
next
  case (Cons p rest)
  obtain name source where p: "p = (name, source)" by (cases p)
  have "e_read_text E (tick w) source = e_read_text E 0 source"
    using assms unfolding machine_stable_def by blast
  then have first: "read_component E source w
      = (Ok (Option.bind (e_read_text E 0 source) usable_component), w\<lparr>tick := Suc (tick w)\<rparr>)"
    by (simp add: read_component_def)
  show ?case
    unfolding p read_components.simps bnd_step [of "read_component E source", OF first]
      bnd_fst [where m = "read_components E rest", OF Cons.IH] by (simp add: ret_def split: option.splits)
qed

lemma collect_components_stable:
  assumes "machine_stable E"
  shows "fst (collect_components E w) =
    (let cs = dedup_by (\<lambda>l r. cp_name l = cp_name r \<and> cp_sha256 l = cp_sha256 r)
       (sort_components (present E component_candidates))
     in Ok (if cs = [] then None else Some cs))"
  unfolding collect_components_def bnd_fst [where m = "read_components E component_candidates", OF read_components_stable [OF assms]]
  by (simp add: Let_def ret_def)

lemma require_components_stable:
  fixes w :: "'y sys_scheme" and v :: "'z sys_scheme"
  assumes "machine_stable E"
  shows "fst (require_components E w) = fst (require_components E v)"
  unfolding require_components_def bnd_fst [where m = "collect_components E", OF collect_components_stable [OF assms, unfolded Let_def]]
  by (simp add: lift_r_def)

interpretation passphrase: root_key_provider
  "\<lambda>vid rk. passphrase_wrap E params vid rk pw"
  "\<lambda>vid b. lift_r (passphrase_unwrap E vid b pw)"
  "aead_ok E \<and> b64url_ok E \<and> fresh_ok E" "\<lambda>_. True" for E params pw
proof
  show "length rk = key_size" if "passphrase_wrap E params vid rk pw w = (Ok b, w')" for vid rk w b w'
    using that by (auto simp: passphrase_wrap_def split: if_splits)
  show "length rk = key_size" if "lift_r (passphrase_unwrap E vid b pw) w = (Ok rk, w')" for vid b w rk w'
    using that by (auto simp: passphrase_unwrap_def bind_r_Ok_iff split: if_splits)
qed (simp add: passphrase_unwrap_wrap)

interpretation system_fingerprint: root_key_provider
  "system_wrap E params" "system_unwrap E"
  "aead_ok E \<and> b64url_ok E \<and> fresh_ok E \<and> machine_stable E" "\<lambda>_. True" for E params
proof
  show "length rk = key_size" if "system_wrap E params vid rk w = (Ok b, w')" for vid rk w b w'
    using that by (auto simp: system_wrap_def split: if_splits)
  show "length rk = key_size" if "system_unwrap E vid b w = (Ok rk, w')" for vid b w rk w'
    using that by (auto simp: system_unwrap_def bnd_Ok_iff bind_r_Ok_iff split: if_splits)
  show "fst (system_unwrap E vid b v) = Ok rk"
    if st: "aead_ok E \<and> b64url_ok E \<and> fresh_ok E \<and> machine_stable E"
      and run: "system_wrap E params vid rk w = (Ok b, w')" for vid rk w b w' v
  proof -
    obtain cs where cs: "fst (require_components E w) = Ok cs"
      using run by (auto simp: system_wrap_def bnd_Ok_iff split: if_splits)
    then have "fst (require_components E v) = Ok cs"
      using require_components_stable [of E w v] st by simp
    with cs show ?thesis
      using system_unwrap_wrap [OF _ _ _ run] st by blast
  qed
qed

lemma dedup_by_sorted: "sorted (map f cs) \<Longrightarrow> sorted (map f (dedup_by same cs))
    \<and> set (dedup_by same cs) \<subseteq> set cs"
  by (induction same cs rule: dedup_by.induct) auto

lemma dedup_by_Nil [simp]: "dedup_by same cs = [] \<longleftrightarrow> cs = []"
  by (induction same cs rule: dedup_by.induct) auto

lemma sort_components_Nil [simp]: "sort_components cs = [] \<longleftrightarrow> cs = []"
  by (metis length_0_conv length_sort sort_components_def)

lemma require_components_sorted:
  assumes "fst (require_components E w) = Ok cs"
  shows "sort_components cs = cs"
proof -
  have "sorted (map (\<lambda>c. (cp_name c, cp_source c)) cs)"
    using assms dedup_by_sorted [of "\<lambda>c. (cp_name c, cp_source c)" "sort_components _"]
    by (auto simp: require_components_def collect_components_def bnd_def lift_r_def ret_def Let_def
        sort_components_def split: prod.splits result.splits if_splits)
  then show ?thesis
    by (simp add: sort_components_def sorted_sort_id sort_key_id_if_sorted)
qed

text \<open>Two lists of components have one fingerprint only if they are the same or SHA-256 collides.\<close>

lemma components_print_inject:
  assumes "json_text_ok E"
  shows "e_json_print E (components_json cs) = e_json_print E (components_json cs') \<longleftrightarrow> cs = cs'"
proof -
  have wf: "json_wf (components_json cs)" for cs
    unfolding components_json_def by (intro json_wf_of_ok to_value_ok) (auto simp: enc_list_def)
  have "map enc_component cs = map enc_component cs' \<longleftrightarrow> cs = cs'"
    by (rule inj_map_eq_map) (metis component_codec.dec_enc injI option.inject)
  then show ?thesis
    unfolding json_print_inject [OF assms wf wf] unfolding components_json_def
    by (subst to_value_inject) (simp_all add: enc_list_def)
qed

section \<open>Properties\<close>

text \<open>
  C35: the passphrase provider wraps a root key so that the same passphrase unwraps it: for a 32-byte
  root key, a non-empty passphrase and scrypt parameters with a power-of-two cost, wrapping succeeds
  and unwrapping the binding, for the same vault, gives the root key back.
\<close>

theorem passphrase_root_key_roundtrip:
  assumes "aead_ok E" and "digest_ok E" and "b64url_ok E" and "fresh_ok E"
    and "length rk = key_size" and "pw \<noteq> []" and "sp_n params = 2 ^ k" and "k < 32"
    and "\<forall>salt. e_scrypt E (as_bytes pw) salt k (sp_r params) (sp_p params) \<noteq> None"
  shows "\<exists>b w'. passphrase_wrap E params vid rk pw w = (Ok b, w') \<and>
    passphrase_unwrap E vid b pw = Ok rk"
proof -
  have n: "unat (sp_n params) = 2 ^ k"
  proof -
    have "sp_n params = word_of_nat (2 ^ k)"
      using assms(7) by simp
    moreover have "(2 :: nat) ^ k < 2 ^ 32"
      using assms(8) by (rule power_strict_increasing) simp
    ultimately show ?thesis
      by (simp only: unsigned_of_nat) (simp add: take_bit_nat_eq_self assms(8))
  qed
  have "sp_n params \<noteq> 0"
    using n by auto
  then have log: "checked_ilog2 (sp_n params) = Some k" "push_bit k 1 = sp_n params"
    by (simp_all add: checked_ilog2_def push_bit_eq_mult assms(7) floor_log2_power n [unfolded assms(7)])
  define f where "f salt = the (e_scrypt E (as_bytes pw) salt k (sp_r params) (sp_p params))" for salt
  have f: "e_scrypt E (as_bytes pw) salt k (sp_r params) (sp_p params) = Some (f salt)" for salt
    using assms(9) by (auto simp: f_def)
  have derive: "passphrase_derive E params pw salt = Ok (f salt)" for salt
    using assms(6) log(2) by (simp add: passphrase_derive_def scrypt_key_def log(1) f)
  have "length (f salt) = 32" for salt
    using assms(2) f [of salt] by (auto simp: digest_ok_def)
  then have "e_aes_enc E (f salt) (e_rand E t 12) rk aad \<noteq> None" for salt t aad
    using assms(1,4,5) by (simp add: aead_ok_def fresh_ok_def key_size_def)
  then obtain c where c: "e_aes_enc E (f (e_rand E (tick w) 16)) (e_rand E (Suc (tick w)) 12) rk
      (the_ok (provider_aad E vid :: (_, unit) result)) = Some c"
    by blast
  obtain b w' where run: "passphrase_wrap E params vid rk pw w = (Ok b, w')"
    unfolding passphrase_wrap_def bnd_def
    using c by (simp add: assms(5) random_bytes_def derive provider_aad_eq lift_r_def ret_def)
  with passphrase_unwrap_wrap [OF assms(1,3,4) run] show ?thesis
    by blast
qed


lemma passphrase_root_key_roundtrip_witness:
  "\<exists>b w'. passphrase_wrap (sample_env\<lparr>e_scrypt := \<lambda>pw salt k r p. Some (pad 32 (pw @ salt))\<rparr>)
       default_scrypt_params ''vault'' (replicate 32 7) ''pw'' \<lparr>tick = 3\<rparr> = (Ok b, w') \<and>
     passphrase_unwrap (sample_env\<lparr>e_scrypt := \<lambda>pw salt k r p. Some (pad 32 (pw @ salt))\<rparr>)
       ''vault'' b ''pw'' = Ok (replicate 32 7)"
proof -
  let ?E = "sample_env\<lparr>e_scrypt := \<lambda>pw salt k r p. Some (pad 32 (pw @ salt))\<rparr>"
  have "aead_ok ?E" "digest_ok ?E" "b64url_ok ?E" "fresh_ok ?E"
    using sample_ok(1,2,3,6) by (simp_all add: aead_ok_def digest_ok_def b64url_ok_def fresh_ok_def)
  then show ?thesis
    by (rule passphrase_root_key_roundtrip [where k = 14])
      (simp_all add: key_size_def default_scrypt_params_def)
qed


end
