(* ===== verification/Redaction.thy ===== *)
theory Redaction
  imports Mfa Utf8 Providers
begin

text \<open>
  Component \<open>redaction.rs\<close>, and the copy of it in \<open>broker_daemon.rs\<close>: the forms a secret takes in
  text, their replacement by a marker, and the patterns that are redacted whatever they contain. The
  regular-expression engine is a parameter.
\<close>

section \<open>Forms of a secret\<close>

definition redaction_fingerprint :: "env \<Rightarrow> bytes \<Rightarrow> bytes \<Rightarrow> string" where
  "redaction_fingerprint E fingerprint_key secret =
     e_b64url E (take 18 (e_hmac_sha256 E fingerprint_key secret))"

definition secret_representations :: "env \<Rightarrow> bytes \<Rightarrow> string list" where
  "secret_representations E secret =
     (let values = [e_b64 E secret, e_b64url E secret]
        @ (if utf8_valid secret then [from_bytes secret, percent_encode (from_bytes secret)] else [])
      in filter (\<lambda>v. v \<noteq> []) (dedup_by (=) (sort values)))"

definition longest_first :: "string list \<Rightarrow> string list" where
  "longest_first vs = sort_key (\<lambda>v. - int (length v)) vs"

definition replace_all :: "string list \<Rightarrow> string \<Rightarrow> string \<Rightarrow> string" where
  "replace_all reps marker s = fold (\<lambda>r t. replace_str r marker t) reps s"

definition hbse_marker :: string where
  "hbse_marker = ''[REDACTED:hbse-secret]''"

text \<open>The broker's \<open>redact_known_secret\<close> and \<open>contains_secret\<close>.\<close>

definition broker_redact :: "env \<Rightarrow> string \<Rightarrow> bytes \<Rightarrow> string \<times> bool" where
  "broker_redact E val secret =
     (let redacted = replace_all (longest_first (secret_representations E secret)) hbse_marker val
      in (redacted, redacted \<noteq> val))"

definition contains_secret :: "env \<Rightarrow> string \<Rightarrow> bytes \<Rightarrow> bool" where
  "contains_secret E val secret \<longleftrightarrow>
     list_ex (\<lambda>r. contains_str val r) (secret_representations E secret)"

section \<open>The redaction engine\<close>

type_synonym redaction_engine = "(string \<times> bytes) list"

definition engine_new :: redaction_engine where
  "engine_new = []"

definition learn :: "env \<Rightarrow> bytes \<Rightarrow> bytes \<Rightarrow> redaction_engine \<Rightarrow> string \<times> redaction_engine" where
  "learn E fingerprint_key secret eng =
     (let fingerprint = redaction_fingerprint E fingerprint_key secret
      in (fingerprint, eng @ [(fingerprint, secret)]))"

definition with_known_secret :: "string \<Rightarrow> bytes \<Rightarrow> redaction_engine" where
  "with_known_secret fingerprint secret = [(fingerprint, secret)]"

definition structured_patterns :: "(string \<times> string) list" where
  "structured_patterns =
     (let bs = [CHR 0x5C]; sq = [CHR 0x27]; dq = [CHR 0x22];
          quote = ''(['' @ dq @ sq @ '']?)''
      in [(''(?i)(Authorization:'' @ bs @ ''s*Bearer'' @ bs @ ''s+)[^'' @ bs @ ''s,;]+'',
           ''$1[REDACTED:bearer]''),
          (''(?i)(password=)'' @ quote @ ''[^;&'' @ bs @ ''s'' @ dq @ sq @ '']+'' @ quote,
           ''$1$2[REDACTED]$3''),
          (''(?i)(token=)'' @ quote @ ''[^;&'' @ bs @ ''s'' @ dq @ sq @ '']+'' @ quote,
           ''$1$2[REDACTED]$3''),
          (''(?i)(api[_-]?key=)'' @ quote @ ''[^;&'' @ bs @ ''s'' @ dq @ sq @ '']+'' @ quote,
           ''$1$2[REDACTED]$3''),
          (''(?i)('' @ dq @ ''?(?:password|token|api[_-]?key)'' @ dq @ ''?'' @ bs @ ''s*:'' @ bs @ ''s*''
             @ dq @ '')[^'' @ dq @ '']+('' @ dq @ '')'',
           ''$1[REDACTED]$2'')])"

definition redact_structured_patterns :: "env \<Rightarrow> string \<Rightarrow> string" where
  "redact_structured_patterns E t =
     fold (\<lambda>(pat, new) s. x_regex_replace (e_host E) pat new s) structured_patterns t"

definition secret_marker :: "string \<Rightarrow> string" where
  "secret_marker fingerprint = ''[REDACTED:secret:'' @ fingerprint @ '']''"

definition redact_known :: "env \<Rightarrow> redaction_engine \<Rightarrow> string \<Rightarrow> string" where
  "redact_known E eng t =
     fold (\<lambda>(fingerprint, secret) s.
       replace_all (longest_first (secret_representations E secret)) (secret_marker fingerprint) s) eng t"

definition redact_text :: "env \<Rightarrow> redaction_engine \<Rightarrow> string \<Rightarrow> string" where
  "redact_text E eng t = redact_structured_patterns E (redact_known E eng t)"

definition assert_no_known_secret :: "env \<Rightarrow> redaction_engine \<Rightarrow> string \<Rightarrow> (unit, unit) result" where
  "assert_no_known_secret E eng t = (if redact_text E eng t = t then Ok () else Err ())"

definition redact_known_secret :: "env \<Rightarrow> string \<Rightarrow> bytes \<Rightarrow> string \<Rightarrow> string \<times> bool" where
  "redact_known_secret E val secret marker =
     (let redacted = redact_text E (with_known_secret marker secret) val
      in (redacted, redacted \<noteq> val))"

section \<open>Replacement\<close>

text \<open>A marker in brackets keeps the text before it and the text behind it apart.\<close>

definition bracketed :: "string \<Rightarrow> bool" where
  "bracketed m \<longleftrightarrow> (\<exists>x. m = CHR ''['' # x @ '']'')"

definition plain :: "string \<Rightarrow> string \<Rightarrow> bool" where
  "plain m r \<longleftrightarrow> CHR ''['' \<notin> set r \<and> CHR '']'' \<notin> set r \<and> \<not> sublist r m"

lemma sublist_around_marker:
  assumes "bracketed m" and "plain m r" and "sublist r (a @ m @ b)"
  shows "sublist r a \<or> sublist r b"
proof -
  obtain x where m: "m = CHR ''['' # x @ '']''"
    using assms(1) by (auto simp: bracketed_def)
  have mb: "sublist r (m @ b) \<Longrightarrow> sublist r b"
  proof -
    assume "sublist r (m @ b)"
    then consider "sublist r m" | "sublist r b"
      | u v where "r = u @ v" "suffix u m" "prefix v b"
      unfolding sublist_append by blast
    then show "sublist r b"
    proof cases
      case 3
      have "u = []"
      proof (rule ccontr)
        assume "u \<noteq> []"
        then have "last u = last m"
          using 3(2) by (auto simp: suffix_def)
        then have "CHR '']'' \<in> set r"
          using \<open>u \<noteq> []\<close> 3(1) m by (metis last_in_set in_set_conv_decomp last_ConsR append_is_Nil_conv
              last_snoc list.distinct(1) set_append UnI1)
        with assms(2) show False by (simp add: plain_def)
      qed
      with 3 show ?thesis by simp
    qed (use assms(2) in \<open>simp_all add: plain_def\<close>)
  qed
  consider "sublist r a" | "sublist r (m @ b)"
    | u v where "r = u @ v" "suffix u a" "prefix v (m @ b)"
    using assms(3) unfolding sublist_append by blast
  then show ?thesis
  proof cases
    case 3
    have "v = []"
    proof (rule ccontr)
      assume "v \<noteq> []"
      then have "CHR ''['' \<in> set r"
        using 3 m by (cases v) auto
      with assms(2) show False by (simp add: plain_def)
    qed
    with 3 show ?thesis by simp
  qed (use mb in simp_all)
qed

lemma replace_str_Nil [simp]: "replace_str p m [] = []"
  by (simp add: replace_str.simps)

lemma replace_str_Cons:
  "replace_str p m (c # s) = (if p \<noteq> [] \<and> prefix p (c # s)
     then m @ replace_str p m (drop (length p) (c # s)) else c # replace_str p m s)"
  by (subst replace_str.simps) simp

text \<open>Replacing one form brings no other form into being.\<close>

lemma replace_str_keeps_free:
  assumes "bracketed m" and "plain m r"
  shows "\<not> sublist r (u @ s) \<Longrightarrow> \<not> sublist r (u @ replace_str p m s)"
proof (induction "length s" arbitrary: u s rule: less_induct)
  case less
  show ?case
  proof (cases s)
    case Nil
    with less.prems show ?thesis by simp
  next
    case (Cons c s')
    show ?thesis
    proof (cases "p \<noteq> [] \<and> prefix p s")
      case True
      have tail: "\<not> sublist r ([] @ drop (length p) s)" and u: "\<not> sublist r u"
        using less.prems sublist_append [of r u s] sublist_append [of r "take (length p) s" "drop (length p) s"]
        by auto
      have "\<not> sublist r ([] @ replace_str p m (drop (length p) s))"
        by (rule less.hyps [OF _ tail]) (use True Cons in simp)
      with u show ?thesis
        using sublist_around_marker [OF assms] True by (auto simp: Cons replace_str_Cons)
    next
      case False
      then have "\<not> sublist r ((u @ [c]) @ replace_str p m s')"
        by (intro less.hyps) (use Cons less.prems in simp_all)
      with False show ?thesis
        by (auto simp: Cons replace_str_Cons)
    qed
  qed
qed

text \<open>Replacing a form leaves none of it.\<close>

lemma replace_str_removes:
  assumes "bracketed m" and "plain m r" and "r \<noteq> []"
  shows "(\<And>u1 u2. u = u1 @ u2 \<Longrightarrow> u2 \<noteq> [] \<Longrightarrow> \<not> prefix r (u2 @ s)) \<Longrightarrow>
    \<not> sublist r (u @ replace_str r m s)"
proof (induction "length s" arbitrary: u s rule: less_induct)
  case less
  have u: "\<not> sublist r u"
  proof
    assume "sublist r u"
    then obtain u1 u3 where "u = u1 @ r @ u3"
      by (auto simp: sublist_def)
    with less.prems [of u1 "r @ u3"] assms(3) show False by simp
  qed
  show ?case
  proof (cases s)
    case Nil
    with u show ?thesis by simp
  next
    case (Cons c s')
    show ?thesis
    proof (cases "prefix r s")
      case True
      have "\<not> sublist r ([] @ replace_str r m (drop (length r) s))"
        by (rule less.hyps) (use assms(3) Cons in simp_all)
      with u show ?thesis
        using sublist_around_marker [OF assms(1,2)] True assms(3) by (auto simp: Cons replace_str_Cons)
    next
      case False
      have "\<not> sublist r ((u @ [c]) @ replace_str r m s')"
      proof (rule less.hyps)
        fix u1 u2 assume v: "u @ [c] = u1 @ u2" "u2 \<noteq> []"
        then obtain u2' where u2: "u2 = u2' @ [c]"
          by (metis append_butlast_last_id last_appendR last_snoc)
        show "\<not> prefix r (u2 @ s')"
          using less.prems [of u1 u2'] False v by (cases "u2' = []") (simp_all add: u2 Cons)
      qed (simp add: Cons)
      with False show ?thesis
        by (auto simp: Cons replace_str_Cons)
    qed
  qed
qed

lemma replace_all_free:
  assumes "bracketed m" and "plain m r"
  shows "\<not> sublist r s \<Longrightarrow> \<not> sublist r (replace_all reps m s)"
proof (induction reps arbitrary: s)
  case (Cons p reps)
  then show ?case
    using replace_str_keeps_free [OF assms, of "[]" s p] by (simp add: replace_all_def)
qed (simp add: replace_all_def)

lemma replace_all_removes:
  assumes "bracketed m" and "plain m r" and "r \<noteq> []" and "r \<in> set reps"
  shows "\<not> sublist r (replace_all reps m s)"
  using assms(4)
proof (induction reps arbitrary: s)
  case (Cons p reps)
  show ?case
  proof (cases "p = r")
    case True
    then show ?thesis
      using replace_str_removes [OF assms(1-3), of "[]" s] replace_all_free [OF assms(1,2)]
      by (simp add: replace_all_def)
  next
    case False
    with Cons show ?thesis by (simp add: replace_all_def)
  qed
qed simp

lemma bracketedI: "bracketed (CHR ''['' # x @ '']'')"
  unfolding bracketed_def by (rule exI [of _ x]) (rule refl)

lemma hbse_marker_bracketed: "bracketed hbse_marker" "bracketed (secret_marker fp)"
  using bracketedI [of "''REDACTED:hbse-secret''"] bracketedI [of "''REDACTED:secret:'' @ fp"]
  by (simp_all add: hbse_marker_def secret_marker_def)

lemma set_dedup_eq [simp]: "set (dedup_by (=) xs) = set xs"
  by (induction "(=) :: 'a \<Rightarrow> 'a \<Rightarrow> bool" xs rule: dedup_by.induct) auto

lemma set_representations:
  "set (secret_representations E secret) =
     (set ([e_b64 E secret, e_b64url E secret]
       @ (if utf8_valid secret then [from_bytes secret, percent_encode (from_bytes secret)] else []))) - {[]}"
  by (auto simp: secret_representations_def Let_def)

lemma representation_nonempty: "r \<in> set (secret_representations E secret) \<Longrightarrow> r \<noteq> []"
  by (auto simp: secret_representations_def Let_def)

lemma set_longest_first [simp]: "set (longest_first vs) = set vs"
  by (simp add: longest_first_def)

section \<open>Properties\<close>

text \<open>
  C39: what the broker returns shows no form of the secret: every form without square brackets that is
  not part of the marker itself is gone from the redacted text, whatever other forms were replaced
  before or after it, and a text that held one is reported as redacted.
\<close>

theorem broker_redaction_complete:
  assumes "r \<in> set (secret_representations E secret)" and "plain hbse_marker r"
  shows "\<not> contains_str (fst (broker_redact E val secret)) r \<and>
    (contains_str val r \<longrightarrow> snd (broker_redact E val secret))"
proof -
  have "\<not> sublist r (fst (broker_redact E val secret))"
    using replace_all_removes [OF hbse_marker_bracketed(1) assms(2) representation_nonempty [OF assms(1)]]
      assms(1) by (simp add: broker_redact_def Let_def)
  then show ?thesis
    by (auto simp: contains_str_def broker_redact_def Let_def)
qed

lemma broker_redaction_complete_witness:
  "\<not> contains_str (fst (broker_redact sample_env ''key=hunter2'' (as_bytes ''hunter2''))) ''hunter2'' \<and>
   snd (broker_redact sample_env ''key=hunter2'' (as_bytes ''hunter2''))"
proof -
  have "''hunter2'' \<in> set (secret_representations sample_env (as_bytes ''hunter2''))"
    by (simp add: set_representations)
  moreover have "plain hbse_marker ''hunter2''" "contains_str ''key=hunter2'' ''hunter2''"
    by (simp_all add: plain_def hbse_marker_def contains_str_def sublist_Cons_right)
  ultimately show ?thesis
    using broker_redaction_complete by blast
qed

text \<open>
  C40: the redaction engine hides every secret it has learned: no bracket-free form of one survives its
  known-value pass if it occurs in none of the markers.
\<close>

theorem engine_redaction_complete:
  assumes "(fingerprint, secret) \<in> set eng" and "r \<in> set (secret_representations E secret)"
    and "\<forall>(fp, _) \<in> set eng. plain (secret_marker fp) r"
  shows "\<not> contains_str (redact_known E eng t) r"
proof -
  have keep: "\<not> sublist r s \<Longrightarrow> \<not> sublist r (redact_known E eng' s)" if "set eng' \<subseteq> set eng" for eng' s
    using that
  proof (induction eng' arbitrary: s)
    case (Cons e eng')
    then show ?case
      using replace_all_free [OF hbse_marker_bracketed(2)] assms(3)
      by (cases e) (fastforce simp: redact_known_def)
  qed (simp add: redact_known_def)
  have "\<not> sublist r (redact_known E eng' s)" if "set eng' \<subseteq> set eng" "(fingerprint, secret) \<in> set eng'" for eng' s
    using that
  proof (induction eng' arbitrary: s)
    case (Cons e eng')
    show ?case
    proof (cases "e = (fingerprint, secret)")
      case True
      have "\<not> sublist r (replace_all (longest_first (secret_representations E secret)) (secret_marker fingerprint) s)"
        by (rule replace_all_removes [OF hbse_marker_bracketed(2) _ representation_nonempty [OF assms(2)]])
          (use assms in auto)
      then show ?thesis
        using keep [of eng'] Cons.prems(1) True by (simp add: redact_known_def)
    next
      case False
      with Cons show ?thesis
        by (cases e) (auto simp: redact_known_def)
    qed
  qed simp
  then show ?thesis
    using assms(1) by (simp add: contains_str_def)
qed

lemma engine_redaction_complete_witness:
  "\<not> contains_str (redact_known sample_env [(''f1'', as_bytes ''hunter2'')] ''key=hunter2'') ''hunter2''"
proof -
  have "''hunter2'' \<in> set (secret_representations sample_env (as_bytes ''hunter2''))"
    by (simp add: set_representations)
  moreover have "plain (secret_marker ''f1'') ''hunter2''"
    by (simp add: plain_def secret_marker_def sublist_Cons_right)
  ultimately show ?thesis
    using engine_redaction_complete [of "''f1''" _ "[(''f1'', as_bytes ''hunter2'')]" "''hunter2''" sample_env]
    by simp
qed

end
