(* ===== verification/Recovery.thy ===== *)
theory Recovery
  imports Providers Bits
begin

text \<open>
  Component \<open>recovery.rs\<close>: the recovery package, a second wrapping of the root key under a recovery
  secret, and the mnemonic phrase such a secret is written as.
\<close>

section \<open>Packages\<close>

datatype recovery_error = RecIo | RecJson | RecProvider provider_error

record recovery_package =
  rp_format_version :: u64
  rp_recovery_id :: string
  rp_vault_id :: string
  rp_created_at :: string
  rp_root_binding :: json
  rp_warning :: string

definition format_version :: u64 where
  "format_version = 1"

definition recovery_warning :: string where
  "recovery_warning = ''Recovery package can rewrap the vault root key. Protect it separately.''"

definition enc_package :: "recovery_package \<Rightarrow> json" where
  "enc_package p = JObj
     [(''format_version'', enc_u64 (rp_format_version p)),
      (''recovery_id'', JStr (rp_recovery_id p)),
      (''vault_id'', JStr (rp_vault_id p)),
      (''created_at'', JStr (rp_created_at p)),
      (''root_binding'', rp_root_binding p),
      (''warning'', JStr (rp_warning p))]"

definition dec_package :: "json \<Rightarrow> recovery_package option" where
  "dec_package v = do {
     m \<leftarrow> dec_obj v;
     version \<leftarrow> fld_def dec_u64 format_version ''format_version'' m;
     recovery_id \<leftarrow> fld dec_str ''recovery_id'' m;
     vault_id \<leftarrow> fld dec_str ''vault_id'' m;
     created_at \<leftarrow> fld dec_str ''created_at'' m;
     root_binding \<leftarrow> fld dec_value ''root_binding'' m;
     warning \<leftarrow> fld_def dec_str recovery_warning ''warning'' m;
     Some \<lparr>rp_format_version = version, rp_recovery_id = recovery_id, rp_vault_id = vault_id,
       rp_created_at = created_at, rp_root_binding = root_binding, rp_warning = warning\<rparr>
   }"

definition package_domain :: "recovery_package \<Rightarrow> bool" where
  "package_domain p \<longleftrightarrow> json_ok (rp_root_binding p) \<and> float_free (rp_root_binding p)"

interpretation package_codec: json_codec enc_package dec_package package_domain
proof
  show "dec_package (enc_package p) = Some p" if "package_domain p" for p
    using that by (simp add: dec_package_def enc_package_def package_domain_def)
qed

lemma enc_package_wf: "package_domain p \<Longrightarrow> json_wf (enc_package p)"
  by (simp add: enc_package_def package_domain_def json_wf_of_ok)

text \<open>The text of a package file, and a package read from a file.\<close>

definition package_text :: "env \<Rightarrow> recovery_package \<Rightarrow> bytes" where
  "package_text E p = as_bytes (x_json_pretty (e_host E) (enc_package p))"

definition read_package :: "env \<Rightarrow> string \<Rightarrow> ('z sys_scheme, recovery_package, recovery_error) act" where
  "read_package E path = (\<lambda>w.
     (bind_r (ok_or (x_read_file (e_host E) (tick w) path) RecIo)
        (\<lambda>bs. ok_or (parse_as E dec_package (from_bytes bs)) RecJson),
      w\<lparr>tick := Suc (tick w)\<rparr>))"

definition with_recovery_id :: "string \<Rightarrow> json \<Rightarrow> json" where
  "with_recovery_id recovery_id v = (case v of
       JObj m \<Rightarrow> JObj (map_insert ''recovery_id'' (JStr recovery_id) m)
     | _ \<Rightarrow> v)"

definition create_package :: "env \<Rightarrow> string \<Rightarrow> bytes \<Rightarrow> string
    \<Rightarrow> ('z sys_scheme, recovery_package, recovery_error) act" where
  "create_package E vault_id root_key recovery_secret =
     bnd (new_uuid E) (\<lambda>recovery_id.
     bnd (on_err RecProvider (passphrase_wrap E default_scrypt_params vault_id root_key recovery_secret)) (\<lambda>b.
     let binding = with_recovery_id recovery_id (enc_passphrase_binding b) in
     bnd (now E) (\<lambda>time.
     ret \<lparr>rp_format_version = format_version, rp_recovery_id = recovery_id, rp_vault_id = vault_id,
       rp_created_at = e_time_ms E time, rp_root_binding = binding, rp_warning = recovery_warning\<rparr>)))"

definition recovery_unwrap :: "env \<Rightarrow> recovery_package \<Rightarrow> string \<Rightarrow> (bytes, recovery_error) result" where
  "recovery_unwrap E package recovery_secret =
     bind_r (ok_or (dec_passphrase_binding (rp_root_binding package)) RecJson) (\<lambda>b.
     map_err RecProvider (passphrase_unwrap E (rp_vault_id package) b recovery_secret))"

section \<open>Mnemonic phrases\<close>

definition mnemonic_words :: "string list" where
  "mnemonic_words = [
     ''anchor'', ''artist'', ''atlas'', ''autumn'', ''beacon'', ''binary'', ''border'', ''brisk'', ''canyon'',
     ''cedar'', ''cipher'', ''cobalt'', ''comet'', ''coral'', ''delta'', ''dune'', ''ember'', ''fabric'', ''falcon'',
     ''field'', ''forest'', ''frost'', ''garden'', ''harbor'', ''hazel'', ''honor'', ''index'', ''ivory'', ''jacket'',
     ''juniper'', ''kernel'', ''lantern'', ''legend'', ''magnet'', ''meadow'', ''mirror'', ''nebula'', ''nickel'',
     ''onyx'', ''orbit'', ''prairie'', ''quartz'', ''raven'', ''river'', ''rocket'', ''saffron'', ''signal'',
     ''silver'', ''summit'', ''temple'', ''thunder'', ''timber'', ''ultra'', ''velvet'', ''violet'', ''voyage'',
     ''walnut'', ''winter'', ''xenon'', ''yellow'', ''zenith'', ''zephyr'', ''zinc'', ''zircon'']"

definition mnemonic_of :: "bytes \<Rightarrow> string" where
  "mnemonic_of entropy =
     join_str '' '' (map (\<lambda>i. mnemonic_words ! i) (fst (regroup 8 6 0 0 (map unat entropy))))"

definition generate_mnemonic_phrase :: "env \<Rightarrow> ('z sys_scheme, string, 'e) act" where
  "generate_mnemonic_phrase E = bnd (random_bytes E 18) (\<lambda>entropy. ret (mnemonic_of entropy))"

definition normalize_mnemonic_phrase :: "string \<Rightarrow> string" where
  "normalize_mnemonic_phrase val = join_str '' '' (map to_lower (split_whitespace val))"

section \<open>Words and phrases\<close>

definition is_letter :: "char \<Rightarrow> bool" where
  "is_letter c \<longleftrightarrow> (let n = of_char c :: nat in 65 \<le> n \<and> n \<le> 90 \<or> 97 \<le> n \<and> n \<le> 122)"

definition is_lower :: "char \<Rightarrow> bool" where
  "is_lower c \<longleftrightarrow> (let n = of_char c :: nat in 97 \<le> n \<and> n \<le> 122)"

lemma mnemonic_words_ok:
  "distinct mnemonic_words" "length mnemonic_words = 64"
  "list_all (\<lambda>w. w \<noteq> [] \<and> list_all is_lower w) mnemonic_words"
  by code_simp+

lemma ws_head_letter: "is_letter c \<Longrightarrow> ws_head (c # s) = 0"
proof -
  assume c: "is_letter c"
  have heads: "hd q \<noteq> of_char c \<and> q \<noteq> [] \<and> hd q < 256" if "q \<in> set ws_codes" for q
    using that c by (auto simp: ws_codes_def is_letter_def Let_def)
  have "\<not> prefix (map char_of q) (c # s)" if "q \<in> set ws_codes" for q
    using heads [OF that] by (cases q) auto
  then have "find (\<lambda>q. prefix q (c # s)) ws_seqs = None"
    by (auto simp: find_None_iff ws_seqs_def)
  then show ?thesis
    by (simp add: ws_head_def)
qed

lemma ws_head_space: "ws_head (CHR '' '' # s) = 1"
proof -
  have "char_of (32 :: nat) = CHR '' ''"
    by (simp add: char_of_eq_iff)
  then have "find (\<lambda>q. prefix q (CHR '' '' # s)) ws_seqs = Some [char_of (32 :: nat)]"
    by (simp only: ws_seqs_def ws_codes_def list.map find.simps prefix_code simp_thms if_True)
  then show ?thesis
    by (simp add: ws_head_def)
qed

lemma split_ws_letters: "list_all is_letter w \<Longrightarrow> split_ws cur (w @ s) = split_ws (rev w @ cur) s"
proof (induction w arbitrary: cur)
  case (Cons c w)
  then show ?case
    by (subst split_ws.simps) (simp add: ws_head_letter)
qed simp

lemma split_whitespace_join:
  assumes "ws \<noteq> []" and "\<forall>w \<in> set ws. w \<noteq> [] \<and> list_all is_letter w"
  shows "split_whitespace (join_str '' '' ws) = ws"
  unfolding split_whitespace_def using assms
proof (induction ws rule: list_nonempty_induct)
  case (single w)
  then show ?case
    using split_ws_letters [of w "[]" "[]"] by (simp add: split_ws.simps [of "rev w" "[]"])
next
  case (cons w ws)
  have "split_ws [] (w @ CHR '' '' # s) = w # split_ws [] s" for s
    using split_ws_letters [of w "[]" "CHR '' '' # s"] cons.prems
    by (simp add: split_ws.simps [of "rev w" "CHR '' '' # s"] ws_head_space)
  moreover have "join_str '' '' (w # ws) = w @ CHR '' '' # join_str '' '' ws"
    using cons.hyps by (cases ws) simp_all
  ultimately show ?case
    using cons by simp
qed

lemma to_upper_join: "to_upper (join_str '' '' ws) = join_str '' '' (map to_upper ws)"
  by (induction "'' ''" ws rule: join_str.induct) (simp_all add: to_upper_def ascii_upper_def)

lemma lower_upper: "is_lower c \<Longrightarrow> ascii_lower (ascii_upper c) = c" "is_lower c \<Longrightarrow> is_letter (ascii_upper c)"
  by (auto simp: is_lower_def is_letter_def ascii_lower_def ascii_upper_def Let_def)

lemma mnemonic_indices:
  fixes e :: bytes
  assumes "length e = 18"
  shows "\<exists>idx. fst (regroup 8 6 0 0 (map unat e)) = idx \<and> length idx = 24 \<and> (\<forall>i \<in> set idx. i < 64) \<and>
    all_bits 6 idx = all_bits 8 (map unat e)"
proof -
  obtain idx buffer bits where run: "regroup 8 6 0 0 (map unat e) = (idx, buffer, bits)"
    by (metis prod.collapse)
  have "low_bits 0 0 @ all_bits 8 (map unat e) = all_bits 6 idx @ low_bits bits buffer \<and> bits < 6 \<and>
      (\<forall>x \<in> set idx. x < 2 ^ 6)"
    by (rule regroup_bits [OF _ _ _ _ run]) (use unat_u8_less in simp_all)
  then have bits: "all_bits 8 (map unat e) = all_bits 6 idx @ low_bits bits buffer" "bits < 6"
      "\<forall>x \<in> set idx. x < 64"
    by (simp_all add: low_bits_def)
  have "length (all_bits 8 (map unat e)) = length (all_bits 6 idx @ low_bits bits buffer)"
    by (rule arg_cong [OF bits(1)])
  then have "8 * 18 = 6 * length idx + bits"
    using assms by simp
  then have "length idx = 24 \<and> bits = 0"
    using bits(2) by presburger
  then show ?thesis
    using run bits by (simp add: low_bits_def)
qed

lemma create_package_Ok_iff:
  "create_package E vid rk secret w = (Ok p, w') \<longleftrightarrow>
     (\<exists>b w1. passphrase_wrap E default_scrypt_params vid rk secret (w\<lparr>tick := Suc (tick w)\<rparr>) = (Ok b, w1) \<and>
       p = \<lparr>rp_format_version = format_version, rp_recovery_id = e_uuid E (tick w), rp_vault_id = vid,
         rp_created_at = e_time_ms E (e_clock E (tick w1)),
         rp_root_binding = with_recovery_id (e_uuid E (tick w)) (enc_passphrase_binding b),
         rp_warning = recovery_warning\<rparr> \<and> w' = w1\<lparr>tick := Suc (tick w1)\<rparr>)"
  by (auto simp: create_package_def bnd_Ok_iff Let_def)

section \<open>Properties\<close>

text \<open>
  C38: a recovery package, read back from its file text, opens under its recovery secret to the root key
  of the vault it names.
\<close>

theorem recovery_package_roundtrip:
  assumes "aead_ok E" and "b64url_ok E" and "fresh_ok E"
    and "\<forall>v. json_wf v \<longrightarrow> e_json_parse E (x_json_pretty (e_host E) v) = Some v"
    and "create_package E vid rk secret w = (Ok p, w')"
  shows "parse_as E dec_package (from_bytes (package_text E p)) = Some p \<and> rp_vault_id p = vid \<and>
    recovery_unwrap E p secret = Ok rk"
proof -
  obtain b w1 where wrap: "passphrase_wrap E default_scrypt_params vid rk secret (w\<lparr>tick := Suc (tick w)\<rparr>) = (Ok b, w1)"
    and "p = \<lparr>rp_format_version = format_version, rp_recovery_id = e_uuid E (tick w), rp_vault_id = vid,
      rp_created_at = e_time_ms E (e_clock E (tick w1)),
      rp_root_binding = with_recovery_id (e_uuid E (tick w)) (enc_passphrase_binding b),
      rp_warning = recovery_warning\<rparr>"
    using create_package_Ok_iff [THEN iffD1, OF assms(5)] by blast
  then have p: "rp_vault_id p = vid"
      "rp_root_binding p = with_recovery_id (rp_recovery_id p) (enc_passphrase_binding b)"
    by simp_all
  obtain m where m: "enc_passphrase_binding b = JObj m"
    by (simp add: enc_passphrase_binding_def to_value_def)
  have "json_ok (JObj m)" "float_free (JObj m)"
    by (simp_all flip: m)
  moreover have "set (map_insert k v m) \<subseteq> insert (k, v) (set m)" for k v m
    by (induction k v m rule: map_insert.induct) auto
  ultimately have dom_ok: "package_domain p"
    by (fastforce simp: package_domain_def p(2) m with_recovery_id_def map_ok_map_insert)
  have "dec_passphrase_binding (JObj (map_insert ''recovery_id'' r m)) = dec_passphrase_binding (JObj m)" for r
    by (simp add: dec_passphrase_binding_def dec_obj_def fld_def)
  then have "dec_passphrase_binding (rp_root_binding p) = Some b"
    by (simp add: p(2) m with_recovery_id_def) (simp add: passphrase_binding_codec.dec_enc flip: m)
  then have "recovery_unwrap E p secret = Ok rk"
    using passphrase_unwrap_wrap(1) [OF assms(1-3) wrap] p(1) by (simp add: recovery_unwrap_def)
  moreover have "parse_as E dec_package (from_bytes (package_text E p)) = Some p"
    using assms(4) enc_package_wf [OF dom_ok] package_codec.dec_enc [OF dom_ok]
    by (simp add: package_text_def parse_as_def)
  ultimately show ?thesis
    using p(1) by simp
qed

text \<open>
  A mnemonic phrase has 24 words of the list and keeps all 144 bits: two seeds have the same phrase
  only if they are equal, and a phrase typed in capitals is normalized to the phrase itself.
\<close>

theorem mnemonic_faithful:
  assumes "length e = 18" and "length e' = 18"
  shows "(mnemonic_of e = mnemonic_of e' \<longleftrightarrow> e = e') \<and>
    length (split_whitespace (mnemonic_of e)) = 24 \<and>
    set (split_whitespace (mnemonic_of e)) \<subseteq> set mnemonic_words \<and>
    normalize_mnemonic_phrase (to_upper (mnemonic_of e)) = mnemonic_of e"
proof -
  obtain idx idx' where i: "fst (regroup 8 6 0 0 (map unat e)) = idx" "length idx = 24" "\<forall>i \<in> set idx. i < 64"
      "all_bits 6 idx = all_bits 8 (map unat e)"
    and i': "fst (regroup 8 6 0 0 (map unat e')) = idx'" "length idx' = 24" "\<forall>i \<in> set idx'. i < 64"
      "all_bits 6 idx' = all_bits 8 (map unat e')"
    using mnemonic_indices [OF assms(1)] mnemonic_indices [OF assms(2)] by metis
  let ?ws = "\<lambda>idx. map (\<lambda>i. mnemonic_words ! i) idx"
  have words: "set (?ws idx) \<subseteq> set mnemonic_words" if "\<forall>i \<in> set idx. i < 64" for idx
    using that mnemonic_words_ok(2) by auto
  have lower: "w \<noteq> [] \<and> list_all is_lower w" if "w \<in> set mnemonic_words" for w
    using mnemonic_words_ok(3) that by (simp add: list_all_iff)
  have letters: "\<forall>w \<in> set (?ws idx). w \<noteq> [] \<and> list_all is_letter w" if "\<forall>i \<in> set idx. i < 64" for idx
    using words [OF that] lower by (fastforce simp: list_all_iff is_lower_def is_letter_def Let_def)
  have split: "split_whitespace (join_str '' '' (?ws idx)) = ?ws idx" if "length idx = 24" "\<forall>i \<in> set idx. i < 64" for idx
    using split_whitespace_join [OF _ letters [OF that(2)]] that(1) by (cases idx) simp_all
  have inj: "inj_on (\<lambda>i. mnemonic_words ! i) {..<64}"
    using mnemonic_words_ok(1,2) by (metis inj_on_nth lessThan_iff)
  have "mnemonic_of e = mnemonic_of e' \<longleftrightarrow> ?ws idx = ?ws idx'"
    using split [OF i(2,3)] split [OF i'(2,3)] by (metis mnemonic_of_def i(1) i'(1))
  also have "\<dots> \<longleftrightarrow> idx = idx'"
    using i(3) i'(3) inj by (intro inj_on_map_eq_map) (auto intro: inj_on_subset)
  also have "\<dots> \<longleftrightarrow> map unat e = map unat e'"
    using all_bits_inject [of idx 6 idx'] all_bits_inject [of "map unat e" 8 "map unat e'"] i i' assms
    by (simp add: unat_u8_less)
  also have "\<dots> \<longleftrightarrow> e = e'"
    by (rule inj_map_eq_map) (simp add: inj_def word_unat_eq_iff)
  finally have same: "mnemonic_of e = mnemonic_of e' \<longleftrightarrow> e = e'" .
  have up: "split_whitespace (join_str '' '' (map to_upper (?ws idx))) = map to_upper (?ws idx)"
    using words [OF i(3)] lower i(2) lower_upper(2)
    by (intro split_whitespace_join) (fastforce simp: to_upper_def list_all_iff)+
  have low_up: "to_lower (to_upper w) = w" if "w \<in> set mnemonic_words" for w
    using lower [OF that] by (auto simp: to_lower_def to_upper_def list_all_iff lower_upper(1) intro!: map_idI)
  have "map to_lower (map to_upper (?ws idx)) = ?ws idx"
    using i(3) mnemonic_words_ok(2) by (auto simp: low_up)
  then have "normalize_mnemonic_phrase (to_upper (mnemonic_of e)) = mnemonic_of e"
    unfolding mnemonic_of_def normalize_mnemonic_phrase_def to_upper_join i(1) up by (rule arg_cong)
  then show ?thesis
    using same split [OF i(2,3)] words [OF i(3)] i(1,2) by (simp add: mnemonic_of_def)
qed

lemma recovery_package_roundtrip_witness:
  "\<exists>p w'. create_package (sample_env\<lparr>e_scrypt := \<lambda>pw salt k r p. Some (pad 32 (pw @ salt))\<rparr>)
       ''vault'' (replicate 32 7) ''secret'' \<lparr>tick = 3\<rparr> = (Ok p, w') \<and>
     recovery_unwrap (sample_env\<lparr>e_scrypt := \<lambda>pw salt k r p. Some (pad 32 (pw @ salt))\<rparr>) p ''secret''
       = Ok (replicate 32 7)"
proof -
  let ?E = "sample_env\<lparr>e_scrypt := \<lambda>pw salt k r p. Some (pad 32 (pw @ salt))\<rparr>"
  have ok: "aead_ok ?E" "b64url_ok ?E" "fresh_ok ?E"
    using sample_ok(1,2,6) by (simp_all add: aead_ok_def b64url_ok_def fresh_ok_def)
  have pretty: "\<forall>v. json_wf v \<longrightarrow> e_json_parse ?E (x_json_pretty (e_host ?E) v) = Some v"
    using sample_ok(4) by (simp add: json_text_ok_def sample_env_def sample_host_def)
  obtain b w1 where "passphrase_wrap ?E default_scrypt_params ''vault'' (replicate 32 7) ''secret'' \<lparr>tick = 4\<rparr>
      = (Ok b, w1)"
    by (auto simp: passphrase_wrap_def bnd_Ok_iff key_size_def passphrase_derive_def provider_aad_eq
        scrypt_key_def default_scrypt_params_def checked_ilog2_def floor_log2.simps push_bit_eq_mult toy_enc_def)
  then obtain p w' where run: "create_package ?E ''vault'' (replicate 32 7) ''secret'' \<lparr>tick = 3\<rparr> = (Ok p, w')"
    using create_package_Ok_iff [of ?E "''vault''" "replicate 32 7" "''secret''" "\<lparr>tick = 3\<rparr>"] by auto
  from recovery_package_roundtrip [OF ok pretty this] run show ?thesis
    by blast
qed

lemma mnemonic_faithful_witness:
  "length (split_whitespace (mnemonic_of (replicate 18 7))) = 24 \<and>
   mnemonic_of (replicate 18 7) \<noteq> mnemonic_of (replicate 18 8)"
proof -
  have "length (replicate 18 (7 :: u8)) = 18" "length (replicate 18 (8 :: u8)) = 18"
    by simp_all
  from mnemonic_faithful [OF this] show ?thesis
    by (simp add: replicate_eq_replicate)
qed

end
