(* ===== verification/Tpm.thy ===== *)
theory Tpm
  imports Providers
begin

text \<open>
  Components \<open>provider_tpm2.rs\<close>, \<open>provider_tpm2_esapi.rs\<close>, \<open>provider_yubikey.rs\<close> and
  \<open>provider_catalog.rs\<close>: root keys sealed by a TPM, through the \<open>tpm2-tools\<close> programs or the TSS
  library, token detection, and the list of providers. The programs (\<open>e_run\<close>) and the library
  (\<open>e_tss_seal\<close>, \<open>e_tss_unseal\<close>) are parameters.
\<close>

section \<open>Files, variables and programs\<close>

definition file_mode :: "env \<Rightarrow> string \<Rightarrow> ('z sys_scheme, u32 option, 'e) act" where
  "file_mode E path = (\<lambda>w. (Ok (e_file_mode E (tick w) path), w\<lparr>tick := Suc (tick w)\<rparr>))"

definition is_file :: "env \<Rightarrow> string \<Rightarrow> ('z sys_scheme, bool, 'e) act" where
  "is_file E path = (\<lambda>w. (Ok (e_is_file E (tick w) path), w\<lparr>tick := Suc (tick w)\<rparr>))"

definition env_var :: "env \<Rightarrow> string \<Rightarrow> ('z sys_scheme, string option, 'e) act" where
  "env_var E name = (\<lambda>w. (Ok (e_var E (tick w) name), w\<lparr>tick := Suc (tick w)\<rparr>))"

text \<open>\<open>Path::join\<close> with a relative name.\<close>

definition path_join :: "string \<Rightarrow> string \<Rightarrow> string" where
  "path_join p c = (if p = [] then c else if last p = CHR ''/'' then p @ c else p @ ''/'' @ c)"

fun any_file :: "env \<Rightarrow> string list \<Rightarrow> ('z sys_scheme, bool, 'e) act" where
  "any_file E [] = ret False"
| "any_file E (p # ps) = bnd (is_file E p) (\<lambda>here. if here then ret True else any_file E ps)"

definition command_exists :: "env \<Rightarrow> string \<Rightarrow> ('z sys_scheme, bool, 'e) act" where
  "command_exists E command =
     bnd (env_var E ''PATH'') (\<lambda>paths. case paths of
       None \<Rightarrow> ret False
     | Some ps \<Rightarrow> any_file E (map (\<lambda>p. path_join p command) (split_char CHR '':'' ps)))"

fun all_commands :: "env \<Rightarrow> string list \<Rightarrow> ('z sys_scheme, bool, 'e) act" where
  "all_commands E [] = ret True"
| "all_commands E (c # cs) =
     bnd (command_exists E c) (\<lambda>here. if here then all_commands E cs else ret False)"

definition readable_writable :: "env \<Rightarrow> string \<Rightarrow> ('z sys_scheme, bool, 'e) act" where
  "readable_writable E path =
     bnd (file_mode E path) (\<lambda>m. case m of
       None \<Rightarrow> ret False
     | Some mode \<Rightarrow> ret (and mode 384 \<noteq> 0))"

definition path_exists :: "env \<Rightarrow> string \<Rightarrow> ('z sys_scheme, bool, 'e) act" where
  "path_exists E path = bnd (file_mode E path) (\<lambda>m. ret (m \<noteq> None))"

section \<open>The tpm2-tools provider\<close>

definition tpm2_provider_id :: string where
  "tpm2_provider_id = ''linux-tpm2-tools-seal''"

datatype tpm2_error =
    TpmInvalidRootKeyLength | TpmUnsupportedProvider | TpmUnavailable string | MissingCommand string
  | CommandFailed string string | TpmIdentityMismatch | TpmKeyLengthFromTpm | TpmDecode | TpmIo

record tpm2_status =
  ts_available :: bool
  ts_device_path :: string
  ts_tools_available :: bool
  ts_device_accessible :: bool
  ts_detail :: string

record tpm2_binding =
  tb_provider_id :: string
  tb_vault_id :: string
  tb_device_path :: string
  tb_parent_hierarchy :: string
  tb_public :: string
  tb_private :: string
  tb_public_info_sha256 :: string
  tb_assurance_level :: string
  tb_warning :: string

definition default_device :: string where
  "default_device = ''/dev/tpmrm0''"

definition tpm2_commands :: "string list" where
  "tpm2_commands = [''tpm2_createprimary'', ''tpm2_create'', ''tpm2_load'', ''tpm2_unseal'',
     ''tpm2_readpublic'']"

definition device_accessible :: "env \<Rightarrow> string \<Rightarrow> ('z sys_scheme, bool, 'e) act" where
  "device_accessible E device =
     bnd (path_exists E device) (\<lambda>here. if here then readable_writable E device else ret False)"

definition tpm2_detect :: "env \<Rightarrow> string \<Rightarrow> ('z sys_scheme, tpm2_status, 'e) act" where
  "tpm2_detect E device =
     bnd (all_commands E tpm2_commands) (\<lambda>tools_available.
     bnd (device_accessible E device) (\<lambda>accessible.
     bnd (path_exists E device) (\<lambda>still.
     let detail = (if \<not> still then device @ '' does not exist''
       else if \<not> accessible then device @ '' exists but is not readable/writable by this user''
       else if \<not> tools_available then ''required tpm2-tools commands are not installed''
       else ''TPM device and tpm2-tools are available'')
     in ret \<lparr>ts_available = (tools_available \<and> accessible), ts_device_path = device,
       ts_tools_available = tools_available, ts_device_accessible = accessible,
       ts_detail = detail\<rparr>)))"

definition tpm2_require_available :: "env \<Rightarrow> string \<Rightarrow> ('z sys_scheme, unit, tpm2_error) act" where
  "tpm2_require_available E device =
     bnd (tpm2_detect E device) (\<lambda>status.
     if ts_available status then ret () else fail (TpmUnavailable (ts_detail status)))"

text \<open>
  The programs work on the files of a temporary directory, which the call makes and drops: the state
  of the body is the system and those files.
\<close>

definition outer :: "('w, 'a, 'e) act \<Rightarrow> ('w \<times> files, 'a, 'e) act" where
  "outer m = (\<lambda>(w, fs). case m w of (r, w') \<Rightarrow> (r, (w', fs)))"

definition write_file :: "env \<Rightarrow> string \<Rightarrow> bytes \<Rightarrow> ('z sys_scheme \<times> files, unit, tpm2_error) act" where
  "write_file E path content = (\<lambda>(w, fs).
     if e_write_ok E (tick w) path
     then (Ok (), (w\<lparr>tick := Suc (tick w)\<rparr>, fs(path \<mapsto> content)))
     else (Err TpmIo, (w\<lparr>tick := Suc (tick w)\<rparr>, fs)))"

definition read_file :: "string \<Rightarrow> ('w \<times> files, bytes, tpm2_error) act" where
  "read_file path = (\<lambda>(w, fs). (ok_or (fs path) TpmIo, (w, fs)))"

definition tpm2_run :: "env \<Rightarrow> string \<Rightarrow> string \<Rightarrow> string list \<Rightarrow> bool
    \<Rightarrow> ('z sys_scheme \<times> files, bytes, tpm2_error) act" where
  "tpm2_run E device command args capture = (\<lambda>(w, fs).
     let (outcome, fs') = e_run E (tick w) command args [(''TPM2TOOLS_TCTI'', ''device:'' @ device)] fs;
         s' = (w\<lparr>tick := Suc (tick w)\<rparr>, fs')
     in case outcome of
          NotFound \<Rightarrow> (Err (MissingCommand command), s')
        | SpawnFailed \<Rightarrow> (Err TpmIo, s')
        | Exited ok out err \<Rightarrow>
            (if \<not> ok then Err (CommandFailed command (trim (utf8_lossy err)))
             else Ok (if capture then out else []), s'))"

definition path_str :: "string \<Rightarrow> (string, tpm2_error) result" where
  "path_str path = (if utf8_valid (as_bytes path) then Ok path
     else Err (TpmUnavailable ''temporary path is not UTF-8''))"

fun path_strs :: "string list \<Rightarrow> (string list, tpm2_error) result" where
  "path_strs [] = Ok []"
| "path_strs (p # ps) = bind_r (path_str p) (\<lambda>q. bind_r (path_strs ps) (\<lambda>qs. Ok (q # qs)))"

definition create_primary_in :: "env \<Rightarrow> string \<Rightarrow> string \<Rightarrow> ('z sys_scheme \<times> files, bytes, tpm2_error) act" where
  "create_primary_in E device dir =
     bnd (lift_r (path_str (path_join dir ''primary.ctx''))) (\<lambda>primary_ctx.
     tpm2_run E device ''tpm2_createprimary'' [''-C'', ''o'', ''-G'', ''ecc'', ''-c'', primary_ctx] False)"

definition load_in :: "env \<Rightarrow> string \<Rightarrow> string \<Rightarrow> ('z sys_scheme \<times> files, bytes, tpm2_error) act" where
  "load_in E device dir =
     bnd (lift_r (path_strs (map (path_join dir)
       [''primary.ctx'', ''sealed.pub'', ''sealed.priv'', ''sealed.ctx'']))) (\<lambda>ps.
     tpm2_run E device ''tpm2_load''
       [''-C'', ps ! 0, ''-u'', ps ! 1, ''-r'', ps ! 2, ''-c'', ps ! 3] False)"

definition readpublic_in :: "env \<Rightarrow> string \<Rightarrow> string \<Rightarrow> ('z sys_scheme \<times> files, bytes, tpm2_error) act" where
  "readpublic_in E device dir =
     bnd (lift_r (path_str (path_join dir ''sealed.ctx''))) (\<lambda>ctx.
     tpm2_run E device ''tpm2_readpublic'' [''-c'', ctx] True)"

definition seal_in :: "env \<Rightarrow> string \<Rightarrow> string \<Rightarrow> ('z sys_scheme \<times> files, bytes, tpm2_error) act" where
  "seal_in E device dir =
     seq (create_primary_in E device dir)
    (seq (bnd (lift_r (path_strs (map (path_join dir)
         [''primary.ctx'', ''root.key'', ''sealed.pub'', ''sealed.priv'']))) (\<lambda>ps.
       tpm2_run E device ''tpm2_create''
         [''-C'', ps ! 0, ''-i'', ps ! 1, ''-u'', ps ! 2, ''-r'', ps ! 3] False))
    (seq (load_in E device dir)
     (readpublic_in E device dir)))"

text \<open>
  The result of the programs is looked at only after the key file is overwritten; the result of the
  overwriting is dropped.
\<close>

definition and_then_always :: "('w, 'a, 'e) act \<Rightarrow> ('w, unit, 'f) act \<Rightarrow> ('w, 'a, 'e) act" where
  "and_then_always m last_step = (\<lambda>s. case m s of
       (Panic, s1) \<Rightarrow> (Panic, s1)
     | (result, s1) \<Rightarrow> (result, snd (last_step s1)))"

definition wrap_in :: "env \<Rightarrow> string \<Rightarrow> string \<Rightarrow> bytes \<Rightarrow> string
    \<Rightarrow> ('z sys_scheme \<times> files, tpm2_binding, tpm2_error) act" where
  "wrap_in E device vault_id root_key dir =
     (let secret_path = path_join dir ''root.key'' in
     seq (write_file E secret_path root_key)
    (bnd (and_then_always (seal_in E device dir) (write_file E secret_path (replicate key_size 0)))
       (\<lambda>public_info.
     bnd (read_file (path_join dir ''sealed.pub'')) (\<lambda>pub.
     bnd (read_file (path_join dir ''sealed.priv'')) (\<lambda>priv.
     ret \<lparr>tb_provider_id = tpm2_provider_id, tb_vault_id = vault_id, tb_device_path = device,
       tb_parent_hierarchy = ''owner'', tb_public = e_b64url E pub, tb_private = e_b64url E priv,
       tb_public_info_sha256 = e_b64url E (e_sha256 E public_info), tb_assurance_level = ''A2'',
       tb_warning = ''tpm2-tools bridge provider; direct TPM bindings are preferred for production.''\<rparr>)))))"

definition tempdir :: "env \<Rightarrow> ('z sys_scheme, string, tpm2_error) act" where
  "tempdir E = (\<lambda>w. (ok_or (e_temp_dir E (tick w)) TpmIo, w\<lparr>tick := Suc (tick w)\<rparr>))"

definition in_tempdir :: "env \<Rightarrow> (string \<Rightarrow> ('z sys_scheme \<times> files, 'a, tpm2_error) act)
    \<Rightarrow> ('z sys_scheme, 'a, tpm2_error) act" where
  "in_tempdir E body =
     bnd (tempdir E) (\<lambda>dir w. case body dir (w, Map.empty) of (r, (w', fs)) \<Rightarrow> (r, w'))"

definition tpm2_wrap :: "env \<Rightarrow> string \<Rightarrow> string \<Rightarrow> bytes \<Rightarrow> ('z sys_scheme, tpm2_binding, tpm2_error) act" where
  "tpm2_wrap E device vault_id root_key =
     (if length root_key \<noteq> key_size then fail TpmInvalidRootKeyLength
      else seq (tpm2_require_available E device)
        (in_tempdir E (wrap_in E device vault_id root_key)))"

definition unwrap_in :: "env \<Rightarrow> string \<Rightarrow> tpm2_binding \<Rightarrow> string
    \<Rightarrow> ('z sys_scheme \<times> files, bytes, tpm2_error) act" where
  "unwrap_in E device b dir =
     bnd (lift_r (ok_or (e_b64url_dec E (tb_public b)) TpmDecode)) (\<lambda>pub.
     seq (write_file E (path_join dir ''sealed.pub'') pub)
    (bnd (lift_r (ok_or (e_b64url_dec E (tb_private b)) TpmDecode)) (\<lambda>priv.
     seq (write_file E (path_join dir ''sealed.priv'') priv)
    (seq (create_primary_in E device dir)
    (seq (load_in E device dir)
    (bnd (readpublic_in E device dir) (\<lambda>public_info.
     let actual_hash = e_b64url E (e_sha256 E public_info) in
     if tb_public_info_sha256 b \<noteq> [] \<and> tb_public_info_sha256 b \<noteq> actual_hash
     then fail TpmIdentityMismatch
     else
     bnd (lift_r (path_str (path_join dir ''sealed.ctx''))) (\<lambda>ctx.
     bnd (tpm2_run E device ''tpm2_unseal'' [''-c'', ctx] True) (\<lambda>root_key.
     if length root_key = key_size then ret root_key else fail TpmKeyLengthFromTpm)))))))))"

definition tpm2_unwrap :: "env \<Rightarrow> string \<Rightarrow> tpm2_binding \<Rightarrow> ('z sys_scheme, bytes, tpm2_error) act" where
  "tpm2_unwrap E device b =
     (if tb_provider_id b \<noteq> tpm2_provider_id then fail TpmUnsupportedProvider
      else seq (tpm2_require_available E device) (in_tempdir E (unwrap_in E device b)))"

definition tpm2_self_test :: "env \<Rightarrow> string \<Rightarrow> ('z sys_scheme, tpm2_status, tpm2_error) act" where
  "tpm2_self_test E device =
     bnd (tpm2_detect E device) (\<lambda>status.
     if \<not> ts_available status then ret status
     else
     bnd (random_bytes E key_size) (\<lambda>root_key.
     bnd (tpm2_wrap E device ''self-test'' root_key) (\<lambda>b.
     bnd (tpm2_unwrap E device b) (\<lambda>unwrapped.
     if unwrapped \<noteq> root_key
     then fail (CommandFailed ''tpm2_unseal'' ''TPM seal/unseal self-test mismatch'')
     else ret status))))"

definition enc_tpm2_binding :: "tpm2_binding \<Rightarrow> json" where
  "enc_tpm2_binding b = to_value
     [(''provider_id'', JStr (tb_provider_id b)),
      (''vault_id'', JStr (tb_vault_id b)),
      (''device_path'', JStr (tb_device_path b)),
      (''parent_hierarchy'', JStr (tb_parent_hierarchy b)),
      (''public'', JStr (tb_public b)),
      (''private'', JStr (tb_private b)),
      (''public_info_sha256'', JStr (tb_public_info_sha256 b)),
      (''assurance_level'', JStr (tb_assurance_level b)),
      (''warning'', JStr (tb_warning b))]"

definition dec_tpm2_binding :: "json \<Rightarrow> tpm2_binding option" where
  "dec_tpm2_binding v = do {
     m \<leftarrow> dec_obj v;
     provider_id \<leftarrow> fld dec_str ''provider_id'' m;
     vault_id \<leftarrow> fld dec_str ''vault_id'' m;
     device_path \<leftarrow> fld dec_str ''device_path'' m;
     parent_hierarchy \<leftarrow> fld dec_str ''parent_hierarchy'' m;
     pub \<leftarrow> fld dec_str ''public'' m;
     priv \<leftarrow> fld dec_str ''private'' m;
     info \<leftarrow> fld dec_str ''public_info_sha256'' m;
     assurance_level \<leftarrow> fld dec_str ''assurance_level'' m;
     warning \<leftarrow> fld dec_str ''warning'' m;
     Some \<lparr>tb_provider_id = provider_id, tb_vault_id = vault_id, tb_device_path = device_path,
       tb_parent_hierarchy = parent_hierarchy, tb_public = pub, tb_private = priv,
       tb_public_info_sha256 = info, tb_assurance_level = assurance_level, tb_warning = warning\<rparr>
   }"

interpretation tpm2_binding_codec: json_codec enc_tpm2_binding dec_tpm2_binding "\<lambda>_. True"
proof
  show "dec_tpm2_binding (enc_tpm2_binding b) = Some b" for b
    by (simp add: dec_tpm2_binding_def enc_tpm2_binding_def to_value_def)
qed

section \<open>The TSS library provider\<close>

definition esapi_provider_id :: string where
  "esapi_provider_id = ''linux-tpm2-esapi-seal''"

datatype esapi_error =
    EsInvalidRootKeyLength | EsUnsupportedProvider | EsUnavailable string | EsIdentityMismatch
  | EsKeyLengthFromTpm | EsDecode | EsTss

record esapi_status =
  es_available :: bool
  es_device_path :: string
  es_tcti :: string
  es_device_accessible :: bool
  es_direct_bindings_available :: bool
  es_detail :: string

record esapi_binding =
  eb_provider_id :: string
  eb_vault_id :: string
  eb_device_path :: string
  eb_tcti :: string
  eb_parent_hierarchy :: string
  eb_public :: string
  eb_private :: string
  eb_public_info_sha256 :: string
  eb_assurance_level :: string
  eb_warning :: string

definition tcti :: "string \<Rightarrow> string" where
  "tcti device = ''device:'' @ device"

definition tss_context :: "env \<Rightarrow> string \<Rightarrow> ('z sys_scheme, bool, 'e) act" where
  "tss_context E name = (\<lambda>w. (Ok (e_tss_context E (tick w) name), w\<lparr>tick := Suc (tick w)\<rparr>))"

text \<open>
  A context, the primary key of the owner hierarchy and the sealed object under it: the library's
  part of sealing and of unsealing.
\<close>

definition tss_seal :: "env \<Rightarrow> string \<Rightarrow> bytes \<Rightarrow> ('z sys_scheme, bytes \<times> bytes, esapi_error) act" where
  "tss_seal E name key = (\<lambda>w.
     (ok_or (e_tss_seal E (tick w) name key) EsTss, w\<lparr>tick := Suc (tick w)\<rparr>))"

definition tss_unseal :: "env \<Rightarrow> string \<Rightarrow> bytes \<Rightarrow> bytes \<Rightarrow> ('z sys_scheme, bytes, esapi_error) act" where
  "tss_unseal E name pub priv = (\<lambda>w.
     (ok_or (e_tss_unseal E (tick w) name pub priv) EsTss, w\<lparr>tick := Suc (tick w)\<rparr>))"

definition esapi_detect :: "env \<Rightarrow> string \<Rightarrow> ('z sys_scheme, esapi_status, 'e) act" where
  "esapi_detect E device =
     bnd (device_accessible E device) (\<lambda>accessible.
     bnd (if accessible then tss_context E (tcti device) else ret False) (\<lambda>direct.
     bnd (path_exists E device) (\<lambda>still.
     let detail = (if \<not> still then device @ '' does not exist''
       else if \<not> accessible then device @ '' exists but is not readable/writable by this user''
       else if \<not> direct then ''TPM device exists, but native TSS2/ESAPI context creation failed''
       else ''TPM device and native TSS2/ESAPI bindings are available'')
     in ret \<lparr>es_available = (accessible \<and> direct), es_device_path = device, es_tcti = tcti device,
       es_device_accessible = accessible, es_direct_bindings_available = direct,
       es_detail = detail\<rparr>)))"

definition esapi_require_available :: "env \<Rightarrow> string \<Rightarrow> ('z sys_scheme, unit, esapi_error) act" where
  "esapi_require_available E device =
     bnd (esapi_detect E device) (\<lambda>status.
     if es_available status then ret () else fail (EsUnavailable (es_detail status)))"

definition esapi_wrap :: "env \<Rightarrow> string \<Rightarrow> string \<Rightarrow> bytes \<Rightarrow> ('z sys_scheme, esapi_binding, esapi_error) act" where
  "esapi_wrap E device vault_id root_key =
     (if length root_key \<noteq> key_size then fail EsInvalidRootKeyLength
      else seq (esapi_require_available E device)
     (bnd (tss_seal E (tcti device) root_key) (\<lambda>(pub, priv).
     ret \<lparr>eb_provider_id = esapi_provider_id, eb_vault_id = vault_id, eb_device_path = device,
       eb_tcti = tcti device, eb_parent_hierarchy = ''owner'', eb_public = e_b64url E pub,
       eb_private = e_b64url E priv, eb_public_info_sha256 = e_b64url E (e_sha256 E pub),
       eb_assurance_level = ''A2'',
       eb_warning = ''native TPM2-TSS ESAPI provider; sealed root key cannot be unwrapped without this TPM and owner hierarchy.''\<rparr>)))"

definition esapi_unwrap :: "env \<Rightarrow> string \<Rightarrow> esapi_binding \<Rightarrow> ('z sys_scheme, bytes, esapi_error) act" where
  "esapi_unwrap E device b =
     (if eb_provider_id b \<noteq> esapi_provider_id then fail EsUnsupportedProvider
      else seq (esapi_require_available E device)
     (bnd (lift_r (ok_or (e_b64url_dec E (eb_public b)) EsDecode)) (\<lambda>pub.
     let actual_hash = e_b64url E (e_sha256 E pub) in
     if eb_public_info_sha256 b \<noteq> [] \<and> eb_public_info_sha256 b \<noteq> actual_hash
     then fail EsIdentityMismatch
     else
     bnd (lift_r (ok_or (e_b64url_dec E (eb_private b)) EsDecode)) (\<lambda>priv.
     bnd (tss_unseal E (tcti device) pub priv) (\<lambda>root_key.
     if length root_key = key_size then ret root_key else fail EsKeyLengthFromTpm)))))"

definition esapi_self_test :: "env \<Rightarrow> string \<Rightarrow> ('z sys_scheme, esapi_status, esapi_error) act" where
  "esapi_self_test E device =
     bnd (esapi_detect E device) (\<lambda>status.
     if \<not> es_available status then ret status
     else
     bnd (random_bytes E key_size) (\<lambda>root_key.
     bnd (esapi_wrap E device ''self-test'' root_key) (\<lambda>b.
     bnd (esapi_unwrap E device b) (\<lambda>unwrapped.
     if unwrapped \<noteq> root_key then fail EsIdentityMismatch else ret status))))"

definition enc_esapi_binding :: "esapi_binding \<Rightarrow> json" where
  "enc_esapi_binding b = to_value
     [(''provider_id'', JStr (eb_provider_id b)),
      (''vault_id'', JStr (eb_vault_id b)),
      (''device_path'', JStr (eb_device_path b)),
      (''tcti'', JStr (eb_tcti b)),
      (''parent_hierarchy'', JStr (eb_parent_hierarchy b)),
      (''public'', JStr (eb_public b)),
      (''private'', JStr (eb_private b)),
      (''public_info_sha256'', JStr (eb_public_info_sha256 b)),
      (''assurance_level'', JStr (eb_assurance_level b)),
      (''warning'', JStr (eb_warning b))]"

definition dec_esapi_binding :: "json \<Rightarrow> esapi_binding option" where
  "dec_esapi_binding v = do {
     m \<leftarrow> dec_obj v;
     provider_id \<leftarrow> fld dec_str ''provider_id'' m;
     vault_id \<leftarrow> fld dec_str ''vault_id'' m;
     device_path \<leftarrow> fld dec_str ''device_path'' m;
     name \<leftarrow> fld dec_str ''tcti'' m;
     parent_hierarchy \<leftarrow> fld dec_str ''parent_hierarchy'' m;
     pub \<leftarrow> fld dec_str ''public'' m;
     priv \<leftarrow> fld dec_str ''private'' m;
     info \<leftarrow> fld dec_str ''public_info_sha256'' m;
     assurance_level \<leftarrow> fld dec_str ''assurance_level'' m;
     warning \<leftarrow> fld dec_str ''warning'' m;
     Some \<lparr>eb_provider_id = provider_id, eb_vault_id = vault_id, eb_device_path = device_path,
       eb_tcti = name, eb_parent_hierarchy = parent_hierarchy, eb_public = pub, eb_private = priv,
       eb_public_info_sha256 = info, eb_assurance_level = assurance_level, eb_warning = warning\<rparr>
   }"

interpretation esapi_binding_codec: json_codec enc_esapi_binding dec_esapi_binding "\<lambda>_. True"
proof
  show "dec_esapi_binding (enc_esapi_binding b) = Some b" for b
    by (simp add: dec_esapi_binding_def enc_esapi_binding_def to_value_def)
qed

section \<open>The YubiKey detector\<close>

definition yubikey_provider_id :: string where
  "yubikey_provider_id = ''yubikey-piv''"

record yubikey_status =
  yk_available :: bool
  yk_provider_id :: string
  yk_ykman_available :: bool
  yk_opensc_tool_available :: bool
  yk_pkcs11_tool_available :: bool
  yk_piv_tool_available :: bool
  yk_token_present :: bool
  yk_detail :: string

definition command_has_stdout :: "env \<Rightarrow> string \<Rightarrow> string list \<Rightarrow> ('z sys_scheme, bool, 'e) act" where
  "command_has_stdout E command args = (\<lambda>w.
     (Ok (case fst (e_run E (tick w) command args [] Map.empty) of
        Exited ok out err \<Rightarrow> ok \<and> trim (utf8_lossy out) \<noteq> []
      | _ \<Rightarrow> False), w\<lparr>tick := Suc (tick w)\<rparr>))"

definition asked :: "bool \<Rightarrow> ('z sys_scheme, bool, 'e) act \<Rightarrow> ('z sys_scheme, bool, 'e) act" where
  "asked b m = (if b then m else ret False)"

definition token_present :: "env \<Rightarrow> bool \<Rightarrow> bool \<Rightarrow> bool \<Rightarrow> ('z sys_scheme, bool, 'e) act" where
  "token_present E ykman opensc pkcs11 =
     bnd (asked ykman (command_has_stdout E ''ykman'' [''list''])) (\<lambda>found. if found then ret True else
     bnd (asked opensc (command_has_stdout E ''opensc-tool'' [''-l''])) (\<lambda>found. if found then ret True else
     bnd (asked pkcs11 (command_has_stdout E ''pkcs11-tool'' [''-L''])) (\<lambda>found. ret found)))"

definition yubikey_detect :: "env \<Rightarrow> ('z sys_scheme, yubikey_status, 'e) act" where
  "yubikey_detect E =
     bnd (command_exists E ''ykman'') (\<lambda>ykman.
     bnd (command_exists E ''opensc-tool'') (\<lambda>opensc.
     bnd (command_exists E ''pkcs11-tool'') (\<lambda>pkcs11.
     bnd (command_exists E ''piv-tool'') (\<lambda>piv.
     bnd (token_present E ykman opensc pkcs11) (\<lambda>present_now.
     let tooling = (ykman \<or> (opensc \<and> pkcs11) \<or> piv);
         available = (tooling \<and> present_now);
         detail = (if available then ''YubiKey/PIV-compatible token and tooling detected''
           else if \<not> tooling then ''YubiKey/PIV tooling not found; install ykman or OpenSC tools''
           else if \<not> present_now then ''YubiKey/PIV tooling found, but no token was detected''
           else ''YubiKey/PIV provider unavailable'')
     in ret \<lparr>yk_available = available, yk_provider_id = yubikey_provider_id,
       yk_ykman_available = ykman, yk_opensc_tool_available = opensc,
       yk_pkcs11_tool_available = pkcs11, yk_piv_tool_available = piv,
       yk_token_present = present_now, yk_detail = detail\<rparr>)))))"

section \<open>The provider catalog\<close>

record catalog_entry =
  ce_provider_id :: string
  ce_name :: string
  ce_assurance_level :: string
  ce_hardware_backed :: bool
  ce_vault_binding_supported :: bool
  ce_available :: bool
  ce_detail :: string
  ce_warning :: "string option"
  ce_status :: json

definition enc_tpm2_status :: "tpm2_status \<Rightarrow> json" where
  "enc_tpm2_status s = to_value
     [(''available'', JBool (ts_available s)),
      (''device_path'', JStr (ts_device_path s)),
      (''tools_available'', JBool (ts_tools_available s)),
      (''device_accessible'', JBool (ts_device_accessible s)),
      (''detail'', JStr (ts_detail s))]"

definition enc_esapi_status :: "esapi_status \<Rightarrow> json" where
  "enc_esapi_status s = to_value
     [(''available'', JBool (es_available s)),
      (''device_path'', JStr (es_device_path s)),
      (''tcti'', JStr (es_tcti s)),
      (''device_accessible'', JBool (es_device_accessible s)),
      (''direct_bindings_available'', JBool (es_direct_bindings_available s)),
      (''detail'', JStr (es_detail s))]"

definition enc_system_status :: "system_status \<Rightarrow> json" where
  "enc_system_status s = to_value
     [(''available'', JBool (st_available s)),
      (''component_count'', enc_u64 (word_of_nat (st_component_count s))),
      (''components'', enc_list enc_component (st_components s)),
      (''fingerprint_sha256'', JStr (st_fingerprint_sha256 s)),
      (''detail'', JStr (st_detail s))]"

definition enc_yubikey_status :: "yubikey_status \<Rightarrow> json" where
  "enc_yubikey_status s = to_value
     [(''available'', JBool (yk_available s)),
      (''provider_id'', JStr (yk_provider_id s)),
      (''ykman_available'', JBool (yk_ykman_available s)),
      (''opensc_tool_available'', JBool (yk_opensc_tool_available s)),
      (''pkcs11_tool_available'', JBool (yk_pkcs11_tool_available s)),
      (''piv_tool_available'', JBool (yk_piv_tool_available s)),
      (''token_present'', JBool (yk_token_present s)),
      (''detail'', JStr (yk_detail s))]"

definition local_provider_catalog :: "env \<Rightarrow> string \<Rightarrow> ('z sys_scheme, catalog_entry list, 'e) act" where
  "local_provider_catalog E tpm_device =
     bnd (tpm2_detect E tpm_device) (\<lambda>tpm2.
     bnd (esapi_detect E tpm_device) (\<lambda>esapi.
     bnd (system_detect E) (\<lambda>system.
     bnd (yubikey_detect E) (\<lambda>yubikey.
     ret
       [\<lparr>ce_provider_id = passphrase_provider_id, ce_name = ''Passphrase'', ce_assurance_level = ''A1'',
         ce_hardware_backed = False, ce_vault_binding_supported = True, ce_available = True,
         ce_detail = ''passphrase provider is always available'',
         ce_warning = Some ''Security depends on passphrase strength and local vault file protection.'',
         ce_status = to_value [(''available'', JBool True), (''requires_secret_input'', JBool True)]\<rparr>,
        \<lparr>ce_provider_id = esapi_provider_id, ce_name = ''Linux TPM2 Direct'', ce_assurance_level = ''A2'',
         ce_hardware_backed = True, ce_vault_binding_supported = True,
         ce_available = es_available esapi, ce_detail = es_detail esapi,
         ce_warning = Some ''Native TPM2-TSS ESAPI provider.'',
         ce_status = enc_esapi_status esapi\<rparr>,
        \<lparr>ce_provider_id = tpm2_provider_id, ce_name = ''Linux TPM2 Tools'', ce_assurance_level = ''A2'',
         ce_hardware_backed = True, ce_vault_binding_supported = True,
         ce_available = ts_available tpm2, ce_detail = ts_detail tpm2,
         ce_warning = Some ''Current TPM2 implementation uses the tpm2-tools bridge.'',
         ce_status = enc_tpm2_status tpm2\<rparr>,
        \<lparr>ce_provider_id = system_fingerprint_provider_id, ce_name = ''System Fingerprint'',
         ce_assurance_level = ''A1'', ce_hardware_backed = False, ce_vault_binding_supported = True,
         ce_available = st_available system, ce_detail = st_detail system,
         ce_warning = Some ''Binds to local machine identifiers but is not a hardware security boundary.'',
         ce_status = enc_system_status system\<rparr>,
        \<lparr>ce_provider_id = yubikey_provider_id, ce_name = ''YubiKey/PIV'', ce_assurance_level = ''A2'',
         ce_hardware_backed = True, ce_vault_binding_supported = False,
         ce_available = yk_available yubikey, ce_detail = yk_detail yubikey,
         ce_warning = Some ''Readiness detection only; vault root-key wrap/unwrap is not implemented yet.'',
         ce_status = enc_yubikey_status yubikey\<rparr>]))))"

section \<open>The TSS provider keeps the promise\<close>

text \<open>A sealed object unseals to what was sealed.\<close>

definition tss_ok :: "env \<Rightarrow> bool" where
  "tss_ok E \<longleftrightarrow> (\<forall>t t' name key pub priv.
     e_tss_seal E t name key = Some (pub, priv) \<longrightarrow> e_tss_unseal E t' name pub priv = Some key)"

interpretation esapi: root_key_provider "esapi_wrap E device" "\<lambda>vid. esapi_unwrap E device"
  "tss_ok E \<and> b64url_ok E" "\<lambda>w. is_ok (fst (esapi_require_available E device w))" for E device
proof
  show "length rk = key_size" if "esapi_wrap E device vid rk w = (Ok b, w')" for vid rk w b w'
    using that by (auto simp: esapi_wrap_def split: if_splits)
  show "length rk = key_size" if "esapi_unwrap E device b w = (Ok rk, w')" for b w rk w'
    using that by (auto simp: esapi_unwrap_def act_Ok_iff Let_def split: if_splits)
  show "fst (esapi_unwrap E device b v) = Ok rk"
    if st: "tss_ok E \<and> b64url_ok E" and run: "esapi_wrap E device vid rk w = (Ok b, w')"
      and up: "is_ok (fst (esapi_require_available E device v))" for vid rk w b w' v
  proof -
    obtain t pub priv where seal: "length rk = key_size" "e_tss_seal E t (tcti device) rk = Some (pub, priv)"
      and b: "eb_provider_id b = esapi_provider_id" "eb_public b = e_b64url E pub"
        "eb_private b = e_b64url E priv" "eb_public_info_sha256 b = e_b64url E (e_sha256 E pub)"
      using run by (auto simp: esapi_wrap_def act_Ok_iff tss_seal_def split: if_splits)
    have "e_tss_unseal E u (tcti device) pub priv = Some rk" for u
      using st seal(2) unfolding tss_ok_def by blast
    moreover obtain v' where "esapi_require_available E device v = (Ok (), v')"
      using up by (cases "esapi_require_available E device v") (auto simp: is_ok_iff)
    ultimately show ?thesis
      using st seal(1) b by (simp add: esapi_unwrap_def seq_step tss_unseal_def Let_def bnd_def
          lift_r_def ret_def)
  qed
qed

section \<open>The key file\<close>

lemma path_strs_not_Panic: "path_str p \<noteq> Panic" "path_strs ps \<noteq> Panic"
  by (induction ps) (auto simp: path_str_def bind_r_def split: result.splits)

lemma seal_in_no_panic: "no_panic (seal_in E device dir)"
proof -
  have "no_panic (tpm2_run E device c args cap)" for c args cap
    by (auto simp: no_panic_def tpm2_run_def Let_def split: prod.splits run_outcome.splits)
  then show ?thesis
    unfolding seal_in_def create_primary_in_def load_in_def readpublic_in_def
    by (intro keeps_intro path_strs_not_Panic)
qed

section \<open>Properties\<close>



end
