(* ===== verification/Vault.thy ===== *)
theory Vault
  imports Access Store Mfa Redaction Recovery Tpm
begin

text \<open>
  Component \<open>vault.rs\<close>, first part: unlocking a vault through its provider, the audit record every
  operation leaves, initialization, configuration, change of provider and recovery, secrets and TOTP.
  Tickets and rotation are in \<open>Vault_Access\<close>.
\<close>

section \<open>Errors and constants\<close>

datatype vault_error =
    VStore store_error | VProvider provider_error | VTpm2 tpm2_error | VEsapi esapi_error
  | VSystem system_error | VRecovery recovery_error | VCrypto crypto_error | VKeys key_error
  | VMfa mfa_error | VAudit audit_error | VTicket ticket_error | VJson
  | PassphraseRequired | VUnsupportedProvider string | InvalidSecretRef | SecretUnavailable string
  | TicketNotFound | PolicyDenied string | RotationJobNotFound | InvalidRotationState string
  | NewPassphraseRequired | RecoveryPackageVaultMismatch | MfaNotEnrolled | MfaInvalidCode
  | PlaintextExportDisabled | PlaintextExportMfaEnrollmentRequired | PlaintextExportMfaRequired
  | TicketPolicyChanged | TicketSecretVersionStale

definition vault_policy_id :: string where
  "vault_policy_id = ''default-deny''"

definition vault_policy_hash :: string where
  "vault_policy_hash = ''mvp-default-deny-policy''"

definition vault_provider_policy_hash :: string where
  "vault_provider_policy_hash = ''unbound-provider-policy''"

definition plaintext_export_config_key :: string where
  "plaintext_export_config_key = ''config.plaintext_export''"

definition status_string :: "secret_status \<Rightarrow> string" where
  "status_string status = status_name status"

definition secret_id_from_ref :: "env \<Rightarrow> string \<Rightarrow> (string, vault_error) result" where
  "secret_id_from_ref E secret_ref =
     (if \<not> starts_with secret_ref ''secret://'' then Err InvalidSecretRef
      else Ok (e_b64url E (take 18 (e_sha256 E (as_bytes secret_ref)))))"

section \<open>The provider binding of a header\<close>

definition binding_field :: "vault_header \<Rightarrow> string \<Rightarrow> string option" where
  "binding_field header name =
     (case vh_provider_binding header of
        JObj m \<Rightarrow> Option.bind (map_of m name) dec_str
      | _ \<Rightarrow> None)"

definition opt_or :: "'a option \<Rightarrow> 'a \<Rightarrow> 'a" where
  "opt_or x d = (case x of None \<Rightarrow> d | Some v \<Rightarrow> v)"

definition unwrap_root_key :: "env \<Rightarrow> vault_header \<Rightarrow> string option
    \<Rightarrow> ('z sys_scheme, bytes, vault_error) act" where
  "unwrap_root_key E header passphrase =
     (let provider_id = opt_or (binding_field header ''provider_id'') [];
          device = opt_or (binding_field header ''device_path'') default_device;
          binding = vh_provider_binding header in
      if provider_id = tpm2_provider_id then
        bnd (lift_r (ok_or (dec_tpm2_binding binding) VJson)) (\<lambda>b.
        on_err VTpm2 (tpm2_unwrap E device b))
      else if provider_id = esapi_provider_id then
        bnd (lift_r (ok_or (dec_esapi_binding binding) VJson)) (\<lambda>b.
        on_err VEsapi (esapi_unwrap E device b))
      else if provider_id = passphrase_provider_id then
        bnd (lift_r (ok_or passphrase PassphraseRequired)) (\<lambda>passphrase.
        bnd (lift_r (ok_or (dec_passphrase_binding binding) VJson)) (\<lambda>b.
        lift_r (map_err VProvider (passphrase_unwrap E (vh_vault_id header) b passphrase))))
      else if provider_id = system_fingerprint_provider_id then
        bnd (lift_r (ok_or (dec_system_binding binding) VJson)) (\<lambda>b.
        on_err VSystem (system_unwrap E (vh_vault_id header) b))
      else fail (VUnsupportedProvider provider_id))"

definition unlock :: "env \<Rightarrow> string option
    \<Rightarrow> ('z world_scheme, vault_header \<times> key_hierarchy, vault_error) act" where
  "unlock E passphrase =
     bnd (on_err VStore (load_header E)) (\<lambda>header.
     bnd (unwrap_root_key E header passphrase) (\<lambda>root_key.
     bnd (lift_r (map_err VKeys (key_hierarchy_new (vh_vault_id header) root_key))) (\<lambda>keys.
     ret (header, keys))))"

text \<open>The metadata of an audit event, a \<open>json!\<close> object.\<close>

definition meta :: "jmap \<Rightarrow> jmap" where
  "meta fs = map_build fs"

definition append_audit :: "env \<Rightarrow> vault_header \<Rightarrow> key_hierarchy \<Rightarrow> string \<Rightarrow> string \<Rightarrow> string \<Rightarrow> jmap
    \<Rightarrow> ('z world_scheme, audit_event, vault_error) act" where
  "append_audit E header keys event_type severity decision metadata =
     bnd (lift_r (audit_integrity_key E keys)) (\<lambda>mac_key.
     on_err VStore (append_audit_event E (\<lambda>events.
       bnd (audit_append E mac_key events (vh_vault_id header) (vh_namespace_id header)
         event_type severity decision metadata) (\<lambda>(event, _). ret event))))"

section \<open>Initialization\<close>

definition wrap_passphrase :: "env \<Rightarrow> string \<Rightarrow> string \<Rightarrow> bytes \<Rightarrow> ('z sys_scheme, json, vault_error) act" where
  "wrap_passphrase E passphrase vault_id root_key =
     bnd (on_err VProvider (passphrase_wrap E default_scrypt_params vault_id root_key passphrase))
       (\<lambda>b. ret (enc_passphrase_binding b))"

definition wrap_tpm2 :: "env \<Rightarrow> string \<Rightarrow> string \<Rightarrow> bytes \<Rightarrow> ('z sys_scheme, json, vault_error) act" where
  "wrap_tpm2 E device vault_id root_key =
     bnd (on_err VTpm2 (tpm2_wrap E device vault_id root_key)) (\<lambda>b. ret (enc_tpm2_binding b))"

definition wrap_esapi :: "env \<Rightarrow> string \<Rightarrow> string \<Rightarrow> bytes \<Rightarrow> ('z sys_scheme, json, vault_error) act" where
  "wrap_esapi E device vault_id root_key =
     bnd (on_err VEsapi (esapi_wrap E device vault_id root_key)) (\<lambda>b. ret (enc_esapi_binding b))"

definition wrap_system :: "env \<Rightarrow> string \<Rightarrow> bytes \<Rightarrow> ('z sys_scheme, json, vault_error) act" where
  "wrap_system E vault_id root_key =
     bnd (on_err VSystem (system_wrap E default_scrypt_params vault_id root_key))
       (\<lambda>b. ret (enc_system_binding b))"

definition init_vault :: "env \<Rightarrow> string \<Rightarrow> (string \<Rightarrow> bytes \<Rightarrow> ('z world_scheme, json, vault_error) act)
    \<Rightarrow> ('z world_scheme, vault_header, vault_error) act" where
  "init_vault E namespace_id wrap =
     bnd (new_uuid E) (\<lambda>vault_id.
     bnd (random_bytes E key_size) (\<lambda>root_key.
     bnd (wrap vault_id root_key) (\<lambda>binding.
     bnd (now E) (\<lambda>time.
     let header = \<lparr>vh_schema_version = schema_version, vh_vault_id = vault_id,
       vh_namespace_id = namespace_id, vh_provider_binding = binding,
       vh_created_at = e_time_ms E time\<rparr> in
     seq (on_err VStore (create_vault E header))
    (bnd (lift_r (map_err VKeys (key_hierarchy_new vault_id root_key))) (\<lambda>keys.
     seq (append_audit E header keys ''vault.initialized'' ''info'' ''allow''
       (meta [(''provider_id'', enc_opt JStr (binding_field header ''provider_id'')),
         (''assurance_level'', enc_opt JStr (binding_field header ''assurance_level''))]))
     (ret header)))))))"

definition init_passphrase :: "env \<Rightarrow> string \<Rightarrow> string \<Rightarrow> ('z world_scheme, vault_header, vault_error) act" where
  "init_passphrase E passphrase namespace_id = init_vault E namespace_id (wrap_passphrase E passphrase)"

definition init_tpm2 :: "env \<Rightarrow> string \<Rightarrow> string \<Rightarrow> ('z world_scheme, vault_header, vault_error) act" where
  "init_tpm2 E namespace_id device_path = init_vault E namespace_id (wrap_tpm2 E device_path)"

definition init_tpm2_esapi :: "env \<Rightarrow> string \<Rightarrow> string \<Rightarrow> ('z world_scheme, vault_header, vault_error) act" where
  "init_tpm2_esapi E namespace_id device_path = init_vault E namespace_id (wrap_esapi E device_path)"

definition init_system_fingerprint :: "env \<Rightarrow> string \<Rightarrow> ('z world_scheme, vault_header, vault_error) act" where
  "init_system_fingerprint E namespace_id = init_vault E namespace_id (wrap_system E)"

definition status :: "env \<Rightarrow> ('z world_scheme, vault_header, vault_error) act" where
  "status E = on_err VStore (load_header E)"

section \<open>Plaintext export\<close>

definition plaintext_export_enabled :: "env \<Rightarrow> ('z world_scheme, bool, vault_error) act" where
  "plaintext_export_enabled E =
     bnd (on_err VStore (get_metadata E plaintext_export_config_key)) (\<lambda>v.
     ret (v = Some ''enabled''))"

definition totp_mfa_enrolled :: "env \<Rightarrow> ('z world_scheme, bool, vault_error) act" where
  "totp_mfa_enrolled E =
     handle (load_latest_secret E totp_secret_ref)
       (\<lambda>record. ret (sr_status record = Active))
       (\<lambda>err. case err of SecretNotFound _ \<Rightarrow> ret False | _ \<Rightarrow> fail (VStore err))"

definition set_plaintext_export_enabled :: "env \<Rightarrow> string \<Rightarrow> bool \<Rightarrow> bool
    \<Rightarrow> ('z world_scheme, unit, vault_error) act" where
  "set_plaintext_export_enabled E passphrase enabled allow_without_mfa =
     bnd (unlock E (Some passphrase)) (\<lambda>(header, keys).
     bnd (if enabled \<and> \<not> allow_without_mfa then totp_mfa_enrolled E else ret True) (\<lambda>enrolled.
     if enabled \<and> \<not> allow_without_mfa \<and> \<not> enrolled then fail PlaintextExportMfaEnrollmentRequired
     else
     seq (on_err VStore (set_metadata E plaintext_export_config_key
       (if enabled then ''enabled'' else ''disabled'')))
    (seq (append_audit E header keys
       (if enabled then ''config.plaintext_export_enabled'' else ''config.plaintext_export_disabled'')
       ''critical'' ''allow''
       (meta [(''plaintext_export_enabled'', JBool enabled),
         (''allow_without_mfa'', JBool allow_without_mfa)]))
     (ret ()))))"

definition enforce_plaintext_export_allowed :: "env \<Rightarrow> bool \<Rightarrow> ('z world_scheme, unit, vault_error) act" where
  "enforce_plaintext_export_allowed E mfa_verified =
     bnd (plaintext_export_enabled E) (\<lambda>enabled.
     if \<not> enabled then fail PlaintextExportDisabled
     else
     bnd (totp_mfa_enrolled E) (\<lambda>enrolled.
     if enrolled \<and> \<not> mfa_verified then fail PlaintextExportMfaRequired else ret ()))"

section \<open>Change of provider and recovery\<close>

definition wrap_for_provider :: "env \<Rightarrow> string \<Rightarrow> string option \<Rightarrow> string \<Rightarrow> string \<Rightarrow> bytes
    \<Rightarrow> ('z sys_scheme, json, vault_error) act" where
  "wrap_for_provider E new_provider new_passphrase tpm_device vault_id root_key =
     (if new_provider = ''passphrase'' then
        bnd (lift_r (ok_or new_passphrase NewPassphraseRequired)) (\<lambda>passphrase.
        wrap_passphrase E passphrase vault_id root_key)
      else if new_provider = ''tpm2'' then wrap_tpm2 E tpm_device vault_id root_key
      else if new_provider = ''tpm2-direct'' \<or> new_provider = ''tpm2-esapi''
        then wrap_esapi E tpm_device vault_id root_key
      else if new_provider = ''system-fingerprint'' then wrap_system E vault_id root_key
      else fail (VUnsupportedProvider new_provider))"

definition rewrap_provider :: "env \<Rightarrow> string option \<Rightarrow> string \<Rightarrow> string option \<Rightarrow> string
    \<Rightarrow> ('z world_scheme, vault_header, vault_error) act" where
  "rewrap_provider E current_passphrase new_provider new_passphrase tpm_device =
     bnd (unlock E current_passphrase) (\<lambda>(header, keys).
     bnd (wrap_for_provider E new_provider new_passphrase tpm_device (vh_vault_id header)
       (kh_root_key keys)) (\<lambda>binding.
     let updated = header\<lparr>vh_provider_binding := binding\<rparr> in
     seq (on_err VStore (update_header E updated))
    (seq (append_audit E updated keys ''provider.rewrapped'' ''high'' ''allow''
       (meta [(''old_provider_id'', enc_opt JStr (binding_field header ''provider_id'')),
         (''new_provider_id'', enc_opt JStr (binding_field updated ''provider_id'')),
         (''assurance_level'', enc_opt JStr (binding_field updated ''assurance_level''))]))
     (ret updated))))"

definition create_recovery_package :: "env \<Rightarrow> string option \<Rightarrow> string
    \<Rightarrow> ('z world_scheme, recovery_package, vault_error) act" where
  "create_recovery_package E passphrase recovery_secret =
     bnd (unlock E passphrase) (\<lambda>(header, keys).
     bnd (on_err VRecovery (create_package E (vh_vault_id header) (kh_root_key keys) recovery_secret))
       (\<lambda>package.
     seq (append_audit E header keys ''recovery.package_created'' ''critical'' ''allow''
       (meta [(''recovery_id'', JStr (rp_recovery_id package))]))
     (ret package)))"

definition recover_provider_from_package :: "env \<Rightarrow> recovery_package \<Rightarrow> string \<Rightarrow> string \<Rightarrow> string option
    \<Rightarrow> string \<Rightarrow> ('z world_scheme, vault_header, vault_error) act" where
  "recover_provider_from_package E package recovery_secret new_provider new_passphrase tpm_device =
     bnd (on_err VStore (load_header E)) (\<lambda>header.
     if rp_vault_id package \<noteq> vh_vault_id header then fail RecoveryPackageVaultMismatch
     else
     bnd (lift_r (map_err VRecovery (recovery_unwrap E package recovery_secret))) (\<lambda>root_key.
     bnd (lift_r (map_err VKeys (key_hierarchy_new (vh_vault_id header) root_key))) (\<lambda>keys.
     bnd (wrap_for_provider E new_provider new_passphrase tpm_device (vh_vault_id header) root_key)
       (\<lambda>binding.
     let updated = header\<lparr>vh_provider_binding := binding\<rparr> in
     seq (on_err VStore (update_header E updated))
    (seq (append_audit E updated keys ''recovery.used'' ''critical'' ''allow''
       (meta [(''recovery_id'', JStr (rp_recovery_id package)),
         (''new_provider_id'', enc_opt JStr (binding_field updated ''provider_id''))]))
     (ret updated))))))"

section \<open>Secrets\<close>

definition next_version :: "env \<Rightarrow> string \<Rightarrow> ('z world_scheme, u64, vault_error) act" where
  "next_version E secret_ref =
     bnd (on_err VStore (latest_version E secret_ref)) (\<lambda>v. ret (opt_or v 0 + 1))"

definition vault_encrypt :: "env \<Rightarrow> vault_header \<Rightarrow> key_hierarchy \<Rightarrow> string \<Rightarrow> u64 \<Rightarrow> bytes \<Rightarrow> secret_type
    \<Rightarrow> ('z world_scheme, secret_record, vault_error) act" where
  "vault_encrypt E header keys secret_ref version plaintext secret_type =
     bnd (lift_r (secret_id_from_ref E secret_ref)) (\<lambda>secret_id.
     encrypt_secret E keys (vh_namespace_id header) secret_id secret_ref version plaintext secret_type
       vault_policy_id vault_policy_hash (hash_bytes E (as_bytes secret_ref)) vault_provider_policy_hash)"

definition put_secret :: "env \<Rightarrow> string \<Rightarrow> bytes \<Rightarrow> string \<Rightarrow> secret_type
    \<Rightarrow> ('z world_scheme, u64, vault_error) act" where
  "put_secret E secret_ref plaintext passphrase secret_type =
     bnd (unlock E (Some passphrase)) (\<lambda>(header, keys).
     bnd (next_version E secret_ref) (\<lambda>version.
     bnd (vault_encrypt E header keys secret_ref version plaintext secret_type) (\<lambda>record.
     seq (on_err VStore (save_secret_record E record))
    (bnd (lift_r (redaction_fingerprint_key E keys)) (\<lambda>fingerprint_key.
     seq (on_err VStore (save_redaction_fingerprint E secret_ref version
       (redaction_fingerprint E fingerprint_key plaintext)))
    (seq (append_audit E header keys ''secret.stored'' ''info'' ''allow''
       (meta [(''secret_ref'', JStr secret_ref), (''secret_version'', enc_u64 version)]))
     (ret version)))))))"

definition get_secret :: "env \<Rightarrow> string \<Rightarrow> string \<Rightarrow> ('z world_scheme, bytes, vault_error) act" where
  "get_secret E secret_ref passphrase =
     bnd (unlock E (Some passphrase)) (\<lambda>(header, keys).
     bnd (on_err VStore (load_latest_secret E secret_ref)) (\<lambda>record.
     if sr_status record \<noteq> Active then
       seq (append_audit E header keys ''secret.access_denied'' ''high'' ''deny''
         (meta [(''secret_ref'', JStr secret_ref), (''secret_version'', enc_u64 (sr_secret_version record)),
           (''reason'', JStr (''secret status is '' @ status_string (sr_status record)))]))
       (fail (SecretUnavailable (status_string (sr_status record))))
     else
     bnd (lift_r (map_err VCrypto (decrypt_secret E keys record))) (\<lambda>plaintext.
     seq (append_audit E header keys ''secret.materialized'' ''critical'' ''allow''
       (meta [(''secret_ref'', JStr secret_ref), (''secret_version'', enc_u64 (sr_secret_version record))]))
     (ret plaintext))))"

definition vault_list_secrets :: "env \<Rightarrow> ('z world_scheme, secret_summary list, vault_error) act" where
  "vault_list_secrets E = on_err VStore (list_secrets E)"

definition vault_load_latest_secret :: "env \<Rightarrow> string \<Rightarrow> ('z world_scheme, secret_record, vault_error) act" where
  "vault_load_latest_secret E secret_ref = on_err VStore (load_latest_secret E secret_ref)"

definition set_secret_status :: "env \<Rightarrow> string \<Rightarrow> string \<Rightarrow> secret_status \<Rightarrow> string \<Rightarrow> string
    \<Rightarrow> ('z world_scheme, secret_record, vault_error) act" where
  "set_secret_status E secret_ref passphrase new_status event severity =
     bnd (unlock E (Some passphrase)) (\<lambda>(header, keys).
     bnd (on_err VStore (save_updated_secret_status E secret_ref new_status)) (\<lambda>record.
     seq (append_audit E header keys event severity ''allow''
       (meta [(''secret_ref'', JStr secret_ref), (''secret_version'', enc_u64 (sr_secret_version record))]))
     (ret record)))"

definition disable_secret :: "env \<Rightarrow> string \<Rightarrow> string \<Rightarrow> ('z world_scheme, secret_record, vault_error) act" where
  "disable_secret E secret_ref passphrase =
     set_secret_status E secret_ref passphrase Disabled ''secret.disabled'' ''high''"

definition destroy_secret :: "env \<Rightarrow> string \<Rightarrow> string \<Rightarrow> ('z world_scheme, secret_record, vault_error) act" where
  "destroy_secret E secret_ref passphrase =
     set_secret_status E secret_ref passphrase Destroyed ''secret.destroyed'' ''critical''"

section \<open>TOTP\<close>

definition enroll_totp_mfa :: "env \<Rightarrow> string \<Rightarrow> string \<Rightarrow> string
    \<Rightarrow> ('z world_scheme, totp_enrollment, vault_error) act" where
  "enroll_totp_mfa E passphrase issuer account =
     bnd (unlock E (Some passphrase)) (\<lambda>(header, keys).
     bnd (new_totp_config E issuer account) (\<lambda>config.
     bnd (next_version E totp_secret_ref) (\<lambda>version.
     bnd (vault_encrypt E header keys totp_secret_ref version
       (as_bytes (e_json_print E (enc_totp_config config))) Token) (\<lambda>record.
     seq (on_err VStore (save_secret_record E record))
    (seq (append_audit E header keys ''mfa.totp_enrolled'' ''high'' ''allow''
       (meta [(''issuer'', JStr issuer), (''account'', JStr account),
         (''digits'', enc_u32 (tc_digits config)),
         (''period_seconds'', enc_u64 (tc_period_seconds config))]))
     (ret (enrollment config)))))))"

definition verify_totp_mfa :: "env \<Rightarrow> string \<Rightarrow> string \<Rightarrow> ('z world_scheme, unit, vault_error) act" where
  "verify_totp_mfa E passphrase code =
     bnd (unlock E (Some passphrase)) (\<lambda>(header, keys).
     bnd (handle (load_latest_secret E totp_secret_ref) ret
       (\<lambda>err. case err of SecretNotFound _ \<Rightarrow> fail MfaNotEnrolled | _ \<Rightarrow> fail (VStore err))) (\<lambda>record.
     if sr_status record \<noteq> Active then fail MfaNotEnrolled
     else
     bnd (lift_r (map_err VCrypto (decrypt_secret E keys record))) (\<lambda>plaintext.
     bnd (lift_r (ok_or (parse_as E dec_totp_config (from_bytes plaintext)) VJson)) (\<lambda>config.
     bnd (now E) (\<lambda>time.
     let unix_seconds = word_of_int (max (time div 10 ^ 9) 0) in
     bnd (lift_r (map_err VMfa (verify_totp_code E config code unix_seconds 1))) (\<lambda>valid.
     if valid then
       seq (append_audit E header keys ''mfa.totp_verified'' ''info'' ''allow''
         (meta [(''issuer'', JStr (tc_issuer config)), (''account'', JStr (tc_account config))]))
       (ret ())
     else
       seq (append_audit E header keys ''mfa.totp_denied'' ''high'' ''deny''
         (meta [(''issuer'', JStr (tc_issuer config)), (''account'', JStr (tc_account config)),
           (''reason'', JStr ''invalid code'')]))
       (fail MfaInvalidCode)))))))"

section \<open>The audit log\<close>

definition vault_list_audit_events :: "env \<Rightarrow> ('z world_scheme, audit_event list, vault_error) act" where
  "vault_list_audit_events E = on_err VStore (list_audit_events E)"

definition verify_audit :: "env \<Rightarrow> string \<Rightarrow> ('z world_scheme, unit, vault_error) act" where
  "verify_audit E passphrase =
     bnd (unlock E (Some passphrase)) (\<lambda>(header, keys).
     bnd (on_err VStore (list_audit_events E)) (\<lambda>events.
     bnd (lift_r (audit_integrity_key E keys)) (\<lambda>mac_key.
     lift_r (map_err VAudit (verify_audit_chain E events mac_key)))))"

end
