(* ===== verification/Vault_Access.thy ===== *)
theory Vault_Access
  imports Vault
begin

text \<open>
  Component \<open>vault.rs\<close>, second part: policies, the issue, validation, renewal, consumption and
  revocation of tickets, and rotation.
\<close>

section \<open>Policies\<close>

definition vault_save_policy :: "env \<Rightarrow> access_policy \<Rightarrow> string
    \<Rightarrow> ('z world_scheme, access_policy, vault_error) act" where
  "vault_save_policy E p passphrase =
     bnd (unlock E (Some passphrase)) (\<lambda>(header, keys).
     seq (on_err VStore (save_policy E p))
    (seq (append_audit E header keys ''policy.saved'' ''high'' ''allow''
       (meta [(''policy_id'', JStr (ap_policy_id p))]))
     (ret p)))"

definition vault_list_policies :: "env \<Rightarrow> ('z world_scheme, access_policy list, vault_error) act" where
  "vault_list_policies E = on_err VStore (list_policies E)"

definition vault_evaluate_policy :: "env \<Rightarrow> access_request
    \<Rightarrow> ('z world_scheme, bool \<times> string \<times> string option, vault_error) act" where
  "vault_evaluate_policy E r =
     bnd (on_err VStore (list_policies E)) (\<lambda>policies.
     let res = evaluate policies r in
     ret (er_decision res = Allow, er_reason res, map_option ap_policy_id (er_policy res)))"

section \<open>Tickets\<close>

definition delivery_mode_string :: "delivery_mode \<Rightarrow> string" where
  "delivery_mode_string m = mode_name m"

definition issue_ticket :: "env \<Rightarrow> access_request \<Rightarrow> string
    \<Rightarrow> ('z world_scheme, secret_access_ticket, vault_error) act" where
  "issue_ticket E r passphrase =
     bnd (unlock E (Some passphrase)) (\<lambda>(header, keys).
     bnd (on_err VStore (load_latest_secret E (rq_secret_ref r))) (\<lambda>record.
     if sr_status record \<noteq> Active then fail (SecretUnavailable (status_string (sr_status record)))
     else
     bnd (on_err VStore (list_policies E)) (\<lambda>policies.
     let res = evaluate policies r in
     case er_policy res of
       None \<Rightarrow>
         seq (append_audit E header keys ''ticket.issue_denied'' ''high'' ''deny''
           (meta [(''secret_ref'', JStr (rq_secret_ref r)), (''consumer'', JStr (rq_consumer r)),
             (''purpose'', JStr (rq_purpose r)), (''reason'', JStr (er_reason res))]))
         (fail (PolicyDenied (er_reason res)))
     | Some p \<Rightarrow>
     if er_decision res \<noteq> Allow then
         seq (append_audit E header keys ''ticket.issue_denied'' ''high'' ''deny''
           (meta [(''secret_ref'', JStr (rq_secret_ref r)), (''consumer'', JStr (rq_consumer r)),
             (''purpose'', JStr (rq_purpose r)), (''policy_id'', JStr (ap_policy_id p)),
             (''reason'', JStr (er_reason res))]))
         (fail (PolicyDenied (er_reason res)))
     else
     bnd (lift_r (ticket_mac_key E keys)) (\<lambda>mac_key.
     bnd (lift_r (policy_hash E p)) (\<lambda>hash.
     bnd (issue E mac_key (vh_vault_id header) (sr_secret_id record) (sr_secret_version record)
       r p hash (rq_broker_session_id r)) (\<lambda>ticket.
     seq (on_err VStore (save_ticket E ticket))
    (seq (append_audit E header keys ''ticket.issued'' ''info'' ''allow''
       (meta [(''secret_ref'', JStr (tk_secret_ref ticket)), (''consumer'', JStr (tk_consumer ticket)),
         (''purpose'', JStr (tk_purpose ticket)),
         (''delivery_mode'', JStr (delivery_mode_string (tk_delivery_mode ticket))),
         (''ticket_id'', JStr (tk_ticket_id ticket)), (''policy_id'', JStr (tk_policy_id ticket))]))
     (ret ticket))))))))"

definition vault_load_ticket :: "env \<Rightarrow> string \<Rightarrow> ('z world_scheme, secret_access_ticket, vault_error) act" where
  "vault_load_ticket E ticket_id =
     bnd (on_err VStore (load_ticket E ticket_id)) (\<lambda>t. lift_r (ok_or t TicketNotFound))"

definition vault_list_tickets :: "env \<Rightarrow> ('z world_scheme, secret_access_ticket list, vault_error) act" where
  "vault_list_tickets E = on_err VStore (list_tickets E)"

definition active_policy_for_ticket :: "env \<Rightarrow> secret_access_ticket
    \<Rightarrow> ('z world_scheme, access_policy, vault_error) act" where
  "active_policy_for_ticket E t =
     bnd (on_err VStore (list_policies E)) (\<lambda>policies.
     lift_r (ok_or (find (\<lambda>p. ap_policy_id p = tk_policy_id t) policies) TicketPolicyChanged))"

definition ensure_ticket_secret_is_current :: "env \<Rightarrow> secret_access_ticket
    \<Rightarrow> ('z world_scheme, unit, vault_error) act" where
  "ensure_ticket_secret_is_current E t =
     (if tk_secret_version t = 0 then ret ()
      else
      bnd (on_err VStore (load_latest_secret E (tk_secret_ref t))) (\<lambda>latest.
      if sr_secret_version latest = tk_secret_version t \<and> sr_status latest = Active then ret ()
      else fail TicketSecretVersionStale))"

definition check_ticket_policy :: "env \<Rightarrow> secret_access_ticket
    \<Rightarrow> ('z world_scheme, access_policy, vault_error) act" where
  "check_ticket_policy E t =
     bnd (active_policy_for_ticket E t) (\<lambda>p.
     bnd (lift_r (policy_hash E p)) (\<lambda>hash.
     seq (lift_r (map_err VTicket (validate_policy t p hash))) (ret p)))"

definition validate_ticket :: "env \<Rightarrow> string \<Rightarrow> access_request \<Rightarrow> string
    \<Rightarrow> ('z world_scheme, secret_access_ticket, vault_error) act" where
  "validate_ticket E ticket_id r passphrase =
     bnd (unlock E (Some passphrase)) (\<lambda>(header, keys).
     bnd (vault_load_ticket E ticket_id) (\<lambda>ticket.
     bnd (lift_r (ticket_mac_key E keys)) (\<lambda>mac_key.
     bnd (now E) (\<lambda>time.
     seq (lift_r (map_err VTicket (validate E mac_key ticket r time)))
    (seq (check_ticket_policy E ticket)
    (seq (ensure_ticket_secret_is_current E ticket)
     (ret ticket)))))))"

definition renew_ticket :: "env \<Rightarrow> string \<Rightarrow> access_request \<Rightarrow> string
    \<Rightarrow> ('z world_scheme, secret_access_ticket, vault_error) act" where
  "renew_ticket E ticket_id r passphrase =
     bnd (unlock E (Some passphrase)) (\<lambda>(header, keys).
     bnd (validate_ticket E ticket_id r passphrase) (\<lambda>old_ticket.
     bnd (active_policy_for_ticket E old_ticket) (\<lambda>p.
     bnd (lift_r (ticket_mac_key E keys)) (\<lambda>mac_key.
     bnd (lift_r (policy_hash E p)) (\<lambda>hash.
     bnd (issue E mac_key (vh_vault_id header) (tk_secret_id old_ticket) (tk_secret_version old_ticket)
       r p hash (tk_broker_session_id old_ticket)) (\<lambda>renewed.
     bnd (lift_r (map_err VTicket (revoke E mac_key old_ticket))) (\<lambda>revoked.
     seq (on_err VStore (save_ticket E revoked))
    (seq (on_err VStore (save_ticket E renewed))
    (seq (append_audit E header keys ''ticket.renewed'' ''info'' ''allow''
       (meta [(''old_ticket_id'', JStr (tk_ticket_id old_ticket)),
         (''ticket_id'', JStr (tk_ticket_id renewed)), (''secret_ref'', JStr (tk_secret_ref renewed)),
         (''policy_id'', JStr (tk_policy_id renewed))]))
     (ret renewed))))))))))"

definition consume_ticket_for_secret :: "env \<Rightarrow> string \<Rightarrow> access_request \<Rightarrow> string
    \<Rightarrow> ('z world_scheme, bytes, vault_error) act" where
  "consume_ticket_for_secret E ticket_id r passphrase =
     seq (if rq_raw_export_requested r then enforce_plaintext_export_allowed E (rq_mfa_verified r)
       else ret ())
    (bnd (unlock E (Some passphrase)) (\<lambda>(header, keys).
     bnd (vault_load_ticket E ticket_id) (\<lambda>ticket.
     bnd (lift_r (ticket_mac_key E keys)) (\<lambda>mac_key.
     bnd (now E) (\<lambda>time.
     bnd (lift_r (map_err VTicket (consume E mac_key ticket r time))) (\<lambda>updated.
     seq (check_ticket_policy E ticket)
    (seq (ensure_ticket_secret_is_current E ticket)
    (seq (on_err VStore (save_ticket_if_current E ticket updated))
    (bnd (on_err VStore (if tk_secret_version ticket = 0 then load_latest_secret E (tk_secret_ref ticket)
         else load_secret_version E (tk_secret_ref ticket) (tk_secret_version ticket))) (\<lambda>record.
     if sr_status record \<noteq> Active then
       seq (append_audit E header keys ''secret.access_denied'' ''high'' ''deny''
         (meta [(''secret_ref'', JStr (tk_secret_ref ticket)), (''ticket_id'', JStr (tk_ticket_id ticket)),
           (''reason'', JStr (''secret status is '' @ status_string (sr_status record)))]))
       (fail (SecretUnavailable (status_string (sr_status record))))
     else
     bnd (lift_r (map_err VCrypto (decrypt_secret E keys record))) (\<lambda>plaintext.
     seq (append_audit E header keys ''secret.materialized''
         (if rq_raw_export_requested r then ''critical'' else ''info'') ''allow''
         (meta [(''secret_ref'', JStr (tk_secret_ref ticket)), (''ticket_id'', JStr (tk_ticket_id ticket)),
           (''consumer'', JStr (rq_consumer r)), (''purpose'', JStr (rq_purpose r)),
           (''delivery_mode'', JStr (delivery_mode_string (rq_delivery_mode r)))]))
     (ret plaintext))))))))))))"

definition revoke_ticket :: "env \<Rightarrow> string \<Rightarrow> string
    \<Rightarrow> ('z world_scheme, secret_access_ticket, vault_error) act" where
  "revoke_ticket E ticket_id passphrase =
     bnd (unlock E (Some passphrase)) (\<lambda>(header, keys).
     bnd (vault_load_ticket E ticket_id) (\<lambda>ticket.
     bnd (lift_r (ticket_mac_key E keys)) (\<lambda>mac_key.
     bnd (lift_r (map_err VTicket (revoke E mac_key ticket))) (\<lambda>revoked.
     seq (on_err VStore (save_ticket E revoked))
    (seq (append_audit E header keys ''ticket.revoked'' ''high'' ''allow''
       (meta [(''ticket_id'', JStr ticket_id), (''secret_ref'', JStr (tk_secret_ref ticket))]))
     (ret revoked))))))"

fun revoke_each :: "env \<Rightarrow> bytes \<Rightarrow> secret_access_ticket list \<Rightarrow> nat
    \<Rightarrow> ('z world_scheme, nat, vault_error) act" where
  "revoke_each E mac_key [] n = ret n"
| "revoke_each E mac_key (ticket # ts) n =
     (if tk_revoked ticket then revoke_each E mac_key ts n
      else
      bnd (lift_r (map_err VTicket (revoke E mac_key ticket))) (\<lambda>revoked.
      seq (on_err VStore (save_ticket E revoked)) (revoke_each E mac_key ts (Suc n))))"

definition revoke_all_tickets :: "env \<Rightarrow> string \<Rightarrow> string \<Rightarrow> ('z world_scheme, nat, vault_error) act" where
  "revoke_all_tickets E passphrase reason =
     bnd (unlock E (Some passphrase)) (\<lambda>(header, keys).
     bnd (lift_r (ticket_mac_key E keys)) (\<lambda>mac_key.
     bnd (on_err VStore (list_tickets E)) (\<lambda>tickets.
     bnd (revoke_each E mac_key tickets 0) (\<lambda>n.
     seq (append_audit E header keys ''lockdown.tickets_revoked'' ''critical'' ''allow''
       (meta [(''revoked_tickets'', enc_u64 (word_of_nat n)), (''reason'', JStr reason)]))
     (ret n)))))"

section \<open>Rotation\<close>

definition rotation_state_string :: "rotation_job_status \<Rightarrow> string" where
  "rotation_state_string s = job_status_name s"

definition start_rotation :: "env \<Rightarrow> string \<Rightarrow> bytes \<Rightarrow> string \<Rightarrow> secret_type
    \<Rightarrow> ('z world_scheme, rotation_job, vault_error) act" where
  "start_rotation E secret_ref new_plaintext passphrase secret_type =
     bnd (unlock E (Some passphrase)) (\<lambda>(header, keys).
     bnd (next_version E secret_ref) (\<lambda>staged_version.
     bnd (vault_encrypt E header keys secret_ref staged_version new_plaintext secret_type) (\<lambda>record.
     let staged_record = record\<lparr>sr_status := Staged\<rparr> in
     bnd (create E (vh_vault_id header) secret_ref staged_version staged_record) (\<lambda>job.
     seq (on_err VStore (save_rotation_job E job))
    (seq (append_audit E header keys ''rotation.started'' ''info'' ''allow''
       (meta [(''job_id'', JStr (rj_job_id job)), (''secret_ref'', JStr secret_ref),
         (''staged_version'', enc_u64 staged_version)]))
     (ret job))))))"

definition load_job :: "env \<Rightarrow> string \<Rightarrow> ('z world_scheme, rotation_job, vault_error) act" where
  "load_job E job_id =
     bnd (on_err VStore (load_rotation_job E job_id)) (\<lambda>j. lift_r (ok_or j RotationJobNotFound))"

definition verify_rotation :: "env \<Rightarrow> string \<Rightarrow> string \<Rightarrow> ('z world_scheme, rotation_job, vault_error) act" where
  "verify_rotation E job_id passphrase =
     bnd (unlock E (Some passphrase)) (\<lambda>(header, keys).
     bnd (load_job E job_id) (\<lambda>job.
     if rj_status job \<noteq> JobStaged
     then fail (InvalidRotationState (rotation_state_string (rj_status job)))
     else
     seq (lift_r (map_err VCrypto (decrypt_secret E keys (rj_staged_record job))))
    (bnd (transition E job Verified None) (\<lambda>verified.
     seq (on_err VStore (save_rotation_job E verified))
    (seq (append_audit E header keys ''rotation.verified'' ''info'' ''allow''
       (meta [(''job_id'', JStr job_id), (''secret_ref'', JStr (rj_secret_ref verified))]))
     (ret verified))))))"

definition promote_rotation :: "env \<Rightarrow> string \<Rightarrow> string \<Rightarrow> ('z world_scheme, rotation_job, vault_error) act" where
  "promote_rotation E job_id passphrase =
     bnd (unlock E (Some passphrase)) (\<lambda>(header, keys).
     bnd (load_job E job_id) (\<lambda>job.
     if rj_status job \<noteq> Verified
     then fail (InvalidRotationState (rotation_state_string (rj_status job)))
     else
     bnd (lift_r (map_err VCrypto (decrypt_secret E keys (rj_staged_record job)))) (\<lambda>plaintext.
     let active_record = (rj_staged_record job)\<lparr>sr_status := Active\<rparr> in
     seq (on_err VStore (save_secret_record E active_record))
    (bnd (lift_r (redaction_fingerprint_key E keys)) (\<lambda>fingerprint_key.
     seq (on_err VStore (save_redaction_fingerprint E (rj_secret_ref job) (rj_staged_version job)
       (redaction_fingerprint E fingerprint_key plaintext)))
    (bnd (transition E job Promoted None) (\<lambda>promoted.
     seq (on_err VStore (save_rotation_job E promoted))
    (seq (append_audit E header keys ''rotation.promoted'' ''high'' ''allow''
       (meta [(''job_id'', JStr job_id), (''secret_ref'', JStr (rj_secret_ref promoted)),
         (''version'', enc_u64 (rj_staged_version promoted))]))
     (ret promoted)))))))))"

definition rollback_rotation :: "env \<Rightarrow> string \<Rightarrow> string \<Rightarrow> ('z world_scheme, rotation_job, vault_error) act" where
  "rollback_rotation E job_id passphrase =
     bnd (unlock E (Some passphrase)) (\<lambda>(header, keys).
     bnd (load_job E job_id) (\<lambda>job.
     if rj_status job \<noteq> JobStaged \<and> rj_status job \<noteq> Verified
     then fail (InvalidRotationState (rotation_state_string (rj_status job)))
     else
     bnd (transition E job RolledBack None) (\<lambda>rolled_back.
     seq (on_err VStore (save_rotation_job E rolled_back))
    (seq (append_audit E header keys ''rotation.rolled_back'' ''critical'' ''allow''
       (meta [(''job_id'', JStr job_id), (''secret_ref'', JStr (rj_secret_ref rolled_back))]))
     (ret rolled_back)))))"

definition vault_list_rotation_jobs :: "env \<Rightarrow> ('z world_scheme, rotation_job list, vault_error) act" where
  "vault_list_rotation_jobs E = on_err VStore (list_rotation_jobs E)"

end
