(* ===== verification/Frames.thy ===== *)
theory Frames
  imports Vault_Access
begin

text \<open>
  Which tables each operation touches. A predicate on the state is \<open>indep\<close> of a table if writing
  that table cannot break it; an operation keeps every predicate that is independent of the clock
  and of the tables it writes, however it ends.
\<close>

section \<open>Predicates independent of a table\<close>

definition indep_metadata :: "('z world_scheme \<Rightarrow> bool) \<Rightarrow> bool" where
  "indep_metadata I \<longleftrightarrow> (\<forall>w x. I w \<longrightarrow> I (w\<lparr>db_metadata := x\<rparr>))"

definition indep_secrets :: "('z world_scheme \<Rightarrow> bool) \<Rightarrow> bool" where
  "indep_secrets I \<longleftrightarrow> (\<forall>w x. I w \<longrightarrow> I (w\<lparr>db_secrets := x\<rparr>))"

definition indep_policies :: "('z world_scheme \<Rightarrow> bool) \<Rightarrow> bool" where
  "indep_policies I \<longleftrightarrow> (\<forall>w x. I w \<longrightarrow> I (w\<lparr>db_policies := x\<rparr>))"

definition indep_tickets :: "('z world_scheme \<Rightarrow> bool) \<Rightarrow> bool" where
  "indep_tickets I \<longleftrightarrow> (\<forall>w x. I w \<longrightarrow> I (w\<lparr>db_tickets := x\<rparr>))"

definition indep_audit :: "('z world_scheme \<Rightarrow> bool) \<Rightarrow> bool" where
  "indep_audit I \<longleftrightarrow> (\<forall>w x. I w \<longrightarrow> I (w\<lparr>db_audit := x\<rparr>))"

definition indep_fingerprints :: "('z world_scheme \<Rightarrow> bool) \<Rightarrow> bool" where
  "indep_fingerprints I \<longleftrightarrow> (\<forall>w x. I w \<longrightarrow> I (w\<lparr>db_fingerprints := x\<rparr>))"

definition indep_jobs :: "('z world_scheme \<Rightarrow> bool) \<Rightarrow> bool" where
  "indep_jobs I \<longleftrightarrow> (\<forall>w x. I w \<longrightarrow> I (w\<lparr>db_jobs := x\<rparr>))"

lemmas indep_defs = tick_free_def indep_metadata_def indep_secrets_def indep_policies_def
  indep_tickets_def indep_audit_def indep_fingerprints_def indep_jobs_def

named_theorems frame_intro
named_theorems frame_writes

lemma keepsI1: "(\<And>w. I w \<Longrightarrow> I (snd (m w))) \<Longrightarrow> keeps I m"
  by (simp add: keeps_def)

lemma keeps_seq_keep [frame_intro]: "keeps I m \<Longrightarrow> (\<And>x. keeps I (f x)) \<Longrightarrow> keeps I (bnd m f)"
  by (rule keeps_bnd)

lemma keeps_bnd_value:
  "(\<And>x. r = Ok x \<Longrightarrow> keeps I (f x)) \<Longrightarrow> keeps I (bnd (lift_r r) f)"
  by (cases r) (simp_all add: keeps_def bnd_def lift_r_def)

lemma keeps_bnd_post:
  assumes "keeps I m" and "\<And>w x w'. m w = (Ok x, w') \<Longrightarrow> Q x" and "\<And>x. Q x \<Longrightarrow> keeps I (f x)"
  shows "keeps I (bnd m f)"
  using assms unfolding keeps_def bnd_def by (auto split: prod.split result.split)

section \<open>The system's effects\<close>

lemmas [frame_intro] = keeps_ret keeps_fail keeps_lift_r keeps_on_err keeps_seq keeps_handle keeps_if
  keeps_case_option keeps_case_prod keeps_let keeps_effects keeps_txn keeps_query

lemma keeps_case_store_error [frame_intro]:
  "(\<And>x. keeps I (f x)) \<Longrightarrow> keeps I g \<Longrightarrow>
     keeps I (case e of SecretNotFound x \<Rightarrow> f x | _ \<Rightarrow> g)"
  by (cases e) simp_all

lemma tick_step:
  fixes I :: "'z world_scheme \<Rightarrow> bool"
  shows "tick_free I \<Longrightarrow> (\<And>w. tick w \<le> n w) \<Longrightarrow> keeps I (\<lambda>w. (r w, w\<lparr>tick := n w\<rparr>))"
  by (simp add: keeps_def tick_free_def)

lemma keeps_read_components [frame_intro]:
  fixes I :: "'z world_scheme \<Rightarrow> bool"
  assumes "tick_free I"
  shows "keeps I (read_components E cs)"
  using assms
  by (induction cs) (auto intro!: frame_intro simp: read_component_def intro!: tick_step split: option.split)


lemma keeps_providers [frame_intro]:
  fixes I :: "'z world_scheme \<Rightarrow> bool"
  assumes "tick_free I"
  shows "keeps I (passphrase_wrap E params vid rk pw)" and "keeps I (require_components E)"
    and "keeps I (system_wrap E params vid rk)" and "keeps I (system_unwrap E vid sb)"
  using assms
  unfolding passphrase_wrap_def require_components_def collect_components_def system_wrap_def
    system_unwrap_def Let_def
  by (intro frame_intro; assumption)+

lemma keeps_probes [frame_intro]:
  fixes I :: "'z world_scheme \<Rightarrow> bool"
  assumes "tick_free I"
  shows "keeps I (file_mode E p)" and "keeps I (is_file E p)" and "keeps I (env_var E p)"
    and "keeps I (tss_context E name)" and "keeps I (tss_seal E name k)" and "keeps I (tss_unseal E name b c)"
  using assms by (simp_all add: keeps_def tick_free_def file_mode_def is_file_def env_var_def
      tss_context_def tss_seal_def tss_unseal_def)

lemma keeps_searches [frame_intro]:
  fixes I :: "'z world_scheme \<Rightarrow> bool"
  assumes "tick_free I"
  shows "keeps I (any_file E ps)" and "keeps I (command_exists E c)" and "keeps I (all_commands E cs)"
    and "keeps I (readable_writable E p)" and "keeps I (path_exists E p)" and "keeps I (device_accessible E p)"
proof -
  show any: "keeps I (any_file E ps)" for ps
    using assms by (induction ps) (auto intro!: frame_intro)
  show cmd: "keeps I (command_exists E c)" for c
    using assms unfolding command_exists_def by (auto intro!: frame_intro any)
  show "keeps I (all_commands E cs)"
    using assms by (induction cs) (auto intro!: frame_intro cmd)
  show rw: "keeps I (readable_writable E p)" for p
    using assms unfolding readable_writable_def by (auto intro!: frame_intro)
  show ex: "keeps I (path_exists E p)" for p
    using assms unfolding path_exists_def by (auto intro!: frame_intro)
  show "keeps I (device_accessible E p)"
    using assms unfolding device_accessible_def by (auto intro!: frame_intro rw ex)
qed


section \<open>The TPM providers\<close>

text \<open>Inside a scratch directory the system is the first component of the state.\<close>

lemma keeps_files [frame_intro]:
  fixes I :: "'z world_scheme \<Rightarrow> bool"
  assumes "tick_free I"
  shows "keeps (\<lambda>s. I (fst s)) (write_file E p c)" and "keeps (\<lambda>s. I (fst s)) (read_file p)"
    and "keeps (\<lambda>s. I (fst s)) (tpm2_run E device command args capture)"
  using assms
  by (auto simp: keeps_def tick_free_def write_file_def read_file_def tpm2_run_def Let_def
      split: prod.splits run_outcome.splits)

lemma keeps_in_tempdir:
  fixes I :: "'z world_scheme \<Rightarrow> bool"
  assumes "tick_free I" and "\<And>dir. keeps (\<lambda>s. I (fst s)) (body dir)"
  shows "keeps I (in_tempdir E body)"
  unfolding in_tempdir_def
proof (rule keeps_bnd)
  show "keeps I (tempdir E)"
    using assms(1) by (simp add: keeps_def tempdir_def tick_free_def)
  show "keeps I (\<lambda>w. case body dir (w, Map.empty) of (r, w', fs) \<Rightarrow> (r, w'))" for dir
    using assms(2) [of dir] unfolding keeps_def by (metis (mono_tags, lifting) case_prod_beta fst_conv snd_conv)
qed

lemma keeps_tpm2_steps [frame_intro]:
  fixes I :: "'z world_scheme \<Rightarrow> bool"
  assumes "tick_free I"
  shows "keeps (\<lambda>s. I (fst s)) (create_primary_in E device dir)"
    and "keeps (\<lambda>s. I (fst s)) (load_in E device dir)"
    and "keeps (\<lambda>s. I (fst s)) (readpublic_in E device dir)"
    and "keeps (\<lambda>s. I (fst s)) (seal_in E device dir)"
  using assms unfolding seal_in_def create_primary_in_def load_in_def readpublic_in_def
  by (auto intro!: frame_intro)

lemma keeps_and_then_always [frame_intro]:
  assumes "keeps J m" and "keeps J c"
  shows "keeps J (and_then_always m c)"
proof (rule keepsI1)
  fix s assume "J s"
  then have "J (snd (m s))" "J (snd (c (snd (m s))))"
    using assms by (simp_all add: keeps_def)
  then show "J (snd (and_then_always m c s))"
    by (cases "m s"; cases "fst (m s)") (simp_all add: and_then_always_def)
qed

lemma keeps_wrap_in:
  fixes I :: "'z world_scheme \<Rightarrow> bool"
  assumes "tick_free I"
  shows "keeps (\<lambda>s. I (fst s)) (wrap_in E device vid rk dir)"
  using assms unfolding wrap_in_def Let_def by (auto intro!: frame_intro)

lemma keeps_tpm2 [frame_intro]:
  fixes I :: "'z world_scheme \<Rightarrow> bool"
  assumes "tick_free I"
  shows "keeps I (tpm2_detect E device)" and "keeps I (tpm2_require_available E device)"
    and "keeps I (tpm2_wrap E device vid rk)" and "keeps I (tpm2_unwrap E device tb)"
proof -
  show det: "keeps I (tpm2_detect E device)"
    using assms unfolding tpm2_detect_def Let_def by (auto intro!: frame_intro)
  show req: "keeps I (tpm2_require_available E device)"
    using assms unfolding tpm2_require_available_def by (auto intro!: frame_intro det)
  show "keeps I (tpm2_wrap E device vid rk)"
    using assms unfolding tpm2_wrap_def
    by (auto intro!: frame_intro req keeps_in_tempdir keeps_wrap_in)
  show "keeps I (tpm2_unwrap E device tb)"
    using assms unfolding tpm2_unwrap_def unwrap_in_def Let_def
    by (auto intro!: frame_intro req keeps_in_tempdir)
qed

lemma keeps_esapi [frame_intro]:
  fixes I :: "'z world_scheme \<Rightarrow> bool"
  assumes "tick_free I"
  shows "keeps I (esapi_detect E device)" and "keeps I (esapi_require_available E device)"
    and "keeps I (esapi_wrap E device vid rk)" and "keeps I (esapi_unwrap E device eb)"
proof -
  show det: "keeps I (esapi_detect E device)"
    using assms unfolding esapi_detect_def Let_def by (auto intro!: frame_intro)
  show req: "keeps I (esapi_require_available E device)"
    using assms unfolding esapi_require_available_def by (auto intro!: frame_intro det)
  show "keeps I (esapi_wrap E device vid rk)" "keeps I (esapi_unwrap E device eb)"
    using assms unfolding esapi_wrap_def esapi_unwrap_def Let_def by (auto intro!: frame_intro req)
qed


section \<open>The store\<close>

lemma keeps_reads [frame_intro]:
  fixes I :: "'z world_scheme \<Rightarrow> bool"
  assumes "tick_free I"
  shows "keeps I (load_header E)" and "keeps I (get_metadata E key)" and "keeps I (latest_version E rf)"
    and "keeps I (load_latest_secret E rf)" and "keeps I (load_secret_version E rf v)"
    and "keeps I (list_secrets E)" and "keeps I (list_audit_events E)" and "keeps I (list_policies E)"
    and "keeps I (load_ticket E tid)" and "keeps I (list_tickets E)" and "keeps I (load_rotation_job E jid)"
    and "keeps I (list_rotation_jobs E)" and "keeps I (count_redaction_fingerprints E)"
    and "keeps I (list_redaction_fingerprints E)"
  using assms
  unfolding load_header_def get_metadata_def latest_version_def load_latest_secret_def
    load_secret_version_def list_secrets_def list_audit_events_def list_policies_def load_ticket_def
    list_tickets_def load_rotation_job_def list_rotation_jobs_def count_redaction_fingerprints_def
    list_redaction_fingerprints_def
  by (intro frame_intro; assumption)+

text \<open>Writes are rules of their own: what keeps a predicate may also be that it holds of what is written.\<close>

lemma keeps_writes [frame_writes]:
  fixes I :: "'z world_scheme \<Rightarrow> bool"
  assumes "tick_free I"
  shows "indep_metadata I \<Longrightarrow> keeps I (create_vault E h)"
    and "indep_metadata I \<Longrightarrow> keeps I (update_header E h)"
    and "indep_metadata I \<Longrightarrow> keeps I (set_metadata E key val)"
    and "indep_secrets I \<Longrightarrow> keeps I (save_secret_record E sr)"
    and "indep_audit I \<Longrightarrow> keeps I (txn E (insert_event E ev))"
    and "indep_policies I \<Longrightarrow> keeps I (save_policy E p)"
    and "indep_tickets I \<Longrightarrow> keeps I (save_ticket E t)"
    and "indep_tickets I \<Longrightarrow> keeps I (save_ticket_if_current E t u)"
    and "indep_jobs I \<Longrightarrow> keeps I (save_rotation_job E j)"
    and "indep_fingerprints I \<Longrightarrow> keeps I (save_redaction_fingerprint E rf v fp)"
  unfolding create_vault_def update_header_def set_metadata_def save_secret_record_def
    insert_event_def save_policy_def save_ticket_def save_ticket_if_current_def save_rotation_job_def
    save_redaction_fingerprint_def
  by (rule keeps_txn [OF assms]; simp add: keeps_def update_def indep_defs)+

lemma keeps_update_status [frame_intro]:
  fixes I :: "'z world_scheme \<Rightarrow> bool"
  assumes "tick_free I" and "\<And>rc. keeps I (save_secret_record E rc)"
  shows "keeps I (save_updated_secret_status E rf st)"
  unfolding save_updated_secret_status_def Let_def by (intro frame_intro assms)

section \<open>The vault\<close>

lemma keeps_makers [frame_intro]:
  fixes I :: "'z world_scheme \<Rightarrow> bool"
  assumes "tick_free I"
  shows "keeps I (encrypt_secret E kh ns sid rf v pt ty pid ph mh pph)"
    and "keeps I (new_totp_config E issuer account)"
    and "keeps I (issue E k vid sid v r p h b)"
    and "keeps I (create E vid rf v sr)" and "keeps I (transition E j st reason)"
    and "keeps I (create_package E vid rk secret)"
    and "keeps I (audit_append E k evs vid ns et sev dec md)"
  using assms
  unfolding encrypt_secret_def new_totp_config_def issue_def create_def transition_def
    create_package_def audit_append_def Let_def
  by (intro frame_intro; assumption)+

lemma keeps_vault_parts [frame_intro]:
  fixes I :: "'z world_scheme \<Rightarrow> bool"
  assumes "tick_free I"
  shows "keeps I (unwrap_root_key E h pw)" and "keeps I (unlock E pw)"
    and "keeps I (wrap_passphrase E p vid rk)" and "keeps I (wrap_tpm2 E d vid rk)"
    and "keeps I (wrap_esapi E d vid rk)" and "keeps I (wrap_system E vid rk)"
    and "keeps I (wrap_for_provider E np npw d vid rk)"
    and "keeps I (next_version E rf)" and "keeps I (vault_encrypt E h keys rf v pt ty)"
    and "keeps I (plaintext_export_enabled E)" and "keeps I (totp_mfa_enrolled E)"
    and "keeps I (enforce_plaintext_export_allowed E mfa)"
    and "keeps I (vault_load_ticket E tid)" and "keeps I (check_ticket_policy E t)"
    and "keeps I (active_policy_for_ticket E t)"
    and "keeps I (ensure_ticket_secret_is_current E t)" and "keeps I (validate_ticket E tid r pw2)"
    and "keeps I (load_job E jid)"
proof -
  show unw: "keeps I (unwrap_root_key E h pw)" for h pw
    using assms unfolding unwrap_root_key_def Let_def by (intro frame_intro)
  show unl: "keeps I (unlock E pw)" for pw
    using assms unfolding unlock_def by (intro frame_intro unw)
  show wr: "keeps I (wrap_passphrase E p vid rk)" "keeps I (wrap_tpm2 E d vid rk)"
      "keeps I (wrap_esapi E d vid rk)" "keeps I (wrap_system E vid rk)" for p vid rk d
    using assms
    unfolding wrap_passphrase_def wrap_tpm2_def wrap_esapi_def wrap_system_def
    by (intro frame_intro; assumption)+
  show "keeps I (wrap_for_provider E np npw d vid rk)"
    using assms unfolding wrap_for_provider_def by (intro frame_intro wr)
  show "keeps I (next_version E rf)" "keeps I (vault_encrypt E h keys rf v pt ty)"
    using assms unfolding next_version_def vault_encrypt_def by (intro frame_intro; assumption)+
  show en: "keeps I (plaintext_export_enabled E)" "keeps I (totp_mfa_enrolled E)"
    using assms unfolding plaintext_export_enabled_def totp_mfa_enrolled_def
    by (intro frame_intro; assumption)+
  show "keeps I (enforce_plaintext_export_allowed E mfa)"
    unfolding enforce_plaintext_export_allowed_def by (intro frame_intro en)
  show lt: "keeps I (vault_load_ticket E tid)" "keeps I (active_policy_for_ticket E t)" for tid t
    using assms unfolding vault_load_ticket_def active_policy_for_ticket_def
    by (intro frame_intro; assumption)+
  show chk: "keeps I (check_ticket_policy E t)" "keeps I (ensure_ticket_secret_is_current E t)" for t
    using assms unfolding check_ticket_policy_def ensure_ticket_secret_is_current_def
    by (intro frame_intro lt; assumption)+
  show "keeps I (validate_ticket E tid r pw2)"
    using assms unfolding validate_ticket_def by (intro frame_intro lt chk unl)
  show "keeps I (load_job E jid)"
    using assms unfolding load_job_def by (intro frame_intro)
qed

end
