(* ===== verification/Vault_Steps.thy ===== *)
theory Vault_Steps
  imports Frames
begin

text \<open>
  The operations of an initialized vault (\<open>vault.rs\<close>) as a step relation, and what every run of them
  keeps of the audit log: it only grows, and it goes on verifying, whatever fails on the way.
\<close>

section \<open>Steps\<close>

inductive vault_step :: "env \<Rightarrow> string option \<Rightarrow> world \<Rightarrow> world \<Rightarrow> bool" for E :: env where
  put: "vault_step E (Some p) w (snd (put_secret E rf pt p ty w))"
| get: "vault_step E (Some p) w (snd (get_secret E rf p w))"
| disable: "vault_step E (Some p) w (snd (disable_secret E rf p w))"
| destroy: "vault_step E (Some p) w (snd (destroy_secret E rf p w))"
| enroll: "vault_step E (Some p) w (snd (enroll_totp_mfa E p issuer account w))"
| verify_totp: "vault_step E (Some p) w (snd (verify_totp_mfa E p code w))"
| config: "vault_step E (Some p) w (snd (set_plaintext_export_enabled E p on off w))"
| rewrap: "vault_step E pw w (snd (rewrap_provider E pw np npw device w))"
| package: "vault_step E pw w (snd (create_recovery_package E pw secret w))"
| save_policy: "vault_step E (Some p) w (snd (vault_save_policy E pol p w))"
| issue: "vault_step E (Some p) w (snd (issue_ticket E req p w))"
| validate: "vault_step E (Some p) w (snd (validate_ticket E tid req p w))"
| renew: "vault_step E (Some p) w (snd (renew_ticket E tid req p w))"
| consume: "vault_step E (Some p) w (snd (consume_ticket_for_secret E tid req p w))"
| revoke: "vault_step E (Some p) w (snd (revoke_ticket E tid p w))"
| revoke_all: "vault_step E (Some p) w (snd (revoke_all_tickets E p reason w))"
| start: "vault_step E (Some p) w (snd (start_rotation E rf pt p ty w))"
| verify: "vault_step E (Some p) w (snd (verify_rotation E jid p w))"
| promote: "vault_step E (Some p) w (snd (promote_rotation E jid p w))"
| rollback: "vault_step E (Some p) w (snd (rollback_rotation E jid p w))"
| audit: "vault_step E (Some p) w (snd (verify_audit E p w))"

text \<open>A passphrase that opens the vault of a state, whenever it does, to keys with one audit key.\<close>

definition opens_to :: "env \<Rightarrow> string option \<Rightarrow> bytes \<Rightarrow> 'z world_scheme \<Rightarrow> bool" where
  "opens_to E pw k w \<longleftrightarrow>
     (\<forall>n h keys w'. unlock E pw (w\<lparr>tick := n\<rparr>) = (Ok (h, keys), w') \<longrightarrow>
        (audit_integrity_key E keys :: (bytes, vault_error) result) = Ok k)"

section \<open>The log\<close>

definition stored_log :: "env \<Rightarrow> audit_event list \<Rightarrow> (string \<times> string) list \<Rightarrow> bool" where
  "stored_log E evs rows \<longleftrightarrow>
     map snd rows = map (\<lambda>ev. e_json_print E (enc_event ev)) evs \<and> list_all event_ok evs"

definition log_verifies :: "env \<Rightarrow> bytes \<Rightarrow> 'z world_scheme \<Rightarrow> bool" where
  "log_verifies E k w \<longleftrightarrow>
     (\<exists>evs. stored_log E evs (db_audit w) \<and> verify_audit_chain E evs k = Ok ())"

definition log_inv :: "env \<Rightarrow> bytes \<Rightarrow> (string \<times> string) list \<Rightarrow> 'z world_scheme \<Rightarrow> bool" where
  "log_inv E k old w \<longleftrightarrow> json_text_ok E \<and> log_verifies E k w \<and> prefix old (db_audit w)"

lemma log_inv_indep [frame_intro]:
  "tick_free (log_inv E k old)" "indep_metadata (log_inv E k old)" "indep_secrets (log_inv E k old)"
  "indep_policies (log_inv E k old)" "indep_tickets (log_inv E k old)"
  "indep_fingerprints (log_inv E k old)" "indep_jobs (log_inv E k old)"
  by (simp_all add: indep_defs log_inv_def log_verifies_def)

lemma parse_log:
  assumes "json_text_ok E" and "stored_log E evs rows"
  shows "list_text E dec_event (map snd rows) = Ok evs"
proof -
  have "parse_as E dec_event (e_json_print E (enc_event ev)) = Some ev" if "event_ok ev" for ev
  proof -
    have "json_wf (enc_event ev)"
      using that json_wf_of_ok [of "JObj (ev_metadata ev)"]
      by (simp add: enc_event_def event_fields_def event_ok_def del: json_ok.simps float_free.simps)
    then show ?thesis
      using assms(1) that by (simp add: parse_as_print event_codec.dec_enc event_ok_def)
  qed
  then have "map (parse_as E dec_event) (map snd rows) = map Some evs"
    using assms(2) by (auto simp: stored_log_def list_all_iff)
  moreover have "those (map Some evs) = Some evs" for evs :: "audit_event list"
    by (induction evs) simp_all
  ultimately show ?thesis
    by (simp add: list_text_def)
qed

definition clean :: "jmap \<Rightarrow> bool" where
  "clean fs \<longleftrightarrow> (\<forall>f \<in> set fs. json_ok (snd f) \<and> float_free (snd f))"

lemma clean_simps [simp]:
  "clean []" "clean ((key, JStr s) # fs) = clean fs" "clean ((key, JBool b) # fs) = clean fs"
  "clean ((key, enc_u64 n) # fs) = clean fs" "clean ((key, enc_u32 m) # fs) = clean fs"
  "clean ((key, enc_opt JStr x) # fs) = clean fs"
  by (simp_all add: clean_def enc_opt_def split: option.splits)

lemma clean_meta: "clean fs \<Longrightarrow> json_ok (JObj (meta fs)) \<and> float_free (JObj (meta fs))"
  using to_value_ok [of fs] by (simp add: clean_def meta_def to_value_def)

text \<open>Appending keeps a log of the vault's own key verifying, whether the insertion succeeds or not.\<close>

lemma keeps_append_audit:
  assumes "audit_integrity_key E keys = (Ok k :: (bytes, vault_error) result)" and "clean fs"
  shows "keeps (log_inv E k old) (append_audit E h keys ty sev dec (meta fs) :: ('z world_scheme, _, _) act)"
proof (rule keepsI1)
  fix w :: "'z world_scheme" assume inv: "log_inv E k old w"
  then obtain evs where json: "json_text_ok E"
      and evs: "stored_log E evs (db_audit w)" "verify_audit_chain E evs k = Ok ()"
    by (auto simp: log_inv_def log_verifies_def)
  let ?build = "\<lambda>events. bnd (audit_append E k events (vh_vault_id h) (vh_namespace_id h) ty sev dec (meta fs))
      (\<lambda>(event, _). ret event) :: ('z world_scheme, _, store_error) act"
  let ?I = "log_inv E k old"
  show "?I (snd (append_audit E h keys ty sev dec (meta fs) w))"
  proof (cases "list_audit_events E w")
    case (Pair r w1)
    have w1: "?I w1"
      using keepsD [OF keeps_reads(7) [OF log_inv_indep(1)] inv Pair] .
    show ?thesis
    proof (cases r)
      case (Ok events)
      have "events = evs" and a1: "db_audit w1 = db_audit w"
        using Pair Ok parse_log [OF json evs(1)] by (auto simp: list_audit_events_def)
      obtain ev where ap: "(audit_append E k evs (vh_vault_id h) (vh_namespace_id h) ty sev dec (meta fs) w1
            :: (_, store_error) result \<times> _) = (Ok (ev, evs @ [ev]), w1\<lparr>tick := tick w1 + 2\<rparr>)"
          and "event_ok ev" and ver: "verify_audit_chain E (evs @ [ev]) k = Ok ()"
        using audit_append_verifies [OF conjunct1 [OF clean_meta [OF assms(2)]]
          conjunct2 [OF clean_meta [OF assms(2)]] _ evs(2), where w = w1 and ?'e = store_error] evs(1)
        unfolding stored_log_def list_all_iff by blast
      let ?w2 = "w1\<lparr>tick := tick w1 + 2\<rparr>"
      have built: "?build events w1 = (Ok ev, ?w2)"
        using ap by (simp add: \<open>events = evs\<close> bnd_def ret_def)
      have w2: "?I ?w2"
        using tick_freeD [OF log_inv_indep(1) w1] by simp
      have "?I (snd (txn E (insert_event E ev) ?w2))"
      proof -
        have log: "stored_log E (evs @ [ev]) (db_audit w1 @ [(i, e_json_print E (enc_event ev))])" for i
          using evs(1) \<open>event_ok ev\<close> by (simp add: stored_log_def a1)
        have "?I (snd (insert_event E ev (?w2\<lparr>tick := n\<rparr>)))" for n
          using w1 log ver by (auto simp: insert_event_def log_inv_def log_verifies_def prefix_prefix)
        moreover have "?I (?w2\<lparr>tick := Suc (tick ?w2)\<rparr>)"
          using tick_freeD [OF log_inv_indep(1) w2] by simp
        ultimately show ?thesis
          by (simp add: txn_def Let_def split: option.splits store_fault.splits)
      qed
      then have "?I (snd (seq (txn E (insert_event E ev)) (ret ev) ?w2))"
        unfolding seq_def by (rule keeps_bnd_after [where I = ?I, OF _ keeps_ret])
      moreover have "append_audit_event E ?build w = seq (txn E (insert_event E ev)) (ret ev) ?w2"
        unfolding append_audit_event_def
          bnd_step [where m = "list_audit_events E", OF Pair [unfolded Ok \<open>events = evs\<close>]]
          bnd_step [where m = "?build evs", OF built [unfolded \<open>events = evs\<close>]] ..
      ultimately show ?thesis
        by (simp only: append_audit_def assms(1) lift_r_run on_err_map snd_conv)
    qed (use Pair w1 assms(1) in \<open>simp_all add: append_audit_def on_err_map append_audit_event_def
          bnd_def [of "list_audit_events E"]\<close>)
  qed
qed


section \<open>What the steps keep\<close>

text \<open>An operation that unlocks the vault and goes on with the keys it got.\<close>

lemma unlock_ticks: "\<exists>n \<ge> tick w. snd (unlock E pw w) = w\<lparr>tick := n\<rparr>"
proof -
  let ?I = "\<lambda>v. \<exists>n \<ge> tick w. v = w\<lparr>tick := n\<rparr>"
  have "tick_free ?I"
  proof (unfold tick_free_def, intro allI impI)
    fix v n assume "tick v \<le> n" and "?I v"
    then show "?I (v\<lparr>tick := n\<rparr>)"
      by (intro exI [of _ n]) auto
  qed
  then have "keeps ?I (unlock E pw)"
    by (rule keeps_vault_parts)
  moreover have "?I w"
    by (rule exI [of _ "tick w"]) simp
  ultimately show ?thesis
    by (simp add: keeps_def)
qed

lemma after_unlock:
  assumes "tick_free I" and "I w" and "opens_to E pw k w"
    and "\<And>h keys. (audit_integrity_key E keys :: (bytes, vault_error) result) = Ok k \<Longrightarrow> keeps I (f h keys)"
  shows "I (snd (bnd (unlock E pw) (\<lambda>(h, keys). f h keys) w))"
proof -
  obtain n where n: "snd (unlock E pw w) = w\<lparr>tick := n\<rparr>" and later: "tick w \<le> n"
    using unlock_ticks by blast
  have I: "I (w\<lparr>tick := n\<rparr>)"
    using assms(1,2) later by (rule tick_freeD)
  show ?thesis
  proof (cases "fst (unlock E pw w)")
    case (Ok hk)
    obtain h keys where hk: "hk = (h, keys)" by fastforce
    have "unlock E pw (w\<lparr>tick := tick w\<rparr>) = (Ok (h, keys), w\<lparr>tick := n\<rparr>)"
      using n Ok hk by (metis prod.collapse sys.surjective sys.update_convs(1) sys.unfold_congs(1))
    then have "keeps I (f h keys)"
      using assms(3,4) unfolding opens_to_def by blast
    then show ?thesis
      using I bnd_fst [where m = "unlock E pw" and f = "\<lambda>(h, keys). f h keys", OF Ok]
      by (simp add: n hk keeps_def)
  qed (use I n in \<open>cases "unlock E pw w", simp add: bnd_def\<close>)+
qed


lemma opens_to_tick_free: "tick_free (opens_to E pw k)"
  by (simp add: tick_free_def opens_to_def)

lemma after_seq:
  assumes "J w" and "keeps J m" and "\<And>v. J v \<Longrightarrow> I v" and "\<And>v. J v \<Longrightarrow> I (snd (n v))"
  shows "I (snd (seq m n w))"
proof (cases "m w")
  case (Pair r w1)
  have "J w1"
    by (rule keepsD [OF assms(2,1) Pair])
  show ?thesis
    using Pair assms(3) [OF \<open>J w1\<close>] assms(4) [OF \<open>J w1\<close>]
    by (cases r) (simp_all add: seq_def bnd_def [of m] Pair)
qed

text \<open>The binding a provider makes is a value that reads back from its text.\<close>

lemma enc_bindings_ok [simp]:
  "json_ok (enc_system_binding sb)" "float_free (enc_system_binding sb)"
  "json_ok (enc_tpm2_binding tb)" "float_free (enc_tpm2_binding tb)"
  "json_ok (enc_esapi_binding eb)" "float_free (enc_esapi_binding eb)"
  unfolding enc_system_binding_def enc_tpm2_binding_def enc_esapi_binding_def by (rule to_value_ok; simp)+

lemma wrap_for_provider_Ok:
  "wrap_for_provider E np npw d vid rk w = (Ok b, w') \<Longrightarrow> json_ok b \<and> float_free b"
  by (auto simp: wrap_for_provider_def wrap_passphrase_def wrap_tpm2_def wrap_esapi_def wrap_system_def
      bnd_Ok_iff split: if_splits)

lemma keeps_revoke_each:
  fixes I :: "'z world_scheme \<Rightarrow> bool"
  assumes "tick_free I" and "\<And>t. keeps I (save_ticket E t)"
  shows "keeps I (revoke_each E mac_key ts n)"
proof (induction ts arbitrary: n)
  case (Cons t ts)
  show ?case
    unfolding revoke_each.simps by (intro frame_intro Cons assms)
qed (simp add: keeps_ret)

text \<open>
  A contract for invariants of the vault's state: one that a tick and an audit record under the
  vault's key cannot break is kept by every operation that only writes tables it does not depend on.
\<close>

locale audited =
  fixes E :: env and k :: bytes and I :: "world \<Rightarrow> bool"
  assumes ticks: "tick_free I"
    and audits: "audit_integrity_key E keys = (Ok k :: (bytes, vault_error) result) \<Longrightarrow> clean fs \<Longrightarrow>
      keeps I (append_audit E h keys ty sev dec (meta fs))"
begin

lemmas rest = after_unlock [where I = I, OF ticks]
lemmas parts = frame_intro ticks audits

lemma reads:
  assumes "I w" and "opens_to E (Some p) k w"
  shows "I (snd (get_secret E rf p w))" and "I (snd (verify_totp_mfa E p code w))"
    and "I (snd (validate_ticket E tid req p w))" and "I (snd (verify_audit E p w))"
proof -
  show "I (snd (get_secret E rf p w))"
    unfolding get_secret_def by (rule rest [OF assms]) (auto intro!: parts)
  show "I (snd (verify_totp_mfa E p code w))"
    unfolding verify_totp_mfa_def Let_def by (rule rest [OF assms]) (auto intro!: parts)
  show "I (snd (validate_ticket E tid req p w))"
    unfolding validate_ticket_def by (rule rest [OF assms]) (auto intro!: parts)
  show "I (snd (verify_audit E p w))"
    unfolding verify_audit_def by (rule rest [OF assms]) (auto intro!: parts)
qed

lemma provider_ops:
  assumes "I w" and "opens_to E pw k w"
  shows "I (snd (create_recovery_package E pw secret w))"
    and "(\<And>h b. json_ok b \<Longrightarrow> float_free b \<Longrightarrow> keeps I (update_header E (h\<lparr>vh_provider_binding := b\<rparr>))) \<Longrightarrow>
      I (snd (rewrap_provider E pw np npw device w))"
proof -
  show "I (snd (create_recovery_package E pw secret w))"
    unfolding create_recovery_package_def by (rule rest [OF assms]) (auto intro!: parts)
  show "I (snd (rewrap_provider E pw np npw device w))"
    if "\<And>h b. json_ok b \<Longrightarrow> float_free b \<Longrightarrow> keeps I (update_header E (h\<lparr>vh_provider_binding := b\<rparr>))"
    unfolding rewrap_provider_def Let_def
    by (rule rest [OF assms], rule keeps_bnd_post [where Q = "\<lambda>b. json_ok b \<and> float_free b"])
      (auto intro!: parts that dest: wrap_for_provider_Ok)
qed

lemma config_op:
  assumes "I w" and "opens_to E (Some p) k w" and "\<And>val. keeps I (set_metadata E plaintext_export_config_key val)"
  shows "I (snd (set_plaintext_export_enabled E p on off w))"
  unfolding set_plaintext_export_enabled_def
  by (rule rest [OF assms(1,2)]) (auto intro!: parts assms(3))

lemma secret_ops:
  assumes "I w" and "opens_to E (Some p) k w" and "\<And>rc. keeps I (save_secret_record E rc)"
  shows "(\<And>v fp. keeps I (save_redaction_fingerprint E rf v fp)) \<Longrightarrow> I (snd (put_secret E rf pt p ty w))"
    and "I (snd (disable_secret E rf p w))" and "I (snd (destroy_secret E rf p w))"
    and "I (snd (enroll_totp_mfa E p issuer account w))"
proof -
  show "I (snd (put_secret E rf pt p ty w))" if "\<And>v fp. keeps I (save_redaction_fingerprint E rf v fp)"
    unfolding put_secret_def by (rule rest [OF assms(1,2)]) (auto intro!: parts assms(3) that)
  show "I (snd (disable_secret E rf p w))" "I (snd (destroy_secret E rf p w))"
    unfolding disable_secret_def destroy_secret_def set_secret_status_def
    by (rule rest [OF assms(1,2)]; auto intro!: parts assms(3))+
  show "I (snd (enroll_totp_mfa E p issuer account w))"
    unfolding enroll_totp_mfa_def by (rule rest [OF assms(1,2)]) (auto intro!: parts assms(3))
qed

lemma policy_op:
  assumes "I w" and "opens_to E (Some p) k w" and "keeps I (save_policy E pol)"
  shows "I (snd (vault_save_policy E pol p w))"
  unfolding vault_save_policy_def by (rule rest [OF assms(1,2)]) (auto intro!: parts assms(3))

lemma ticket_ops:
  assumes "I w" and "opens_to E (Some p) k w" and "\<And>t. keeps I (save_ticket E t)"
    and "\<And>t u. tk_ticket_id u = tk_ticket_id t \<Longrightarrow> keeps I (save_ticket_if_current E t u)"
  shows "I (snd (issue_ticket E req p w))" and "I (snd (renew_ticket E tid req p w))"
    and "I (snd (consume_ticket_for_secret E tid req p w))" and "I (snd (revoke_ticket E tid p w))"
    and "I (snd (revoke_all_tickets E p reason w))"
proof -
  show "I (snd (issue_ticket E req p w))"
    unfolding issue_ticket_def Let_def by (rule rest [OF assms(1,2)]) (auto intro!: parts assms(3))
  show "I (snd (renew_ticket E tid req p w))"
    unfolding renew_ticket_def by (rule rest [OF assms(1,2)]) (auto intro!: parts assms(3))
  show "I (snd (consume_ticket_for_secret E tid req p w))"
    unfolding consume_ticket_for_secret_def
  proof (rule after_seq [where J = "\<lambda>v. I v \<and> opens_to E (Some p) k v"], goal_cases)
    case 2
    have "tick_free (\<lambda>v. I v \<and> opens_to E (Some p) k v)"
      using ticks opens_to_tick_free [of E "Some p" k] unfolding tick_free_def by blast
    then show ?case
      by (intro frame_intro)
  next
    case (4 v)
    then show ?case
      by (intro rest; (intro keeps_bnd_value parts)?)
        (auto intro!: parts assms(4) simp: consume_Ok_iff spent_def Let_def)
  qed (use assms in simp_all)
  show "I (snd (revoke_ticket E tid p w))"
    unfolding revoke_ticket_def by (rule rest [OF assms(1,2)]) (auto intro!: parts assms(3))
  show "I (snd (revoke_all_tickets E p reason w))"
    unfolding revoke_all_tickets_def
    by (rule rest [OF assms(1,2)]) (auto intro!: parts keeps_revoke_each assms(3))
qed

lemma rotation_ops:
  assumes "I w" and "opens_to E (Some p) k w" and "\<And>j. keeps I (save_rotation_job E j)"
  shows "I (snd (start_rotation E rf pt p ty w))" and "I (snd (verify_rotation E jid p w))"
    and "(\<And>rc. keeps I (save_secret_record E rc)) \<Longrightarrow> (\<And>rf v fp. keeps I (save_redaction_fingerprint E rf v fp)) \<Longrightarrow>
      I (snd (promote_rotation E jid p w))"
    and "I (snd (rollback_rotation E jid p w))"
proof -
  show "I (snd (start_rotation E rf pt p ty w))"
    unfolding start_rotation_def Let_def by (rule rest [OF assms(1,2)]) (auto intro!: parts assms(3))
  show "I (snd (verify_rotation E jid p w))"
    unfolding verify_rotation_def by (rule rest [OF assms(1,2)]) (auto intro!: parts assms(3))
  show "I (snd (promote_rotation E jid p w))" 
    if "\<And>rc. keeps I (save_secret_record E rc)" "\<And>rf v fp. keeps I (save_redaction_fingerprint E rf v fp)"
    unfolding promote_rotation_def Let_def
    by (rule rest [OF assms(1,2)]) (auto intro!: parts assms(3) that)
  show "I (snd (rollback_rotation E jid p w))"
    unfolding rollback_rotation_def by (rule rest [OF assms(1,2)]) (auto intro!: parts assms(3))
qed

end

interpretation audit_log: audited E k "log_inv E k old" for E k old
  by unfold_locales (rule log_inv_indep(1), rule keeps_append_audit)

lemma step_keeps_log:
  assumes "vault_step E pw w w'" and "opens_to E pw k w" and "log_inv E k old w"
  shows "log_inv E k old w'"
  using assms
  by (cases rule: vault_step.cases)
    (auto intro!: log_inv_indep frame_writes audit_log.reads audit_log.provider_ops audit_log.config_op
      audit_log.secret_ops audit_log.policy_op audit_log.ticket_ops audit_log.rotation_ops)

end
