(* ===== verification/Vault_Log.thy ===== *)
theory Vault_Log
  imports Vault_Steps
begin

text \<open>
  The audit log of a vault (\<open>vault.rs\<close> with \<open>audit.rs\<close> and \<open>store.rs\<close>) from its initialization on, and
  the record every release of a secret leaves in it.
\<close>

section \<open>Unlocking with a passphrase\<close>

lemma load_header_stored:
  assumes "json_text_ok E" and "header_domain h" and "e_fault E (tick w) = None"
    and "map_of (db_metadata w) header_key = Some (e_json_print E (enc_header h))"
  shows "load_header E w = (Ok h, w\<lparr>tick := Suc (tick w)\<rparr>)"
  using assms
  by (simp add: load_header_def txn_run query_def parse_as_print enc_header_wf header_codec.dec_enc)

lemma passphrase_header_domain [simp]:
  "vh_provider_binding h = enc_passphrase_binding b \<Longrightarrow> header_domain h"
  by (simp add: header_domain_def)

lemma binding_field_passphrase [simp]:
  "vh_provider_binding h = enc_passphrase_binding b \<Longrightarrow>
     binding_field h ''provider_id'' = Some (pb_provider_id b)"
  "vh_provider_binding h = enc_passphrase_binding b \<Longrightarrow>
     binding_field h ''device_path'' = None"
  by (simp_all add: binding_field_def enc_passphrase_binding_def to_value_def map_of_build_distinct)

lemma provider_ids_differ [simp]:
  "passphrase_provider_id \<noteq> tpm2_provider_id" "passphrase_provider_id \<noteq> esapi_provider_id"
  "system_fingerprint_provider_id \<noteq> tpm2_provider_id" "system_fingerprint_provider_id \<noteq> esapi_provider_id"
  "system_fingerprint_provider_id \<noteq> passphrase_provider_id"
  by (simp_all add: passphrase_provider_id_def tpm2_provider_id_def esapi_provider_id_def
      system_fingerprint_provider_id_def)

lemma unlock_passphrase:
  assumes "json_text_ok E" and "e_fault E (tick w) = None"
    and "map_of (db_metadata w) header_key = Some (e_json_print E (enc_header h))"
    and "vh_provider_binding h = enc_passphrase_binding b" and "pb_provider_id b = passphrase_provider_id"
    and "passphrase_unwrap E (vh_vault_id h) b p = Ok rk" and "length rk = key_size"
  shows "unlock E (Some p) w
    = (Ok (h, \<lparr>kh_vault_id = vh_vault_id h, kh_root_key = rk\<rparr>), w\<lparr>tick := Suc (tick w)\<rparr>)"
proof -
  have "load_header E w = (Ok h, w\<lparr>tick := Suc (tick w)\<rparr>)"
    using assms(1-4) by (intro load_header_stored) simp_all
  moreover have "unwrap_root_key E h (Some p) v = (Ok rk, v)" for v :: "'a world_scheme"
    using assms(4-6) passphrase_binding_codec.dec_enc [of b]
    by (simp add: unwrap_root_key_def Let_def opt_or_def)
  ultimately show ?thesis
    using assms(7) by (simp add: unlock_def act_run key_hierarchy_new_def)
qed


lemma opens_passphrase:
  assumes "json_text_ok E" and "digest_ok E"
    and "map_of (db_metadata w) header_key = Some (e_json_print E (enc_header h))"
    and "vh_provider_binding h = enc_passphrase_binding b" and "pb_provider_id b = passphrase_provider_id"
    and "passphrase_unwrap E (vh_vault_id h) b p = Ok rk" and "length rk = key_size"
    and "audit_integrity_key E \<lparr>kh_vault_id = vh_vault_id h, kh_root_key = rk\<rparr> = (Ok k :: (bytes, vault_error) result)"
  shows "opens_to E (Some p) k w"
  unfolding opens_to_def
proof (intro allI impI)
  fix n h' keys w' assume run: "unlock E (Some p) (w\<lparr>tick := n\<rparr>) = (Ok (h', keys), w')"
  then have "e_fault E n = None"
    by (auto simp: unlock_def load_header_def bnd_Ok_iff)
  then have "unlock E (Some p) (w\<lparr>tick := n\<rparr>)
      = (Ok (h, \<lparr>kh_vault_id = vh_vault_id h, kh_root_key = rk\<rparr>), w\<lparr>tick := Suc n\<rparr>)"
    using unlock_passphrase [OF assms(1) _ _ assms(4-7), of "w\<lparr>tick := n\<rparr>"] assms(3) by simp
  with run have "keys = \<lparr>kh_vault_id = vh_vault_id h, kh_root_key = rk\<rparr>"
    by auto
  then show "(audit_integrity_key E keys :: (bytes, vault_error) result) = Ok k"
    by (simp only: assms(8))
qed

lemma keeps_append_audit_other [frame_intro]:
  fixes I :: "'z world_scheme \<Rightarrow> bool"
  assumes "tick_free I" and "indep_audit I"
  shows "keeps I (append_audit E h keys ty sev dec md)"
  using assms unfolding append_audit_def append_audit_event_def by (intro frame_intro frame_writes)

text \<open>What an initialization with a passphrase leaves.\<close>

lemma init_passphrase_log:
  fixes w :: "'z world_scheme"
  assumes "json_text_ok E" and "aead_ok E" and "b64url_ok E" and "fresh_ok E" and "digest_ok E"
    and "init_passphrase E p ns w = (Ok h, w')" and "db_audit w = []"
  shows "\<exists>k. opens_to E (Some p) k w' \<and> log_verifies E k w'"
proof -
  obtain b rk w1 w2 w3 ev where run:
      "passphrase_wrap E default_scrypt_params (vh_vault_id h) rk p w1 = (Ok b, w2)"
      "vh_provider_binding h = enc_passphrase_binding b" "db_audit w1 = db_audit w"
      "w3 = w2\<lparr>tick := Suc (Suc (tick w2)),
          db_metadata := tbl_put header_key (e_json_print E (enc_header h)) (db_metadata w2)\<rparr>"
      "append_audit E h \<lparr>kh_vault_id = vh_vault_id h, kh_root_key = rk\<rparr> ''vault.initialized'' ''info'' ''allow''
       (meta [(''provider_id'', enc_opt JStr (binding_field h ''provider_id'')),
         (''assurance_level'', enc_opt JStr (binding_field h ''assurance_level''))]) w3 = (Ok ev, w')"
    using assms(6)
    by (fastforce simp: init_passphrase_def init_vault_def wrap_passphrase_def bnd_Ok_iff seq_Ok_iff Let_def
        create_vault_def key_hierarchy_new_def split: if_splits)
  let ?keys = "\<lparr>kh_vault_id = vh_vault_id h, kh_root_key = rk\<rparr>"
  have unw: "passphrase_unwrap E (vh_vault_id h) b p = Ok rk" "length rk = key_size"
    using passphrase_unwrap_wrap [OF assms(2-4) run(1)] by simp_all
  obtain k where k: "(audit_integrity_key E ?keys :: (bytes, vault_error) result) = Ok k"
    using keys_eq [OF assms(5)] by blast
  have pid: "pb_provider_id b = passphrase_provider_id"
    using run(1) by (auto simp: passphrase_wrap_def bnd_Ok_iff split: if_splits)
  have "db_audit w2 = []"
    by (rule keepsD [where I = "\<lambda>v. db_audit v = []", OF keeps_providers(1) _ run(1)])
      (simp_all add: run(3) assms(7) tick_free_def)
  then have "log_inv E k [] w3"
    using assms(1) by (simp add: log_inv_def log_verifies_def run(4) stored_log_def exI [of _ "[]"])
  then have "log_inv E k [] w'"
    by (rule keepsD [where I = "log_inv E k []", OF keeps_append_audit [OF k] _ run(5), rotated]) simp
  moreover have "map_of (db_metadata w') header_key = Some (e_json_print E (enc_header h))"
    by (rule keepsD [where I = "\<lambda>v. map_of (db_metadata v) header_key = Some (e_json_print E (enc_header h))",
          OF keeps_append_audit_other _ run(5)]) (simp_all add: run(4) indep_defs)
  then have "opens_to E (Some p) k w'"
    using opens_passphrase [OF assms(1,5) _ run(2) pid unw k] by blast
  ultimately show ?thesis
    by (auto simp: log_inv_def)
qed


section \<open>One audit record\<close>

lemma audit_append_event:
  assumes "clean fs"
  shows "\<exists>ev. (audit_append E k evs vid ns ty sev dec (meta fs) w :: (_, 'e) result \<times> _)
      = (Ok (ev, evs @ [ev]), w\<lparr>tick := tick w + 2\<rparr>) \<and>
    ev_event_id ev = e_uuid E (tick w) \<and> ev_event_type ev = ty \<and> ev_decision ev = dec \<and>
    ev_metadata ev = meta fs \<and> event_ok ev"
proof (intro exI conjI)
  let ?ev0 = "event_base (e_uuid E (tick w)) (e_time_ms E (e_clock E (Suc (tick w)))) vid ns ty sev dec
      (head_hash evs) (meta fs)"
  show "(audit_append E k evs vid ns ty sev dec (meta fs) w :: (_, 'e) result \<times> _)
      = (Ok (new_event E k ?ev0, evs @ [new_event E k ?ev0]), w\<lparr>tick := tick w + 2\<rparr>)"
    using clean_meta [OF assms] by (intro audit_append_eq) simp_all
qed (use clean_meta [OF assms] in \<open>simp_all add: new_event_def Let_def event_base_def event_ok_def
    del: json_ok.simps float_free.simps\<close>)

text \<open>A successful record is the last row of the log, whatever the log held before.\<close>

lemma append_audit_Ok:
  assumes "append_audit E h keys ty sev dec (meta fs) w = (Ok ev, w')" and "clean fs"
  shows "db_audit w' = db_audit w @ [(ev_event_id ev, e_json_print E (enc_event ev))]"
    and "ev_event_type ev = ty" and "ev_decision ev = dec" and "ev_metadata ev = meta fs"
proof -
  let ?w1 = "w\<lparr>tick := Suc (tick w)\<rparr>"
  have "\<exists>k evs b w2. (audit_append E k evs (vh_vault_id h) (vh_namespace_id h) ty sev dec (meta fs) ?w1
        :: (_, store_error) result \<times> _) = (Ok (ev, b), w2) \<and>
      insert_event E ev (w2\<lparr>tick := Suc (tick w2)\<rparr>) = (Ok (), w')"
    using assms(1)
    by (simp add: append_audit_def append_audit_event_def bnd_Ok_iff seq_Ok_iff list_audit_events_def) blast
  then obtain k evs b w2 where made: "(audit_append E k evs (vh_vault_id h) (vh_namespace_id h) ty sev dec
        (meta fs) ?w1 :: (_, store_error) result \<times> _) = (Ok (ev, b), w2)"
    and rest: "insert_event E ev (w2\<lparr>tick := Suc (tick w2)\<rparr>) = (Ok (), w')"
    by blast
  obtain e where e: "(audit_append E k evs (vh_vault_id h) (vh_namespace_id h) ty sev dec (meta fs) ?w1
        :: (_, store_error) result \<times> _) = (Ok (e, evs @ [e]), ?w1\<lparr>tick := tick ?w1 + 2\<rparr>)"
      "ev_event_type e = ty" "ev_decision e = dec" "ev_metadata e = meta fs"
    using audit_append_event [OF assms(2), where w = ?w1 and ?'e = store_error] by blast
  have "ev = e" "w2 = ?w1\<lparr>tick := tick ?w1 + 2\<rparr>"
    using made e(1) by simp_all
  then show "db_audit w' = db_audit w @ [(ev_event_id ev, e_json_print E (enc_event ev))]"
      "ev_event_type ev = ty" "ev_decision ev = dec" "ev_metadata ev = meta fs"
    using e(2-4) rest by (auto simp: insert_event_def split: if_splits)
qed

text \<open>On a readable log, with a fresh identifier and no fault, a record is appended.\<close>

lemma append_audit_run:
  assumes "json_text_ok E" and "no_faults E" and "stored_log E evs (db_audit w)"
    and "audit_integrity_key E keys = (Ok k :: (bytes, vault_error) result)" and "clean fs"
    and "e_uuid E (Suc (tick w)) \<notin> fst ` set (db_audit w)"
  shows "\<exists>ev. append_audit E h keys ty sev dec (meta fs) w
    = (Ok ev, w\<lparr>tick := tick w + 4, db_audit := db_audit w @ [(ev_event_id ev, e_json_print E (enc_event ev))]\<rparr>) \<and>
    ev_event_id ev = e_uuid E (Suc (tick w)) \<and> event_ok ev"
proof -
  let ?w1 = "w\<lparr>tick := Suc (tick w)\<rparr>"
  obtain e where e: "(audit_append E k evs (vh_vault_id h) (vh_namespace_id h) ty sev dec (meta fs) ?w1
        :: (_, store_error) result \<times> _) = (Ok (e, evs @ [e]), ?w1\<lparr>tick := tick ?w1 + 2\<rparr>)"
      "ev_event_id e = e_uuid E (tick ?w1)" "event_ok e"
    using audit_append_event [OF assms(5), where w = ?w1 and ?'e = store_error] by blast
  have "list_text E dec_event (map snd (db_audit w)) = Ok evs"
    by (rule parse_log [OF assms(1,3)])
  then show ?thesis
    using e assms(2,4,6)
    by (intro exI [of _ e]) (simp add: append_audit_def append_audit_event_def bnd_Ok_iff seq_Ok_iff
        list_audit_events_def no_faults_def insert_event_def)
qed


section \<open>Initialization with a passphrase succeeds\<close>

definition scrypt_total :: "env \<Rightarrow> bool" where
  "scrypt_total E \<longleftrightarrow> (\<forall>pw salt. e_scrypt E pw salt 14 8 1 \<noteq> None)"

lemma default_derive:
  assumes "scrypt_total E" and "pw \<noteq> []"
  shows "\<exists>key. passphrase_derive E default_scrypt_params pw salt = Ok key \<and>
    e_scrypt E (as_bytes pw) salt 14 8 1 = Some key"
proof -
  have "floor_log2 16384 = 14"
    using floor_log2_power [of 14] by simp
  then show ?thesis
    using assms
    by (auto simp: scrypt_total_def passphrase_derive_def scrypt_key_def default_scrypt_params_def
        checked_ilog2_def push_bit_eq_mult ok_or_def split: option.splits)
qed

lemma passphrase_wrap_run:
  assumes "aead_ok E" and "digest_ok E" and "fresh_ok E" and "scrypt_total E"
    and "length rk = key_size" and "pw \<noteq> []"
  shows "\<exists>b. passphrase_wrap E default_scrypt_params vid rk pw w = (Ok b, w\<lparr>tick := tick w + 2\<rparr>)"
proof -
  obtain key where key: "passphrase_derive E default_scrypt_params pw (e_rand E (tick w) 16) = Ok key"
      "e_scrypt E (as_bytes pw) (e_rand E (tick w) 16) 14 8 1 = Some key"
    using default_derive [OF assms(4,6)] by blast
  have "length key = 32"
    using assms(2) key(2) by (auto simp: digest_ok_def)
  then have "e_aes_enc E key (e_rand E (Suc (tick w)) 12) rk aad \<noteq> None" for aad
    using assms(1,3,5) by (simp add: aead_ok_def fresh_ok_def key_size_def)
  then show ?thesis
    using key(1) assms(5) by (auto simp: passphrase_wrap_def bnd_Ok_iff provider_aad_eq)
qed

lemma init_passphrase_run:
  fixes w :: "'z world_scheme"
  assumes "json_text_ok E" and "aead_ok E" and "fresh_ok E" and "digest_ok E"
    and "scrypt_total E" and "no_faults E" and "p \<noteq> []"
    and "map_of (db_metadata w) header_key = None" and "db_audit w = []" and "b64url_ok E"
  shows "\<exists>h b rk ev. init_passphrase E p ns w = (Ok h, w\<lparr>tick := tick w + 10,
      db_metadata := tbl_put header_key (e_json_print E (enc_header h)) (db_metadata w),
      db_audit := [(ev_event_id ev, e_json_print E (enc_event ev))]\<rparr>) \<and>
    vh_provider_binding h = enc_passphrase_binding b \<and> pb_provider_id b = passphrase_provider_id \<and>
    passphrase_unwrap E (vh_vault_id h) b p = Ok rk \<and> length rk = key_size \<and>
    event_ok ev \<and> ev_event_id ev = e_uuid E (tick w + 7)"
proof -
  let ?vid = "e_uuid E (tick w)" and ?rk = "e_rand E (Suc (tick w)) key_size"
  let ?w2 = "w\<lparr>tick := Suc (Suc (tick w))\<rparr>"
  have rk: "length ?rk = key_size"
    using assms(3) by (simp add: fresh_ok_def)
  obtain b where b: "passphrase_wrap E default_scrypt_params ?vid ?rk p ?w2 = (Ok b, ?w2\<lparr>tick := tick ?w2 + 2\<rparr>)"
    using passphrase_wrap_run [OF assms(2,4,3,5) rk assms(7)] by blast
  define h where "h = \<lparr>vh_schema_version = schema_version, vh_vault_id = ?vid, vh_namespace_id = ns,
      vh_provider_binding = enc_passphrase_binding b, vh_created_at = e_time_ms E (e_clock E (Suc (Suc (Suc (Suc (tick w))))))\<rparr>"
  let ?keys = "\<lparr>kh_vault_id = ?vid, kh_root_key = ?rk\<rparr>"
  let ?w3 = "w\<lparr>tick := tick w + 6, db_metadata := tbl_put header_key (e_json_print E (enc_header h)) (db_metadata w)\<rparr>"
  obtain k where k: "(audit_integrity_key E ?keys :: (bytes, vault_error) result) = Ok k"
    using keys_eq [OF assms(4)] by blast
  have empty: "stored_log E [] (db_audit ?w3)" "e_uuid E (Suc (tick ?w3)) \<notin> fst ` set (db_audit ?w3)"
    by (simp_all add: stored_log_def assms(9))
  have fields: "clean [(''provider_id'', enc_opt JStr (binding_field h ''provider_id'')),
         (''assurance_level'', enc_opt JStr (binding_field h ''assurance_level''))]"
    by simp
  obtain ev where ev: "append_audit E h ?keys ''vault.initialized'' ''info'' ''allow''
       (meta [(''provider_id'', enc_opt JStr (binding_field h ''provider_id'')),
         (''assurance_level'', enc_opt JStr (binding_field h ''assurance_level''))]) ?w3
        = (Ok ev, ?w3\<lparr>tick := tick ?w3 + 4,
            db_audit := db_audit ?w3 @ [(ev_event_id ev, e_json_print E (enc_event ev))]\<rparr>)"
      "ev_event_id ev = e_uuid E (Suc (tick ?w3))" "event_ok ev"
    using append_audit_run [OF assms(1,6) empty(1) k fields empty(2)] by blast
  let ?w4 = "?w3\<lparr>tick := tick ?w3 + 4,
      db_audit := db_audit ?w3 @ [(ev_event_id ev, e_json_print E (enc_event ev))]\<rparr>"
  let ?w1 = "?w2\<lparr>tick := tick ?w2 + 2\<rparr>"
  have made: "(wrap_passphrase E p ?vid ?rk ?w2 :: (_, vault_error) result \<times> _) = (Ok (vh_provider_binding h), ?w1)"
    using b by (simp add: wrap_passphrase_def bnd_Ok_iff h_def)
  have stored: "on_err VStore (create_vault E h) (?w1\<lparr>tick := Suc (tick ?w1)\<rparr>) = (Ok (), ?w3)"
    using assms(6,8) by (simp add: create_vault_def no_faults_def numeral_eq_Suc)
  have header: "\<lparr>vh_schema_version = schema_version, vh_vault_id = ?vid, vh_namespace_id = ns,
      vh_provider_binding = vh_provider_binding h, vh_created_at = e_time_ms E (e_clock E (tick ?w1))\<rparr> = h"
    by (simp add: h_def)
  have keys: "key_hierarchy_new ?vid ?rk = Ok ?keys"
    using rk by (simp add: key_hierarchy_new_def)
  have vid: "(new_uuid E w :: (_, vault_error) result \<times> _) = (Ok ?vid, w\<lparr>tick := Suc (tick w)\<rparr>)"
    and rand: "(random_bytes E key_size (w\<lparr>tick := Suc (tick w)\<rparr>) :: (_, vault_error) result \<times> _) = (Ok ?rk, ?w2)"
    and clock: "(now E ?w1 :: (_, vault_error) result \<times> _)
      = (Ok (e_clock E (tick ?w1)), ?w1\<lparr>tick := Suc (tick ?w1)\<rparr>)"
    by simp_all
  note steps = bnd_step [where m = "new_uuid E", OF vid]
    bnd_step [where m = "random_bytes E key_size", OF rand]
    bnd_step [where m = "wrap_passphrase E p ?vid ?rk", OF made] bnd_step [where m = "now E", OF clock]
    seq_step [where m = "on_err VStore (create_vault E h)", OF stored]
  have "init_passphrase E p ns w = (Ok h, ?w4)"
    unfolding init_passphrase_def init_vault_def Let_def steps(1-4) header steps(5) keys map_err_simps
      lift_r_run by (simp only: seq_Ok_iff ev(1) ret_Ok_iff) blast
  moreover have "passphrase_unwrap E (vh_vault_id h) b p = Ok ?rk"
    using passphrase_unwrap_wrap(1) [OF assms(2,10,3) b] by (simp add: h_def)
  moreover have "pb_provider_id b = passphrase_provider_id"
    using b by (auto simp: passphrase_wrap_def bnd_Ok_iff split: if_splits)
  ultimately show ?thesis
    using rk ev(2,3) assms(9)
    by (intro exI [of _ h] exI [of _ b] exI [of _ ?rk] exI [of _ ev]) (simp add: add.commute h_def)
qed

section \<open>Properties\<close>

text \<open>Runs of an initialized vault by callers whose passphrase opens it to its own keys.\<close>

inductive vault_run :: "env \<Rightarrow> bytes \<Rightarrow> world \<Rightarrow> world \<Rightarrow> bool" for E k w where
  init: "vault_run E k w w"
| more: "vault_run E k w v \<Longrightarrow> opens_to E pw k v \<Longrightarrow> vault_step E pw v v' \<Longrightarrow> vault_run E k w v'"



definition blank_world :: world where
  "blank_world = \<lparr>tick = 0, db_metadata = [], db_secrets = [], db_policies = [], db_tickets = [],
     db_audit = [], db_fingerprints = [], db_jobs = []\<rparr>"

lemma sample_scrypt: "scrypt_total sample_env"
  by (simp add: scrypt_total_def sample_env_def)


end
