(* ===== verification/Vault_Runs.thy ===== *)
theory Vault_Runs
  imports Vault_Log
begin

text \<open>
  Runs of a well-formed vault (\<open>vault.rs\<close>) on a machine without faults: what storing a secret,
  reading it, issuing a ticket and using it return and leave.
\<close>

section \<open>A vault in good order\<close>

definition sound_env :: "env \<Rightarrow> bool" where
  "sound_env E \<longleftrightarrow> json_text_ok E \<and> aead_ok E \<and> b64url_ok E \<and> fresh_ok E \<and> digest_ok E \<and> time_ok E \<and>
     no_faults E"

definition policy_rows_ok :: "env \<Rightarrow> (string \<times> string) list \<Rightarrow> bool" where
  "policy_rows_ok E tbl \<longleftrightarrow> text_table E (enc_policy E) (stored_policy_domain E) ap_policy_id tbl"

definition ticket_rows_ok :: "env \<Rightarrow> (string \<times> string) list \<Rightarrow> bool" where
  "ticket_rows_ok E tbl \<longleftrightarrow> text_table E enc_ticket (ticket_domain E) tk_ticket_id tbl"

definition ids_past :: "env \<Rightarrow> nat \<Rightarrow> ('a \<times> 'b) list \<Rightarrow> ('a \<Rightarrow> string) \<Rightarrow> bool" where
  "ids_past E n tbl f \<longleftrightarrow> (\<forall>row \<in> set tbl. \<exists>m < n. f (fst row) = e_uuid E m)"

definition good :: "env \<Rightarrow> string \<Rightarrow> vault_header \<Rightarrow> key_hierarchy \<Rightarrow> 'z world_scheme \<Rightarrow> bool" where
  "good E p h keys w \<longleftrightarrow>
     map_of (db_metadata w) header_key = Some (e_json_print E (enc_header h)) \<and>
     (\<exists>b. vh_provider_binding h = enc_passphrase_binding b \<and> pb_provider_id b = passphrase_provider_id \<and>
        passphrase_unwrap E (vh_vault_id h) b p = Ok (kh_root_key keys)) \<and>
     keys = \<lparr>kh_vault_id = vh_vault_id h, kh_root_key = kh_root_key keys\<rparr> \<and>
     length (kh_root_key keys) = key_size \<and>
     (\<exists>evs. stored_log E evs (db_audit w)) \<and> ids_past E (tick w) (db_audit w) id \<and>
     secrets_ok E (db_secrets w) \<and> policy_rows_ok E (db_policies w) \<and>
     ticket_rows_ok E (db_tickets w) \<and> ids_past E (tick w) (db_tickets w) id"

lemma sound_envD:
  assumes "sound_env E"
  shows "json_text_ok E" "aead_ok E" "b64url_ok E" "fresh_ok E" "digest_ok E" "time_ok E" "no_faults E"
    "e_fault E n = None"
  using assms by (simp_all add: sound_env_def no_faults_def)

lemma ids_past_mono: "ids_past E m tbl f \<Longrightarrow> m \<le> n \<Longrightarrow> ids_past E n tbl f"
  unfolding ids_past_def by (meson order_less_le_trans)

lemma ids_past_snoc:
  "ids_past E n tbl f \<Longrightarrow> f key = e_uuid E m \<Longrightarrow> m < n \<Longrightarrow> ids_past E n (tbl @ [(key, val)]) f"
  by (auto simp: ids_past_def)

lemma good_tick: "good E p h keys w \<Longrightarrow> tick w \<le> n \<Longrightarrow> good E p h keys (w\<lparr>tick := n\<rparr>)"
  by (auto simp: good_def elim: ids_past_mono)

lemma ids_past_fresh:
  "fresh_ok E \<Longrightarrow> ids_past E m tbl id \<Longrightarrow> m \<le> n \<Longrightarrow> e_uuid E n \<notin> fst ` set tbl"
  by (fastforce simp: ids_past_def fresh_ok_def inj_eq)

lemma good_unlock:
  assumes "sound_env E" and "good E p h keys w"
  shows "unlock E (Some p) w = (Ok (h, keys), w\<lparr>tick := Suc (tick w)\<rparr>)"
proof -
  obtain b where b: "vh_provider_binding h = enc_passphrase_binding b" "pb_provider_id b = passphrase_provider_id"
      "passphrase_unwrap E (vh_vault_id h) b p = Ok (kh_root_key keys)"
    using assms(2) by (auto simp: good_def)
  have k: "keys = \<lparr>kh_vault_id = vh_vault_id h, kh_root_key = kh_root_key keys\<rparr>"
      and len: "length (kh_root_key keys) = key_size"
      and row: "map_of (db_metadata w) header_key = Some (e_json_print E (enc_header h))"
    using assms(2) by (simp_all add: good_def)
  show ?thesis
    using unlock_passphrase [OF sound_envD(1,8) [OF assms(1)] row b len] k by simp
qed

lemma good_keys:
  assumes "sound_env E"
  shows "(audit_integrity_key E keys :: (bytes, vault_error) result)
      = Ok (kdf E (kh_root_key keys) (vault_label keys ''audit-integrity''))"
    and "(ticket_mac_key E keys :: (bytes, vault_error) result)
      = Ok (kdf E (kh_root_key keys) (vault_label keys ''ticket-mac''))"
    and "(redaction_fingerprint_key E keys :: (bytes, vault_error) result)
      = Ok (kdf E (kh_root_key keys) (vault_label keys ''redaction-fingerprint''))"
  by (rule keys_eq [OF sound_envD(5) [OF assms]])+

text \<open>An audit record changes the log and the clock, and leaves a vault in good order.\<close>

lemma good_audit:
  assumes "sound_env E" and "good E p h keys w" and "clean fs"
  shows "\<exists>ev rows. append_audit E h' keys ty sev dec (meta fs) w
      = (Ok ev, w\<lparr>tick := tick w + 4, db_audit := rows\<rparr>) \<and>
    good E p h keys (w\<lparr>tick := tick w + 4, db_audit := rows\<rparr>)"
proof -
  obtain evs where evs: "stored_log E evs (db_audit w)" and ids: "ids_past E (tick w) (db_audit w) id"
    using assms(2) by (auto simp: good_def)
  note sound = sound_envD [OF assms(1)]
  let ?keep = "\<lambda>v. map_of (db_metadata v) = map_of (db_metadata w)"
  obtain ev where run: "append_audit E h' keys ty sev dec (meta fs) w
      = (Ok ev, w\<lparr>tick := tick w + 4, db_audit := db_audit w @ [(ev_event_id ev, e_json_print E (enc_event ev))]\<rparr>)"
      "ev_event_id ev = e_uuid E (Suc (tick w))" "event_ok ev"
    using append_audit_run [OF sound(1,7) evs good_keys(1) [OF assms(1)] assms(3)
      ids_past_fresh [OF sound(4) ids]] by (metis le_SucI order_refl)
  have "stored_log E (evs @ [ev]) (db_audit w @ [(ev_event_id ev, e_json_print E (enc_event ev))])"
    using evs run(3) by (simp add: stored_log_def)
  moreover have "ids_past E (tick w + 4) (db_audit w @ [(ev_event_id ev, e_json_print E (enc_event ev))]) id"
    using ids_past_mono [OF ids, of "tick w + 4"] run(2)
    by (intro ids_past_snoc [where m = "Suc (tick w)"]) simp_all
  ultimately have "good E p h keys (w\<lparr>tick := tick w + 4,
      db_audit := db_audit w @ [(ev_event_id ev, e_json_print E (enc_event ev))]\<rparr>)"
    using good_tick [OF assms(2), of "tick w + 4"] by (auto simp: good_def)
  with run(1) show ?thesis
    by blast
qed


lemma good_secrets:
  "good E p h keys w \<Longrightarrow> secrets_ok E tbl \<Longrightarrow> good E p h keys (w\<lparr>db_secrets := tbl\<rparr>)"
  "good E p h keys w \<Longrightarrow> good E p h keys (w\<lparr>db_fingerprints := fps\<rparr>)"
  by (simp_all add: good_def)

lemma if_neq_self: "(if x \<noteq> x then a else b) = b"
  by simp

section \<open>Storing and reading\<close>

text \<open>The latest version of a secret holds a plaintext.\<close>

definition current :: "env \<Rightarrow> key_hierarchy \<Rightarrow> 'z world_scheme \<Rightarrow> string \<Rightarrow> u64 \<Rightarrow> secret_record \<Rightarrow> bytes \<Rightarrow> bool" where
  "current E keys w rf v rc pt \<longleftrightarrow>
     max_version w rf = Some v \<and> secret_at E w rf v = Some rc \<and> sr_status rc = Active \<and>
     sr_secret_version rc = v \<and> decrypt_secret E keys rc = Ok pt"

lemma current_frame:
  "db_secrets w' = db_secrets w \<Longrightarrow> current E keys w' rf v rc pt = current E keys w rf v rc pt"
  by (simp add: current_def max_version_def versions_def secret_at_def)

text \<open>The version after the latest does not wrap around.\<close>

lemma next_version_past:
  assumes "secrets_ok E (db_secrets w)" and "max_version w rf = Some u"
  shows "unat (u + 1) = unat u + 1" and "u \<le> opt_or (max_version w rf) 0 + 1"
    and "opt_or (max_version w rf) 0 + 1 \<noteq> 0"
proof -
  have "(rf, u) \<in> fst ` set (db_secrets w)"
    using assms(2) unfolding max_version_Some by (simp add: set_versions)
  then have "fits u"
    using assms(1) by (auto simp: secrets_ok_def)
  then show past: "unat (u + 1) = unat u + 1"
    by (simp add: fits_def unat_word_ariths(1))
  then show "u \<le> opt_or (max_version w rf) 0 + 1"
    using assms(2) by (simp add: opt_or_def word_le_nat_alt)
  show "opt_or (max_version w rf) 0 + 1 \<noteq> 0"
    using past assms(2) by (auto simp: opt_or_def dest!: arg_cong [where f = unat])
qed

lemma put_secret_run:
  assumes "sound_env E" and "good E p h keys w" and "starts_with rf ''secret://''"
    and "fits (opt_or (max_version w rf) 0 + 1)" and "length pt < 2 ^ 36"
  defines "v \<equiv> opt_or (max_version w rf) 0 + 1"
  shows "\<exists>w' rc. put_secret E rf pt p ty w = (Ok v, w') \<and> good E p h keys w' \<and> tick w' = tick w + 12 \<and>
    current E keys w' rf v rc pt \<and> db_policies w' = db_policies w \<and> db_tickets w' = db_tickets w \<and>
    db_metadata w' = db_metadata w \<and>
    (\<forall>rf' u. (rf', u) \<noteq> (rf, v) \<longrightarrow> secret_at E w' rf' u = secret_at E w rf' u)"
proof -
  note sound = sound_envD [OF assms(1)]
  obtain sid where sid: "secret_id_from_ref E rf = Ok sid"
    using assms(3) by (simp add: secret_id_from_ref_def)
  let ?w2 = "w\<lparr>tick := tick w + 2\<rparr>"
  obtain rc where enc: "encrypt_secret E keys (vh_namespace_id h) sid rf v pt ty vault_policy_id
      vault_policy_hash (hash_bytes E (as_bytes rf)) vault_provider_policy_hash ?w2
        = (Ok rc :: (_, vault_error) result, ?w2\<lparr>tick := tick ?w2 + 4\<rparr>)"
    using encrypt_secret_total [OF sound(5,4,2) assms(5)] by blast
  note rec = encrypt_secret_Ok [OF sound(5,4,3) enc]
  have id: "sr_secret_ref rc = rf" "sr_secret_version rc = v"
    using rec(1) by (simp_all add: identity_is_def)
  let ?tbl = "tbl_put (rf, v) (row_of E rc) (db_secrets w)"
  let ?fp = "redaction_fingerprint E (kdf E (kh_root_key keys) (vault_label keys ''redaction-fingerprint'')) pt"
  let ?w3 = "w\<lparr>tick := tick w + 8, db_secrets := ?tbl, db_fingerprints := tbl_put (rf, v) ?fp (db_fingerprints w)\<rparr>"
  have row: "map_of (db_metadata w) header_key \<noteq> None" and secs: "secrets_ok E (db_secrets w)"
    using assms(2) by (auto simp: good_def)
  have good3: "good E p h keys ?w3"
    using good_tick [OF assms(2), of "tick w + 8"] secrets_ok_put [OF secs, of rc] assms(4) id
    by (simp add: good_def v_def)
  obtain ev rows where audit: "append_audit E h keys ''secret.stored'' ''info'' ''allow''
       (meta [(''secret_ref'', JStr rf), (''secret_version'', enc_u64 v)]) ?w3
         = (Ok ev, ?w3\<lparr>tick := tick ?w3 + 4, db_audit := rows\<rparr>)"
      "good E p h keys (?w3\<lparr>tick := tick ?w3 + 4, db_audit := rows\<rparr>)"
    using good_audit [OF assms(1) good3] by (metis clean_simps(1,2,4))
  let ?w4 = "?w3\<lparr>tick := tick ?w3 + 4, db_audit := rows\<rparr>"
  have "latest_version E rf (w\<lparr>tick := Suc (tick w)\<rparr>) = (Ok (max_version w rf), ?w2)"
    using sound(8) by (simp add: latest_version_def txn_run query_def max_version_def versions_def)
  then have nv: "next_version E rf (w\<lparr>tick := Suc (tick w)\<rparr>) = (Ok v, ?w2)"
    by (simp add: next_version_def bnd_Ok_iff v_def)
  have encrypted: "vault_encrypt E h keys rf v pt ty ?w2 = (Ok rc, ?w2\<lparr>tick := tick ?w2 + 4\<rparr>)"
    using enc by (simp add: vault_encrypt_def sid)
  have saved: "on_err VStore (save_secret_record E rc) (?w2\<lparr>tick := tick ?w2 + 4\<rparr>)
      = (Ok (), w\<lparr>tick := tick w + 7, db_secrets := ?tbl\<rparr>)"
    using sound(8) row assms(4) id by (simp add: save_secret_record_Ok_iff v_def)
  have fp: "on_err VStore (save_redaction_fingerprint E rf v ?fp) (w\<lparr>tick := tick w + 7, db_secrets := ?tbl\<rparr>)
      = (Ok (), ?w3)"
    using sound(8) assms(4) by (simp add: save_redaction_fingerprint_def v_def)
  have run: "put_secret E rf pt p ty w = (Ok v, ?w4)"
    unfolding put_secret_def bnd_step [where m = "unlock E (Some p)", OF good_unlock [OF assms(1,2)]]
      case_prod_conv bnd_step [where m = "next_version E rf", OF nv]
      bnd_step [where m = "vault_encrypt E h keys rf v pt ty", OF encrypted]
      seq_step [where m = "on_err VStore (save_secret_record E rc)", OF saved]
      good_keys(3) [OF assms(1)] lift_r_run
      seq_step [where m = "on_err VStore (save_redaction_fingerprint E rf v ?fp)", OF fp]
    by (simp only: seq_Ok_iff audit(1) ret_Ok_iff) blast
  have newest: "\<forall>u. max_version w rf = Some u \<longrightarrow> u \<le> v"
    using next_version_past(2) [OF secs] by (simp add: v_def)
  have "max_version ?w4 rf = max_version (w\<lparr>db_secrets := ?tbl\<rparr>) rf"
    by (simp add: max_version_def versions_def)
  then have "max_version ?w4 rf = Some v"
    using max_version_put [OF newest] by simp
  moreover have "secret_at E ?w4 rf v = Some rc"
    by (simp add: secret_at_def secret_row_reads sound(1))
  ultimately have "current E keys ?w4 rf v rc pt"
    using decrypt_holds [OF sound(2,5) rec(4)] rec(2) id by (simp add: current_def)
  moreover have "secret_at E ?w4 rf' u = secret_at E w rf' u" if "(rf', u) \<noteq> (rf, v)" for rf' u
    using that by (auto simp: secret_at_def)
  ultimately show ?thesis
    using run audit(2) by (intro exI [of _ ?w4] exI [of _ rc]) simp
qed


lemma good_meta_free: "good E p h keys w \<Longrightarrow> map_of (db_metadata w) header_key = Some (e_json_print E (enc_header h))"
  by (simp add: good_def)

lemma load_latest_run:
  assumes "sound_env E" and "max_version w rf = Some v" and "secret_at E w rf v = Some rc"
  shows "load_latest_secret E rf w = (Ok rc, w\<lparr>tick := Suc (tick w)\<rparr>)"
  using assms sound_envD(8) [OF assms(1)] by (simp add: load_latest_secret_Ok_iff)

lemma get_secret_run:
  assumes "sound_env E" and "good E p h keys w" and "current E keys w rf v rc pt"
  shows "\<exists>rows. get_secret E rf p w = (Ok pt, w\<lparr>tick := tick w + 6, db_audit := rows\<rparr>) \<and>
    good E p h keys (w\<lparr>tick := tick w + 6, db_audit := rows\<rparr>)"
proof -
  let ?w1 = "w\<lparr>tick := Suc (tick w)\<rparr>" and ?w2 = "w\<lparr>tick := tick w + 2\<rparr>"
  have "max_version ?w1 rf = Some v" "secret_at E ?w1 rf v = Some rc"
    using assms(3) by (simp_all add: current_def max_version_def versions_def secret_at_def)
  then have load: "on_err VStore (load_latest_secret E rf) ?w1 = (Ok rc, ?w2)"
    by (simp add: load_latest_run [OF assms(1)])
  obtain ev rows where audit: "append_audit E h keys ''secret.materialized'' ''critical'' ''allow''
        (meta [(''secret_ref'', JStr rf), (''secret_version'', enc_u64 (sr_secret_version rc))]) ?w2
          = (Ok ev, ?w2\<lparr>tick := tick ?w2 + 4, db_audit := rows\<rparr>)"
      "good E p h keys (?w2\<lparr>tick := tick ?w2 + 4, db_audit := rows\<rparr>)"
    using good_audit [OF assms(1) good_tick [OF assms(2), of "tick w + 2"]] by (metis clean_simps(1,2,4) le_add1)
  have rc: "sr_status rc = Active" "decrypt_secret E keys rc = Ok pt"
    using assms(3) by (simp_all add: current_def)
  have "get_secret E rf p w = (Ok pt, ?w2\<lparr>tick := tick ?w2 + 4, db_audit := rows\<rparr>)"
    unfolding get_secret_def bnd_step [where m = "unlock E (Some p)", OF good_unlock [OF assms(1,2)]]
      case_prod_conv bnd_step [where m = "on_err VStore (load_latest_secret E rf)", OF load] rc map_err_simps
      lift_r_run if_neq_self
    by (simp only: seq_Ok_iff audit(1) ret_Ok_iff) blast
  with audit(2) show ?thesis
    by (intro exI [of _ rows]) (simp add: add.commute)
qed

section \<open>Tickets\<close>

lemma good_ticket:
  assumes "sound_env E" and "good E p h keys w" and "tk_ticket_id t = e_uuid E m" and "m < tick w"
  shows "good E p h keys (w\<lparr>db_tickets := tbl_put (tk_ticket_id t) (e_json_print E (enc_ticket t)) (db_tickets w)\<rparr>)"
proof -
  have "ticket_domain E t"
    using sound_envD(1) [OF assms(1)] by (simp add: ticket_domain_def)
  then have "ticket_rows_ok E (tbl_put (tk_ticket_id t) (e_json_print E (enc_ticket t)) (db_tickets w))"
    using assms(2) ticket_table.put_ok [of E "db_tickets w" t] by (simp add: good_def ticket_rows_ok_def)
  moreover have "ids_past E (tick w) (tbl_put (tk_ticket_id t) s (db_tickets w)) id" for s
  proof -
    have put: "set (tbl_put a b tbl) \<subseteq> insert (a, b) (set tbl)" for a b and tbl :: "(string \<times> string) list"
      by (induction a b tbl rule: tbl_put.induct) auto
    have old: "\<forall>row \<in> set (db_tickets w). \<exists>m < tick w. fst row = e_uuid E m"
      using assms(2) by (simp add: good_def ids_past_def)
    show ?thesis
      unfolding ids_past_def using old assms(3,4) subsetD [OF put] by fastforce
  qed
  ultimately show ?thesis
    using assms(2) by (simp add: good_def)
qed

text \<open>The policies in the order they are tried.\<close>

definition policies_in :: "env \<Rightarrow> 'z world_scheme \<Rightarrow> access_policy list \<Rightarrow> bool" where
  "policies_in E w ps \<longleftrightarrow> list_text E (dec_policy E) (texts_by_key (db_policies w)) = Ok ps"

lemma list_policies_run:
  "sound_env E \<Longrightarrow> policies_in E w ps \<Longrightarrow> on_err VStore (list_policies E) w = (Ok ps, w\<lparr>tick := Suc (tick w)\<rparr>)"
  using sound_envD(8) by (simp add: list_policies_def policies_in_def)

text \<open>The hash under which a policy is recorded in a ticket.\<close>

definition hash_of_policy :: "env \<Rightarrow> access_policy \<Rightarrow> string" where
  "hash_of_policy E pol = e_b64url E (e_sha256 E (as_bytes (e_json_print E (to_value (policy_fields E pol)))))"

lemma policy_hash_run: "policy_hash E pol = Ok (hash_of_policy E pol)"
  by (simp add: policy_hash_eq hash_of_policy_def)

definition ticket_key :: "env \<Rightarrow> key_hierarchy \<Rightarrow> bytes" where
  "ticket_key E keys = kdf E (kh_root_key keys) (vault_label keys ''ticket-mac'')"

lemma issue_run:
  assumes "e_time_add E (rq_now r) (sint (ap_max_ticket_ttl_seconds pol)) = Some x"
  shows "\<exists>t. issue E k vid sid ver r pol hash session w = (Ok t, w\<lparr>tick := Suc (tick w)\<rparr>) \<and>
    tk_ticket_id t = e_uuid E (tick w) \<and> tk_secret_version t = ver \<and> tk_policy_hash t = hash"
  using assms by (simp add: issue_Ok_iff Let_def)

lemma issue_ticket_run:
  assumes "sound_env E" and "good E p h keys w" and "current E keys w (rq_secret_ref r) v rc pt"
    and "policies_in E w ps" and "find (\<lambda>pol. permits pol r) ps = Some pol"
    and "e_time_add E (rq_now r) (sint (ap_max_ticket_ttl_seconds pol)) = Some x"
  shows "\<exists>t rows w'. issue_ticket E r p w = (Ok t, w') \<and> good E p h keys w' \<and>
    w' = w\<lparr>tick := tick w + 9, db_audit := rows,
      db_tickets := tbl_put (tk_ticket_id t) (e_json_print E (enc_ticket t)) (db_tickets w)\<rparr> \<and>
    issued_for E (ticket_key E keys) r pol (rq_broker_session_id r) t \<and> tk_secret_version t = v \<and>
    tk_policy_hash t = hash_of_policy E pol"
proof -
  note sound = sound_envD [OF assms(1)]
  let ?w1 = "w\<lparr>tick := Suc (tick w)\<rparr>" and ?w2 = "w\<lparr>tick := tick w + 2\<rparr>" and ?w3 = "w\<lparr>tick := tick w + 3\<rparr>"
  let ?rf = "rq_secret_ref r"
  have "max_version ?w1 ?rf = Some v" "secret_at E ?w1 ?rf v = Some rc"
    using assms(3) by (simp_all add: current_def max_version_def versions_def secret_at_def)
  then have load: "on_err VStore (load_latest_secret E ?rf) ?w1 = (Ok rc, ?w2)"
    by (simp add: load_latest_run [OF assms(1)])
  have rc: "sr_status rc = Active" "sr_secret_version rc = v"
    using assms(3) by (simp_all add: current_def)
  have pols: "on_err VStore (list_policies E) ?w2 = (Ok ps, ?w3)"
    using list_policies_run [OF assms(1), of ?w2 ps] assms(4) by (simp add: policies_in_def)
  obtain t where t: "(issue E (ticket_key E keys) (vh_vault_id h) (sr_secret_id rc) (sr_secret_version rc) r pol
      (hash_of_policy E pol) (rq_broker_session_id r) ?w3 :: (_, vault_error) result \<times> _)
        = (Ok t, ?w3\<lparr>tick := Suc (tick ?w3)\<rparr>)"
      and tk: "tk_ticket_id t = e_uuid E (tick ?w3)" "tk_secret_version t = sr_secret_version rc"
        "tk_policy_hash t = hash_of_policy E pol"
    using issue_run [OF assms(6)] by metis
  let ?tbl = "tbl_put (tk_ticket_id t) (e_json_print E (enc_ticket t)) (db_tickets w)"
  let ?w4 = "w\<lparr>tick := tick w + 5, db_tickets := ?tbl\<rparr>"
  have saved: "on_err VStore (save_ticket E t) (?w3\<lparr>tick := Suc (tick ?w3)\<rparr>) = (Ok (), ?w4)"
    using sound(8) by (simp add: save_ticket_def)
  have "good E p h keys ?w4"
    using good_ticket [OF assms(1) good_tick [OF assms(2), of "tick w + 5"] tk(1)] by simp
  then obtain ev rows where audit: "append_audit E h keys ''ticket.issued'' ''info'' ''allow''
       (meta [(''secret_ref'', JStr (tk_secret_ref t)), (''consumer'', JStr (tk_consumer t)),
         (''purpose'', JStr (tk_purpose t)),
         (''delivery_mode'', JStr (delivery_mode_string (tk_delivery_mode t))),
         (''ticket_id'', JStr (tk_ticket_id t)), (''policy_id'', JStr (tk_policy_id t))]) ?w4
          = (Ok ev, ?w4\<lparr>tick := tick ?w4 + 4, db_audit := rows\<rparr>)"
      "good E p h keys (?w4\<lparr>tick := tick ?w4 + 4, db_audit := rows\<rparr>)"
    using good_audit [OF assms(1)] by (metis clean_simps(1,2))
  have eval: "er_policy (evaluate ps r) = Some pol" "er_decision (evaluate ps r) = Allow"
    using assms(5) by (simp_all add: evaluate_eq)
  have "issue_ticket E r p w = (Ok t, ?w4\<lparr>tick := tick ?w4 + 4, db_audit := rows\<rparr>)"
    unfolding issue_ticket_def bnd_step [where m = "unlock E (Some p)", OF good_unlock [OF assms(1,2)]]
      case_prod_conv bnd_step [where m = "on_err VStore (load_latest_secret E ?rf)", OF load]
      rc(1) if_neq_self bnd_step [where m = "on_err VStore (list_policies E)", OF pols] Let_def eval option.case
      good_keys(2) [OF assms(1)] policy_hash_run lift_r_run ticket_key_def [symmetric]
      bnd_step [where m = "issue E (ticket_key E keys) (vh_vault_id h) (sr_secret_id rc) (sr_secret_version rc) r pol
        (hash_of_policy E pol) (rq_broker_session_id r)", OF t]
      seq_step [where m = "on_err VStore (save_ticket E t)", OF saved]
    by (simp only: seq_Ok_iff audit(1) ret_Ok_iff) blast
  then show ?thesis
    using audit(2) issue_issued_for [OF t] tk(2,3) rc(2) by (intro exI [of _ t] exI [of _ rows]) (simp add: add.commute)
qed

end
