(* ===== verification/Vault_Release.thy ===== *)
theory Vault_Release
  imports Vault_Runs
begin

text \<open>
  The release of secrets (\<open>vault.rs\<close>): what a ticket must meet before its secret is handed out, the gate
  for plaintext export, the audit record a release leaves, and that a permitted request is served.
\<close>

section \<open>Reading leaves the tables alone\<close>

definition same_tables :: "'z world_scheme \<Rightarrow> 'z world_scheme \<Rightarrow> bool" where
  "same_tables w v \<longleftrightarrow> (\<exists>n. v = w\<lparr>tick := n\<rparr>)"

lemma same_tables_tick_free: "tick_free (same_tables w)"
  by (auto simp: tick_free_def same_tables_def)

lemma same_tables_refl [simp]: "same_tables w w"
  unfolding same_tables_def by (rule exI [of _ "tick w"]) simp

lemma same_tablesD:
  assumes "same_tables w v"
  shows "db_tickets v = db_tickets w" "db_secrets v = db_secrets w" "db_policies v = db_policies w"
    "db_metadata v = db_metadata w" "db_audit v = db_audit w" "db_jobs v = db_jobs w"
  using assms by (auto simp: same_tables_def)

lemma reads_same_tables:
  assumes "m w = (r, w')" and "keeps (same_tables u) m" and "same_tables u w"
  shows "same_tables u w'"
  using keepsD [OF assms(2,3,1)] .

section \<open>What a successful use has checked\<close>

lemma ok_orE: "lift_r (ok_or x e) w = (Ok y, w') \<Longrightarrow> x = Some y \<and> w' = w"
  by simp

lemma enforce_Ok:
  assumes "enforce_plaintext_export_allowed E mfa w = (Ok u, w')"
  shows "map_of (db_metadata w) plaintext_export_config_key = Some ''enabled''"
    and "mfa \<or> \<not> (\<exists>v rc. max_version w totp_secret_ref = Some v \<and>
      secret_at E w totp_secret_ref v = Some rc \<and> sr_status rc = Active)"
proof -
  have en: "map_of (db_metadata w) plaintext_export_config_key = Some ''enabled''"
    and rest: "bnd (totp_mfa_enrolled E) (\<lambda>enrolled. if enrolled \<and> \<not> mfa then fail PlaintextExportMfaRequired else ret ())
        (w\<lparr>tick := Suc (tick w)\<rparr>) = (Ok u, w')"
    using assms by (auto simp: enforce_plaintext_export_allowed_def plaintext_export_enabled_def
        get_metadata_def bnd_Ok_iff split: if_splits)
  show "map_of (db_metadata w) plaintext_export_config_key = Some ''enabled''"
    by (rule en)
  obtain enrolled w1 where e: "totp_mfa_enrolled E (w\<lparr>tick := Suc (tick w)\<rparr>) = (Ok enrolled, w1)"
      "\<not> (enrolled \<and> \<not> mfa)"
    using rest by (auto simp: bnd_Ok_iff split: if_splits)
  have "enrolled" if "max_version w totp_secret_ref = Some v" "secret_at E w totp_secret_ref v = Some rc"
      "sr_status rc = Active" for v rc
  proof -
    have "load_latest_secret E totp_secret_ref (w\<lparr>tick := Suc (tick w)\<rparr>) = (Ok rc, w\<lparr>tick := Suc (Suc (tick w))\<rparr>) \<or>
        e_fault E (Suc (tick w)) \<noteq> None"
      using that by (auto simp: load_latest_secret_Ok_iff max_version_def versions_def secret_at_def)
    moreover have "e_fault E (Suc (tick w)) = None"
      using e(1) by (auto simp: totp_mfa_enrolled_def handle_Ok_iff load_latest_secret_def txn_def Let_def
          split: option.splits store_fault.splits store_error.splits)
    ultimately show ?thesis
      using e(1) that(3) by (auto simp: totp_mfa_enrolled_def handle_def ret_def)
  qed
  with e(2) show "mfa \<or> \<not> (\<exists>v rc. max_version w totp_secret_ref = Some v \<and>
      secret_at E w totp_secret_ref v = Some rc \<and> sr_status rc = Active)"
    by blast
qed

lemma status_branch:
  "(if sr_status rc \<noteq> Active then seq m (fail e) else n) v = (Ok y, v') \<longleftrightarrow>
     sr_status rc = Active \<and> n v = (Ok y, v')"
  by (auto simp: seq_Ok_iff)

lemma consume_ticket_Ok:
  assumes "consume_ticket_for_secret E tid r p w = (Ok pt, w')"
  obtains w0 h keys w1 t w2 k t' pol w3 w4 w5 rc w6 ev sev where
    "(if rq_raw_export_requested r then enforce_plaintext_export_allowed E (rq_mfa_verified r) else ret ()) w
       = (Ok (), w0)"
    "unlock E (Some p) w0 = (Ok (h, keys), w1)"
    "vault_load_ticket E tid w1 = (Ok t, w2)"
    "(ticket_mac_key E keys :: (bytes, vault_error) result) = Ok k"
    "consume E k t r (e_clock E (tick w2)) = Ok t'"
    "check_ticket_policy E t (w2\<lparr>tick := Suc (tick w2)\<rparr>) = (Ok pol, w3)"
    "ensure_ticket_secret_is_current E t w3 = (Ok (), w4)"
    "save_ticket_if_current E t t' w4 = (Ok (), w5)"
    "(if tk_secret_version t = 0 then load_latest_secret E (tk_secret_ref t)
       else load_secret_version E (tk_secret_ref t) (tk_secret_version t)) w5 = (Ok rc, w6)"
    "sr_status rc = Active" "decrypt_secret E keys rc = Ok pt"
    "append_audit E h keys ''secret.materialized'' sev ''allow''
       (meta [(''secret_ref'', JStr (tk_secret_ref t)), (''ticket_id'', JStr (tk_ticket_id t)),
           (''consumer'', JStr (rq_consumer r)), (''purpose'', JStr (rq_purpose r)),
           (''delivery_mode'', JStr (delivery_mode_string (rq_delivery_mode r)))]) w6 = (Ok ev, w')"
proof -
  show thesis
    using assms
    unfolding consume_ticket_for_secret_def seq_Ok_iff bnd_Ok_iff on_err_Ok_iff lift_r_Ok_iff map_err_Ok_iff
      effect_Ok_iff split_paired_Ex case_prod_conv status_branch ret_Ok_iff
    by (elim exE conjE) (rule that, simp_all)
qed


lemma secret_at_tables: "same_tables w v \<Longrightarrow> secret_at E v = secret_at E w"
  "same_tables w v \<Longrightarrow> max_version v = max_version w"
  by (auto simp: same_tables_def secret_at_def max_version_def versions_def fun_eq_iff)

lemma load_version_at:
  "load_secret_version E rf v w = (Ok rc, w') \<Longrightarrow> secret_at E w rf v = Some rc"
  by (auto simp: load_secret_version_def bind_r_Ok_iff secret_at_def split: if_splits)

lemma check_ticket_policy_Ok:
  assumes "check_ticket_policy E t w = (Ok pol, w')"
  shows "\<exists>ps. policies_in E w ps \<and> pol \<in> set ps \<and> ap_policy_id pol = tk_policy_id t \<and>
    hash_of_policy E pol = tk_policy_hash t"
proof -
  obtain ps where ps: "policies_in E (w\<lparr>tick := Suc (tick w)\<rparr>) ps"
      "find (\<lambda>p. ap_policy_id p = tk_policy_id t) ps = Some pol" and "validate_policy t pol (hash_of_policy E pol) = Ok ()"
    using assms
    by (auto simp: check_ticket_policy_def active_policy_for_ticket_def bnd_Ok_iff seq_Ok_iff
        list_policies_def policy_hash_run policies_in_def)
  then show ?thesis
    by (auto simp: policies_in_def validate_policy_def find_Some_iff split: if_splits)
qed

lemma ensure_current_Ok:
  assumes "ensure_ticket_secret_is_current E t w = (Ok (), w')" and "tk_secret_version t \<noteq> 0"
  shows "\<exists>v rc. max_version w (tk_secret_ref t) = Some v \<and> secret_at E w (tk_secret_ref t) v = Some rc \<and>
    sr_secret_version rc = tk_secret_version t \<and> sr_status rc = Active"
  using assms
  by (auto simp: ensure_ticket_secret_is_current_def bnd_Ok_iff load_latest_secret_Ok_iff split: if_splits)

lemma find_key: "distinct (map f xs) \<Longrightarrow> x \<in> set xs \<Longrightarrow> find (\<lambda>y. f y = f x) xs = Some x"
  by (induction xs) auto

section \<open>A use that succeeds\<close>

lemma consume_ticket_run:
  assumes "sound_env E" and "good E p h keys w" and "current E keys w (rq_secret_ref r) v rc pt"
    and "policies_in E w ps" and "find (\<lambda>q. ap_policy_id q = tk_policy_id t) ps = Some pol"
    and "tk_policy_hash t = hash_of_policy E pol"
    and "load_text E dec_ticket (db_tickets w) tid = Ok (Some t)" and "tk_secret_version t = v" and "v \<noteq> 0"
    and "consume E (ticket_key E keys) t r (e_clock E (tick w + 2)) = Ok t'"
    and "\<not> rq_raw_export_requested r"
  shows "\<exists>w'. consume_ticket_for_secret E tid r p w = (Ok pt, w') \<and> good E p h keys w'"
proof -
  note sound = sound_envD [OF assms(1)]
  let ?w = "\<lambda>n. w\<lparr>tick := tick w + n\<rparr>"
  have unl: "unlock E (Some p) w = (Ok (h, keys), ?w 1)"
    using good_unlock [OF assms(1,2)] by simp
  have load: "vault_load_ticket E tid (?w 1) = (Ok t, ?w 2)"
    using sound(8) assms(7) by (simp add: vault_load_ticket_def bnd_Ok_iff load_ticket_def)
  have clock: "(now E (?w 2) :: (_, vault_error) result \<times> _) = (Ok (e_clock E (tick w + 2)), ?w 3)"
    by simp
  have pols: "on_err VStore (list_policies E) (?w 3) = (Ok ps, ?w 4)"
    using list_policies_run [OF assms(1), of "?w 3" ps] assms(4) by (simp add: policies_in_def)
  have "ap_policy_id pol = tk_policy_id t"
    using assms(5) by (auto simp: find_Some_iff)
  then have valid: "validate_policy t pol (hash_of_policy E pol) = Ok ()"
    using assms(6) by (simp add: validate_policy_def)
  have act: "active_policy_for_ticket E t (?w 3) = (Ok pol, ?w 4)"
    using assms(5) unfolding active_policy_for_ticket_def bnd_step [where m = "on_err VStore (list_policies E)", OF pols]
    by (simp add: lift_r_def)
  have chk: "check_ticket_policy E t (?w 3) = (Ok pol, ?w 4)"
    unfolding check_ticket_policy_def bnd_step [where m = "active_policy_for_ticket E t", OF act]
      policy_hash_run lift_r_run valid by (simp add: seq_def lift_r_def bnd_def ret_def)
  have ctx: "tk_secret_ref t = rq_secret_ref r"
    using assms(10) by (simp add: consume_Ok_iff context_matches_def)
  have cur: "max_version (?w n) (tk_secret_ref t) = Some v" "secret_at E (?w n) (tk_secret_ref t) v = Some rc"
      "sr_status rc = Active" "sr_secret_version rc = v" "decrypt_secret E keys rc = Ok pt" for n
    using assms(3) by (simp_all add: current_def max_version_def versions_def secret_at_def ctx)
  have latest: "load_latest_secret E (tk_secret_ref t) (?w 4) = (Ok rc, ?w 5)"
    using load_latest_run [OF assms(1) cur(1,2), of 4] by simp
  have fresh: "ensure_ticket_secret_is_current E t (?w 4) = (Ok (), ?w 5)"
    unfolding ensure_ticket_secret_is_current_def using assms(8,9) latest cur(3,4)
    by (simp add: bnd_Ok_iff)
  have rows: "text_table E enc_ticket (ticket_domain E) tk_ticket_id (db_tickets w)"
    using assms(2) by (simp add: good_def ticket_rows_ok_def)
  have t: "tk_ticket_id t = tid" "map_of (db_tickets w) tid = Some (e_json_print E (enc_ticket t))"
    using assms(7) unfolding ticket_table.load_ok(2) [OF rows] by blast+
  let ?tbl = "tbl_put (tk_ticket_id t) (e_json_print E (enc_ticket t')) (db_tickets w)"
  let ?w6 = "w\<lparr>tick := tick w + 6, db_tickets := ?tbl\<rparr>" and ?w7 = "w\<lparr>tick := tick w + 7, db_tickets := ?tbl\<rparr>"
  have saved: "on_err VStore (save_ticket_if_current E t t') (?w 5) = (Ok (), ?w6)"
    using sound(8) t by (simp add: save_ticket_if_current_def)
  have "(rq_secret_ref r, v) \<in> fst ` set (db_secrets w)"
    using assms(3) unfolding current_def max_version_Some by (simp add: set_versions)
  then have "fits v"
    using assms(2) by (auto simp: good_def secrets_ok_def)
  then have version: "on_err VStore (if tk_secret_version t = 0 then load_latest_secret E (tk_secret_ref t)
      else load_secret_version E (tk_secret_ref t) (tk_secret_version t)) ?w6 = (Ok rc, ?w7)"
    using assms(3,8,9) sound(8) ctx
    by (auto simp: load_secret_version_def current_def secret_at_def bind_eq_Some_conv)
  have t': "tk_ticket_id t' = tk_ticket_id t"
    using assms(10) by (auto simp: consume_Ok_iff spent_def Let_def)
  obtain m where m: "tid = e_uuid E m" "m < tick w"
    using assms(2) map_of_SomeD [OF t(2)] by (fastforce simp: good_def ids_past_def)
  have "good E p h keys ?w7"
    using good_ticket [OF assms(1) good_tick [OF assms(2), of "tick w + 7"], of t' m] m t(1) t' by simp
  then obtain ev rows' where audit: "append_audit E h keys ''secret.materialized'' ''info'' ''allow''
       (meta [(''secret_ref'', JStr (tk_secret_ref t)), (''ticket_id'', JStr (tk_ticket_id t)),
           (''consumer'', JStr (rq_consumer r)), (''purpose'', JStr (rq_purpose r)),
           (''delivery_mode'', JStr (delivery_mode_string (rq_delivery_mode r)))]) ?w7
        = (Ok ev, ?w7\<lparr>tick := tick ?w7 + 4, db_audit := rows'\<rparr>)"
      "good E p h keys (?w7\<lparr>tick := tick ?w7 + 4, db_audit := rows'\<rparr>)"
    using good_audit [OF assms(1)] by (metis clean_simps(1,2))
  have skip: "seq (ret ()) m = m" for m :: "('z world_scheme, bytes, vault_error) act"
    by (simp add: seq_def bnd_def ret_def)
  have plain: "\<not> rq_raw_export_requested r \<longleftrightarrow> True"
    using assms(11) by simp
  have "consume_ticket_for_secret E tid r p w = (Ok pt, ?w7\<lparr>tick := tick ?w7 + 4, db_audit := rows'\<rparr>)"
    unfolding consume_ticket_for_secret_def if_not_P [OF assms(11)] skip
      bnd_step [where m = "unlock E (Some p)", OF unl] case_prod_conv
      bnd_step [where m = "vault_load_ticket E tid", OF load] good_keys(2) [OF assms(1)] lift_r_run
      bnd_step [where m = "now E", OF clock] ticket_key_def [symmetric] assms(10) map_err_simps
      seq_step [where m = "check_ticket_policy E t", OF chk]
      seq_step [where m = "ensure_ticket_secret_is_current E t", OF fresh]
      seq_step [where m = "on_err VStore (save_ticket_if_current E t t')", OF saved]
      bnd_step [where m = "on_err VStore (if tk_secret_version t = 0 then load_latest_secret E (tk_secret_ref t)
        else load_secret_version E (tk_secret_ref t) (tk_secret_version t))", OF version]
      cur(3,5) if_neq_self
    by (simp only: seq_Ok_iff audit(1) ret_Ok_iff) blast
  with audit(2) show ?thesis
    by blast
qed

lemma before_unlock:
  assumes "(if rq_raw_export_requested r then enforce_plaintext_export_allowed E (rq_mfa_verified r)
      else ret ()) w = (Ok (), w0)"
  shows "same_tables w w0"
  by (rule reads_same_tables [where m = "if rq_raw_export_requested r
        then enforce_plaintext_export_allowed E (rq_mfa_verified r) else ret ()", OF assms])
    (auto intro!: frame_intro same_tables_tick_free)

lemma before_load:
  assumes "(if rq_raw_export_requested r then enforce_plaintext_export_allowed E (rq_mfa_verified r)
      else ret ()) w = (Ok (), w0)"
    and "unlock E (Some p) w0 = (Ok (h, keys), w1)"
  shows "same_tables w w1"
  by (rule reads_same_tables [where m = "unlock E (Some p)", OF assms(2) _ before_unlock [OF assms(1)]])
    (intro frame_intro same_tables_tick_free)

text \<open>The row of the ticket after a use: nothing after the conditional save touches it.\<close>

lemma consume_saves:
  fixes w4 :: "'z world_scheme"
  assumes "json_text_ok E" and "save_ticket_if_current E t t' w4 = (Ok (), w5)" and "tk_ticket_id t' = tk_ticket_id t"
    and "(if tk_secret_version t = 0 then load_latest_secret E (tk_secret_ref t)
       else load_secret_version E (tk_secret_ref t) (tk_secret_version t)) w5 = (Ok rc, w6)"
    and "append_audit E h keys ty sev dec fs w6 = (Ok ev, w')"
  shows "db_tickets w' = db_tickets w5" and "db_secrets w5 = db_secrets w4"
    and "load_text E dec_ticket (db_tickets w') (tk_ticket_id t) = Ok (Some t')"
proof -
  have "keeps (\<lambda>v. db_tickets v = db_tickets w5) (if tk_secret_version t = 0 then load_latest_secret E (tk_secret_ref t)
     else load_secret_version E (tk_secret_ref t) (tk_secret_version t))"
    by (intro frame_intro) (simp_all add: tick_free_def)
  from keepsD [where I = "\<lambda>v. db_tickets v = db_tickets w5", OF this _ assms(4)] have w6: "db_tickets w6 = db_tickets w5"
    by simp
  show w': "db_tickets w' = db_tickets w5"
    by (rule keepsD [where I = "\<lambda>v. db_tickets v = db_tickets w5", OF keeps_append_audit_other _ assms(5)])
      (simp_all add: indep_defs w6)
  show "db_secrets w5 = db_secrets w4" and "load_text E dec_ticket (db_tickets w') (tk_ticket_id t) = Ok (Some t')"
    using assms(1-3) ticket_table.load_put [of E t' "db_tickets w4" "tk_ticket_id t"] w'
    by (auto simp: save_ticket_if_current_def ticket_domain_def split: if_splits)
qed

text \<open>The version a use releases: the latest one, and the ticket's own if it names one.\<close>

lemma consume_version:
  assumes "json_text_ok E" and "secrets_ok E (db_secrets w)" and "same_tables w w3"
    and "ensure_ticket_secret_is_current E t w3 = (Ok (), w4)" and "db_secrets w5 = db_secrets w"
    and "(if tk_secret_version t = 0 then load_latest_secret E (tk_secret_ref t)
       else load_secret_version E (tk_secret_ref t) (tk_secret_version t)) w5 = (Ok rc, w6)"
  shows "\<exists>v. secret_at E w (tk_secret_ref t) v = Some rc \<and> max_version w (tk_secret_ref t) = Some v \<and>
    (tk_secret_version t \<noteq> 0 \<longrightarrow> v = tk_secret_version t)"
proof -
  have w5: "secret_at E w5 = secret_at E w" "max_version w5 = max_version w"
    using assms(5) by (simp_all add: secret_at_def max_version_def versions_def fun_eq_iff)
  show ?thesis
  proof (cases "tk_secret_version t = 0")
    case True
    then show ?thesis
      using assms(6) w5 by (auto simp: load_latest_secret_Ok_iff)
  next
    case False
    then obtain v rc0 where v: "max_version w (tk_secret_ref t) = Some v" "secret_at E w (tk_secret_ref t) v = Some rc0"
        "sr_secret_version rc0 = tk_secret_version t"
      using ensure_current_Ok [OF assms(4)] secret_at_tables [OF assms(3)] by auto
    then have "v = tk_secret_version t"
      using secret_at_ok(1) [OF assms(2,1)] by metis
    then show ?thesis
      using v(1) False load_version_at [of E "tk_secret_ref t" "tk_secret_version t" w5 rc w6] assms(6) w5 by auto
  qed
qed

section \<open>Properties\<close>

text \<open>
  C1: a ticket releases a secret only if everything holds at once: the stored ticket is genuine under the
  key the passphrase opens, unspent, unexpired on the clock and fits the request; the policy it was issued under is stored unchanged; the secret's
  version is still the latest and active; and for a raw export the vault allows plaintext export and,
  where a TOTP token is enrolled, the caller has verified one. What comes out is that version's
  plaintext, and before it comes out the stored ticket has one use less.
\<close>

theorem consume_releases_only_if:
  assumes "json_text_ok E" and "secrets_ok E (db_secrets w)" and "ticket_rows_ok E (db_tickets w)"
    and "consume_ticket_for_secret E tid r p w = (Ok pt, w')"
  shows "\<exists>t t' k n m w1 h ps pol v rc keys.
    load_text E dec_ticket (db_tickets w) tid = Ok (Some t) \<and>
    unlock E (Some p) (w\<lparr>tick := n\<rparr>) = (Ok (h, keys), w1) \<and>
    (ticket_mac_key E keys :: (bytes, vault_error) result) = Ok k \<and>
    consume E k t r (e_clock E m) = Ok t' \<and>
    load_text E dec_ticket (db_tickets w') tid = Ok (Some t') \<and>
    policies_in E w ps \<and> pol \<in> set ps \<and> ap_policy_id pol = tk_policy_id t \<and>
      hash_of_policy E pol = tk_policy_hash t \<and>
    secret_at E w (tk_secret_ref t) v = Some rc \<and> max_version w (tk_secret_ref t) = Some v \<and>
      (tk_secret_version t \<noteq> 0 \<longrightarrow> v = tk_secret_version t) \<and> sr_status rc = Active \<and>
      decrypt_secret E keys rc = Ok pt \<and>
    (rq_raw_export_requested r \<longrightarrow>
      map_of (db_metadata w) plaintext_export_config_key = Some ''enabled'' \<and>
      (rq_mfa_verified r \<or> \<not> (\<exists>v rc. max_version w totp_secret_ref = Some v \<and>
        secret_at E w totp_secret_ref v = Some rc \<and> sr_status rc = Active)))"
  using assms(4)
proof (rule consume_ticket_Ok)
  fix w0 h keys w1 t w2 k t' pol w3 w4 w5 rc w6 ev sev
  assume gate: "(if rq_raw_export_requested r then enforce_plaintext_export_allowed E (rq_mfa_verified r)
      else ret ()) w = (Ok (), w0)"
    and unlocked: "unlock E (Some p) w0 = (Ok (h, keys), w1)"
    and loaded: "vault_load_ticket E tid w1 = (Ok t, w2)"
    and key: "(ticket_mac_key E keys :: (bytes, vault_error) result) = Ok k"
    and used: "consume E k t r (e_clock E (tick w2)) = Ok t'"
    and pol: "check_ticket_policy E t (w2\<lparr>tick := Suc (tick w2)\<rparr>) = (Ok pol, w3)"
    and fresh: "ensure_ticket_secret_is_current E t w3 = (Ok (), w4)"
    and saved: "save_ticket_if_current E t t' w4 = (Ok (), w5)"
    and rc: "(if tk_secret_version t = 0 then load_latest_secret E (tk_secret_ref t)
       else load_secret_version E (tk_secret_ref t) (tk_secret_version t)) w5 = (Ok rc, w6)"
    and active: "sr_status rc = Active" and dec: "decrypt_secret E keys rc = Ok pt"
    and audit: "append_audit E h keys ''secret.materialized'' sev ''allow''
       (meta [(''secret_ref'', JStr (tk_secret_ref t)), (''ticket_id'', JStr (tk_ticket_id t)),
           (''consumer'', JStr (rq_consumer r)), (''purpose'', JStr (rq_purpose r)),
           (''delivery_mode'', JStr (delivery_mode_string (rq_delivery_mode r)))]) w6 = (Ok ev, w')"
  note tf = same_tables_tick_free
  have 1: "same_tables w w1"
    by (rule before_load [OF gate unlocked])
  obtain n where n: "unlock E (Some p) (w\<lparr>tick := n\<rparr>) = (Ok (h, keys), w1)"
    using unlocked before_unlock [OF gate] by (auto simp: same_tables_def)
  have 2: "same_tables w w2"
    by (rule reads_same_tables [where m = "vault_load_ticket E tid", OF loaded _ 1]) (intro frame_intro tf)
  have 3: "same_tables w w3"
    by (rule reads_same_tables [where m = "check_ticket_policy E t", OF pol])
      (intro frame_intro tf, rule tick_freeD [OF tf 2], simp)
  have 4: "same_tables w w4"
    by (rule reads_same_tables [where m = "ensure_ticket_secret_is_current E t", OF fresh _ 3]) (intro frame_intro tf)
  have rows: "text_table E enc_ticket (ticket_domain E) tk_ticket_id (db_tickets w)"
    using assms(3) by (simp add: ticket_rows_ok_def)
  have t: "load_text E dec_ticket (db_tickets w) tid = Ok (Some t)"
    using loaded same_tablesD(1) [OF 1]
    by (auto simp: vault_load_ticket_def bnd_Ok_iff load_ticket_def)
  then have tid: "tk_ticket_id t = tid"
    unfolding ticket_table.load_ok(2) [OF rows] by blast
  have "tk_ticket_id t' = tk_ticket_id t"
    using used by (auto simp: consume_Ok_iff spent_def Let_def)
  note row = consume_saves [OF assms(1) saved this rc audit]
  then have t': "load_text E dec_ticket (db_tickets w') tid = Ok (Some t')" and w5: "db_secrets w5 = db_secrets w"
    using tid same_tablesD(2) [OF 4] by simp_all
  obtain ps where ps: "policies_in E w ps" "pol \<in> set ps" "ap_policy_id pol = tk_policy_id t"
      "hash_of_policy E pol = tk_policy_hash t"
    using check_ticket_policy_Ok [OF pol] same_tablesD(3) [OF 2] by (auto simp: policies_in_def)
  note consume_version [OF assms(1,2) 3 fresh w5 rc]
  moreover have "map_of (db_metadata w) plaintext_export_config_key = Some ''enabled'' \<and>
      (rq_mfa_verified r \<or> \<not> (\<exists>v rc. max_version w totp_secret_ref = Some v \<and>
        secret_at E w totp_secret_ref v = Some rc \<and> sr_status rc = Active))" if "rq_raw_export_requested r"
    using gate that enforce_Ok [of E "rq_mfa_verified r" w "()" w0] by auto
  ultimately show ?thesis
    using t n key used t' ps active dec by blast
qed

text \<open>
  C15: no secret leaves the vault unrecorded: whenever reading a secret or using a ticket returns a
  plaintext, the last row of the audit log is an \<open>allow\<close> event \<open>secret.materialized\<close> that names the
  secret, and for a ticket the ticket and its consumer.
\<close>

theorem release_is_audited:
  fixes w :: "'z world_scheme"
  shows "(get_secret E rf p w = (Ok pt, w') \<longrightarrow>
     (\<exists>ev rows. db_audit w' = rows @ [(ev_event_id ev, e_json_print E (enc_event ev))] \<and>
       ev_event_type ev = ''secret.materialized'' \<and> ev_decision ev = ''allow'' \<and>
       map_of (ev_metadata ev) ''secret_ref'' = Some (JStr rf))) \<and>
   (consume_ticket_for_secret E tid r p w = (Ok pt, w') \<longrightarrow>
     (\<exists>ev rows t. db_audit w' = rows @ [(ev_event_id ev, e_json_print E (enc_event ev))] \<and>
       load_text E dec_ticket (db_tickets w) tid = Ok (Some t) \<and>
       ev_event_type ev = ''secret.materialized'' \<and> ev_decision ev = ''allow'' \<and>
       map_of (ev_metadata ev) ''secret_ref'' = Some (JStr (tk_secret_ref t)) \<and>
       map_of (ev_metadata ev) ''ticket_id'' = Some (JStr (tk_ticket_id t)) \<and>
       map_of (ev_metadata ev) ''consumer'' = Some (JStr (rq_consumer r))))"
proof (intro conjI impI)
  assume "get_secret E rf p w = (Ok pt, w')"
  then obtain h keys w1 ev and rc :: secret_record where "append_audit E h keys ''secret.materialized'' ''critical'' ''allow''
       (meta [(''secret_ref'', JStr rf), (''secret_version'', enc_u64 (sr_secret_version rc))]) w1 = (Ok ev, w')"
    unfolding get_secret_def bnd_Ok_iff split_paired_Ex case_prod_conv status_branch seq_Ok_iff ret_Ok_iff
    by blast
  note ev = append_audit_Ok [OF this]
  show "\<exists>ev rows. db_audit w' = rows @ [(ev_event_id ev, e_json_print E (enc_event ev))] \<and>
       ev_event_type ev = ''secret.materialized'' \<and> ev_decision ev = ''allow'' \<and>
       map_of (ev_metadata ev) ''secret_ref'' = Some (JStr rf)"
    by (intro exI [of _ ev] exI [of _ "db_audit w1"]) (simp add: ev meta_def map_of_build_distinct)
next
  assume "consume_ticket_for_secret E tid r p w = (Ok pt, w')"
  then show "\<exists>ev rows t. db_audit w' = rows @ [(ev_event_id ev, e_json_print E (enc_event ev))] \<and>
       load_text E dec_ticket (db_tickets w) tid = Ok (Some t) \<and>
       ev_event_type ev = ''secret.materialized'' \<and> ev_decision ev = ''allow'' \<and>
       map_of (ev_metadata ev) ''secret_ref'' = Some (JStr (tk_secret_ref t)) \<and>
       map_of (ev_metadata ev) ''ticket_id'' = Some (JStr (tk_ticket_id t)) \<and>
       map_of (ev_metadata ev) ''consumer'' = Some (JStr (rq_consumer r))"
  proof (rule consume_ticket_Ok)
    fix w0 h keys w1 t w2 w6 ev sev
    assume before: "(if rq_raw_export_requested r then enforce_plaintext_export_allowed E (rq_mfa_verified r)
        else ret ()) w = (Ok (), w0)" "unlock E (Some p) w0 = (Ok (h, keys), w1)"
      and loaded: "vault_load_ticket E tid w1 = (Ok t, w2)"
      and "append_audit E h keys ''secret.materialized'' sev ''allow''
       (meta [(''secret_ref'', JStr (tk_secret_ref t)), (''ticket_id'', JStr (tk_ticket_id t)),
           (''consumer'', JStr (rq_consumer r)), (''purpose'', JStr (rq_purpose r)),
           (''delivery_mode'', JStr (delivery_mode_string (rq_delivery_mode r)))]) w6 = (Ok ev, w')"
    note ev = append_audit_Ok [OF this(4)]
    have t: "load_text E dec_ticket (db_tickets w) tid = Ok (Some t)"
      using loaded same_tablesD(1) [OF before_load [OF before]]
      by (auto simp: vault_load_ticket_def bnd_Ok_iff load_ticket_def)
    then show ?thesis
      by (intro exI [of _ ev] exI [of _ "db_audit w6"] exI [of _ t] conjI)
        (simp_all add: ev meta_def map_of_build_distinct)
  qed
qed

text \<open>
  C16: the gate for plaintext export. On a machine without faults a raw export is refused with the
  reason, and with nothing written, as long as the vault does not allow plaintext export, or where a
  TOTP token is enrolled and the caller has not verified one.
\<close>

theorem raw_export_refused:
  assumes "sound_env E" and "rq_raw_export_requested r"
    and "map_of (db_metadata w) plaintext_export_config_key \<noteq> Some ''enabled'' \<or>
      max_version w totp_secret_ref = Some v \<and> secret_at E w totp_secret_ref v = Some rc \<and>
        sr_status rc = Active \<and> \<not> rq_mfa_verified r"
  shows "\<exists>n. consume_ticket_for_secret E tid r p w =
    (Err (if map_of (db_metadata w) plaintext_export_config_key \<noteq> Some ''enabled''
       then PlaintextExportDisabled else PlaintextExportMfaRequired), w\<lparr>tick := n\<rparr>)"
proof -
  note sound = sound_envD [OF assms(1)]
  let ?w1 = "w\<lparr>tick := Suc (tick w)\<rparr>" and ?w2 = "w\<lparr>tick := Suc (Suc (tick w))\<rparr>"
  have en: "plaintext_export_enabled E w = (Ok (map_of (db_metadata w) plaintext_export_config_key = Some ''enabled''), ?w1)"
    using sound(8) by (simp add: plaintext_export_enabled_def bnd_Ok_iff get_metadata_def)
  have "\<exists>n. enforce_plaintext_export_allowed E (rq_mfa_verified r) w =
    (Err (if map_of (db_metadata w) plaintext_export_config_key \<noteq> Some ''enabled''
       then PlaintextExportDisabled else PlaintextExportMfaRequired), w\<lparr>tick := n\<rparr>)"
  proof (cases "map_of (db_metadata w) plaintext_export_config_key = Some ''enabled''")
    case False
    then show ?thesis
      unfolding enforce_plaintext_export_allowed_def bnd_step [where m = "plaintext_export_enabled E", OF en]
      by (intro exI [of _ "Suc (tick w)"]) (simp add: fail_def)
  next
    case True
    then have mfa: "max_version ?w1 totp_secret_ref = Some v" "secret_at E ?w1 totp_secret_ref v = Some rc"
        "sr_status rc = Active" "\<not> rq_mfa_verified r"
      using assms(3) by (simp_all add: max_version_def versions_def secret_at_def)
    have "totp_mfa_enrolled E ?w1 = (Ok True, ?w2)"
      using load_latest_run [OF assms(1) mfa(1,2)] mfa(3) by (simp add: totp_mfa_enrolled_def handle_def ret_def)
    then show ?thesis
      using True mfa(4) unfolding enforce_plaintext_export_allowed_def
        bnd_step [where m = "plaintext_export_enabled E", OF en]
      by (intro exI [of _ "Suc (Suc (tick w))"]) (simp add: bnd_def fail_def)
  qed
  then show ?thesis
    using assms(2) by (auto simp: consume_ticket_for_secret_def seq_def bnd_def)
qed

text \<open>
  C14: a stored secret is read back: after a secret is put, reading it under the passphrase returns
  exactly the bytes put, and every other version of every secret is as it was.
\<close>

theorem put_then_get:
  assumes "sound_env E" and "good E p h keys w" and "starts_with rf ''secret://''"
    and "fits (opt_or (max_version w rf) 0 + 1)" and "length pt < 2 ^ 36"
  shows "\<exists>v w1 w2. put_secret E rf pt p ty w = (Ok v, w1) \<and> get_secret E rf p w1 = (Ok pt, w2) \<and>
    good E p h keys w2 \<and> max_version w2 rf = Some v \<and>
    (\<forall>rf' u. (rf', u) \<noteq> (rf, v) \<longrightarrow> secret_at E w2 rf' u = secret_at E w rf' u)"
proof -
  obtain w1 rc where put: "put_secret E rf pt p ty w = (Ok (opt_or (max_version w rf) 0 + 1), w1)"
      "good E p h keys w1" "current E keys w1 rf (opt_or (max_version w rf) 0 + 1) rc pt"
      "\<forall>rf' u. (rf', u) \<noteq> (rf, opt_or (max_version w rf) 0 + 1) \<longrightarrow> secret_at E w1 rf' u = secret_at E w rf' u"
    using put_secret_run [OF assms, of ty] by blast
  obtain rows where get: "get_secret E rf p w1 = (Ok pt, w1\<lparr>tick := tick w1 + 6, db_audit := rows\<rparr>)"
      "good E p h keys (w1\<lparr>tick := tick w1 + 6, db_audit := rows\<rparr>)"
    using get_secret_run [OF assms(1) put(2,3)] by blast
  let ?w2 = "w1\<lparr>tick := tick w1 + 6, db_audit := rows\<rparr>"
  have "max_version ?w2 rf = Some (opt_or (max_version w rf) 0 + 1)"
    using put(3) by (simp add: current_def max_version_def versions_def)
  moreover have "secret_at E ?w2 rf' u = secret_at E w1 rf' u" for rf' u
    by (simp add: secret_at_def)
  ultimately show ?thesis
    using put(1,4) get by metis
qed

text \<open>A ticket issued for a permitted request, and used at once.\<close>

lemma issue_then_consume:
  assumes "sound_env E" and "good E p h keys w" and cur: "current E keys w (rq_secret_ref r) v rc pt" and v: "v \<noteq> 0"
    and ps: "policies_in E w ps" and found: "find (\<lambda>pol. permits pol r) ps = Some pol"
    and x: "e_time_add E (rq_now r) (sint (ap_max_ticket_ttl_seconds pol)) = Some x" "rfc3339_time x"
    and uses: "ap_max_uses pol \<noteq> 0" and raw: "\<not> rq_raw_export_requested r"
    and time: "e_clock E (tick w + 11) \<le> floor_ms x"
  shows "\<exists>t w2 w3. issue_ticket E r p w = (Ok t, w2) \<and>
    consume_ticket_for_secret E (tk_ticket_id t) r p w2 = (Ok pt, w3) \<and> good E p h keys w2"
proof -
  note sound = sound_envD [OF assms(1)]
  obtain t rows w2 where iss: "issue_ticket E r p w = (Ok t, w2)" "good E p h keys w2"
      "w2 = w\<lparr>tick := tick w + 9, db_audit := rows,
         db_tickets := tbl_put (tk_ticket_id t) (e_json_print E (enc_ticket t)) (db_tickets w)\<rparr>"
      "issued_for E (ticket_key E keys) r pol (rq_broker_session_id r) t" "tk_secret_version t = v"
      "tk_policy_hash t = hash_of_policy E pol"
    using issue_ticket_run [OF assms(1,2) cur ps found x(1)] by (elim exE conjE) (rule that)
  have "find (\<lambda>q. ap_policy_id q = tk_policy_id t) ps = Some pol"
  proof -
    have rows: "text_table E (enc_policy E) (stored_policy_domain E) ap_policy_id (db_policies w)"
      using assms(2) by (simp add: good_def policy_rows_ok_def)
    obtain xs where "list_text E (dec_policy E) (texts_by_key (db_policies w)) = Ok xs"
        "map ap_policy_id xs = sort (map fst (db_policies w))"
      using policy_table.list_ok [OF rows] by blast
    then have "map ap_policy_id ps = sort (map fst (db_policies w))"
      using ps by (simp add: policies_in_def)
    then have "distinct (map ap_policy_id ps)"
      using rows by (simp add: text_table_def)
    moreover have "pol \<in> set ps"
      using found by (auto simp: find_Some_iff)
    ultimately have "find (\<lambda>q. ap_policy_id q = ap_policy_id pol) ps = Some pol"
      by (rule find_key)
    then show ?thesis
      using iss(4) by (simp add: issued_for_def)
  qed
  moreover have "current E keys w2 (rq_secret_ref r) v rc pt" "policies_in E w2 ps"
    using cur ps current_frame [of w2 w] by (simp_all add: iss(3) policies_in_def)
  moreover have "load_text E dec_ticket (db_tickets w2) (tk_ticket_id t) = Ok (Some t)"
    using ticket_table.load_put [of E t "db_tickets w"] sound(1) by (simp add: iss(3) ticket_domain_def)
  moreover have "consume E (ticket_key E keys) t r (e_clock E (tick w2 + 2)) = Ok (spent E (ticket_key E keys) t)"
  proof -
    have "e_time_parse E (tk_expires_at t) = Some (floor_ms x)"
      using iss(4) x sound(6) by (auto simp: issued_for_def time_ok_def)
    moreover have "e_clock E (tick w2 + 2) \<le> floor_ms x"
      using time by (simp add: iss(3) add.commute)
    ultimately show ?thesis
      using iss(4) uses unfolding consume_Ok_iff live_at_iff in_time_def issued_for_def
      by (auto simp: context_matches_def unat_gt_0)
  qed
  ultimately have "\<exists>w3. consume_ticket_for_secret E (tk_ticket_id t) r p w2 = (Ok pt, w3) \<and> good E p h keys w3"
    using consume_ticket_run [OF assms(1) iss(2) _ _ _ iss(6) _ iss(5) v _ raw] by blast
  then show ?thesis
    using iss(1,2) by blast
qed

text \<open>The steps of a served request, with the state between them.\<close>

lemma served:
  assumes "sound_env E" and "good E p h keys w" and "starts_with (rq_secret_ref r) ''secret://''"
    and "fits (opt_or (max_version w (rq_secret_ref r)) 0 + 1)" and "length pt < 2 ^ 36"
    and "policies_in E w ps" and "find (\<lambda>pol. permits pol r) ps = Some pol"
    and "e_time_add E (rq_now r) (sint (ap_max_ticket_ttl_seconds pol)) = Some x" and "rfc3339_time x"
    and "ap_max_uses pol \<noteq> 0" and "\<not> rq_raw_export_requested r"
    and "e_clock E (tick w + 23) \<le> floor_ms x"
  shows "\<exists>v w1 t w2 w3. put_secret E (rq_secret_ref r) pt p ty w = (Ok v, w1) \<and>
    issue_ticket E r p w1 = (Ok t, w2) \<and>
    consume_ticket_for_secret E (tk_ticket_id t) r p w2 = (Ok pt, w3) \<and> good E p h keys w2"
proof -
  let ?rf = "rq_secret_ref r"
  let ?v = "opt_or (max_version w ?rf) 0 + 1"
  obtain w1 rc where put: "put_secret E ?rf pt p ty w = (Ok ?v, w1)" "good E p h keys w1" "tick w1 = tick w + 12"
      "current E keys w1 ?rf ?v rc pt" "db_policies w1 = db_policies w"
    using put_secret_run [OF assms(1-5), of ty] by (elim exE conjE) (rule that)
  have ps: "policies_in E w1 ps"
    using assms(6) put(5) by (simp add: policies_in_def)
  have "secrets_ok E (db_secrets w)"
    using assms(2) by (simp add: good_def)
  then have "?v \<noteq> 0"
    using next_version_past(3) by (cases "max_version w ?rf") (simp add: opt_or_def, blast)
  moreover have "e_clock E (tick w1 + 11) \<le> floor_ms x"
    using assms(12) by (simp add: put(3) add.commute)
  ultimately show ?thesis
    using issue_then_consume [OF assms(1) put(2,4) _ ps assms(7-11)] put(1) by blast
qed


section \<open>An example vault\<close>

lemma sample_sound: "sound_env sample_env"
  using sample_ok by (simp add: sound_env_def)

lemma good_opens:
  assumes "sound_env E" and "good E p h keys w"
  shows "opens_to E (Some p) k w \<longleftrightarrow> (audit_integrity_key E keys :: (bytes, vault_error) result) = Ok k"
proof
  assume "opens_to E (Some p) k w"
  moreover have "unlock E (Some p) (w\<lparr>tick := tick w\<rparr>) = (Ok (h, keys), w\<lparr>tick := Suc (tick w)\<rparr>)"
    using good_unlock [OF assms] by simp
  ultimately show "(audit_integrity_key E keys :: (bytes, vault_error) result) = Ok k"
    unfolding opens_to_def by blast
next
  assume k: "(audit_integrity_key E keys :: (bytes, vault_error) result) = Ok k"
  obtain b where b: "vh_provider_binding h = enc_passphrase_binding b" "pb_provider_id b = passphrase_provider_id"
      "passphrase_unwrap E (vh_vault_id h) b p = Ok (kh_root_key keys)"
    using assms(2) by (auto simp: good_def)
  have eq: "keys = \<lparr>kh_vault_id = vh_vault_id h, kh_root_key = kh_root_key keys\<rparr>"
      and len: "length (kh_root_key keys) = key_size"
      and row: "map_of (db_metadata w) header_key = Some (e_json_print E (enc_header h))"
    using assms(2) by (simp_all add: good_def)
  have "audit_integrity_key E \<lparr>kh_vault_id = vh_vault_id h, kh_root_key = kh_root_key keys\<rparr>
      = (Ok k :: (bytes, vault_error) result)"
    using k eq by metis
  then show "opens_to E (Some p) k w"
    using opens_passphrase [OF sound_envD(1,5) [OF assms(1)] row b len] by blast
qed

definition blank :: "'z world_scheme \<Rightarrow> bool" where
  "blank w \<longleftrightarrow> tick w = 0 \<and> db_metadata w = [] \<and> db_secrets w = [] \<and> db_policies w = [] \<and>
     db_tickets w = [] \<and> db_audit w = [] \<and> db_fingerprints w = [] \<and> db_jobs w = []"

lemma blank_world [simp]: "blank blank_world"
  by (simp add: blank_def blank_world_def)

lemma blank_init:
  fixes w0 :: "'z world_scheme"
  assumes "blank w0"
  shows "\<exists>h keys m a k. init_passphrase sample_env ''pw'' ''ns'' w0
       = (Ok h, w0\<lparr>tick := 10, db_metadata := m, db_audit := a\<rparr>) \<and>
     good sample_env ''pw'' h keys (w0\<lparr>tick := 10, db_metadata := m, db_audit := a\<rparr>) \<and>
     map_of m plaintext_export_config_key = None \<and>
     opens_to sample_env (Some ''pw'') k (w0\<lparr>tick := 10, db_metadata := m, db_audit := a\<rparr>) \<and>
     log_verifies sample_env k (w0\<lparr>tick := 10, db_metadata := m, db_audit := a\<rparr>)"
proof -
  have blank: "map_of (db_metadata w0) header_key = None" "db_audit w0 = []" "tick w0 = 0"
    using assms by (simp_all add: blank_def)
  have pw: "''pw'' \<noteq> ([] :: string)"
    by simp
  obtain h b rk ev where run: "init_passphrase sample_env ''pw'' ''ns'' w0 = (Ok h, w0\<lparr>tick := tick w0 + 10,
      db_metadata := tbl_put header_key (e_json_print sample_env (enc_header h)) (db_metadata w0),
      db_audit := [(ev_event_id ev, e_json_print sample_env (enc_event ev))]\<rparr>)"
    "vh_provider_binding h = enc_passphrase_binding b" "pb_provider_id b = passphrase_provider_id"
    "passphrase_unwrap sample_env (vh_vault_id h) b ''pw'' = Ok rk" "length rk = key_size"
    "event_ok ev" "ev_event_id ev = e_uuid sample_env (tick w0 + 7)"
    using init_passphrase_run [OF sample_ok(4,1,6,3) sample_scrypt sample_ok(7) pw blank(1,2) sample_ok(2), of "''ns''"]
    by (elim exE conjE) (rule that)
  let ?m = "tbl_put header_key (e_json_print sample_env (enc_header h)) (db_metadata w0)"
  let ?a = "[(ev_event_id ev, e_json_print sample_env (enc_event ev))]"
  let ?w = "w0\<lparr>tick := 10, db_metadata := ?m, db_audit := ?a\<rparr>"
  have run0: "init_passphrase sample_env ''pw'' ''ns'' w0 = (Ok h, ?w)"
    using run(1) by (simp only: blank(3) add_0)
  have log: "stored_log sample_env [ev] (db_audit ?w)"
    using run(6) by (simp add: stored_log_def)
  have past: "ids_past sample_env (tick ?w) (db_audit ?w) id"
    by (simp add: ids_past_def del: sample_simps)
      (rule exI [of _ 7], use run(7) blank(3) in simp)
  have "good sample_env ''pw'' h \<lparr>kh_vault_id = vh_vault_id h, kh_root_key = rk\<rparr> ?w"
    using past run(2-5,7) exI [of "\<lambda>evs. stored_log sample_env evs (db_audit ?w)", OF log] assms
    by (auto simp: good_def blank_def ids_past_def [of _ _ "[]"] secrets_ok_def policy_rows_ok_def
        ticket_rows_ok_def text_table_def simp del: sample_simps)
  moreover have "map_of ?m plaintext_export_config_key = None"
    using assms by (simp add: blank_def plaintext_export_config_key_def header_key_def)
  moreover obtain k where "opens_to sample_env (Some ''pw'') k ?w" "log_verifies sample_env k ?w"
    using init_passphrase_log [OF sample_ok(4,1,2,6,3) run0 blank(2)] by blast
  ultimately show ?thesis
    using run0 by blast
qed


text \<open>The example vault with the example policy, and the example secret stored in it.\<close>

lemma sample_policy_domain: "stored_policy_domain sample_env sample_policy"
  using sample_ok(4,5)
  by (simp add: stored_policy_domain_def policy_domain_def sample_policy_def rfc3339_time_def)

lemma sample_vault_on:
  fixes w0 :: "'z world_scheme"
  assumes "blank w0" and "stored_policy_domain sample_env pol"
  shows "\<exists>h keys m a ps k. let w = w0\<lparr>tick := 10, db_metadata := m, db_policies := ps, db_audit := a\<rparr> in
     good sample_env ''pw'' h keys w \<and> policies_in sample_env w [pol] \<and>
     map_of m plaintext_export_config_key = None \<and>
     opens_to sample_env (Some ''pw'') k w \<and> log_verifies sample_env k w"
proof -
  obtain h keys m a k where w: "good sample_env ''pw'' h keys (w0\<lparr>tick := 10, db_metadata := m, db_audit := a\<rparr>)"
      "map_of m plaintext_export_config_key = None"
      "opens_to sample_env (Some ''pw'') k (w0\<lparr>tick := 10, db_metadata := m, db_audit := a\<rparr>)"
      "log_verifies sample_env k (w0\<lparr>tick := 10, db_metadata := m, db_audit := a\<rparr>)"
    using blank_init [OF assms(1)] by (elim exE conjE) (rule that)
  let ?row = "(ap_policy_id pol, e_json_print sample_env (enc_policy sample_env pol))"
  let ?w = "w0\<lparr>tick := 10, db_metadata := m, db_policies := [?row], db_audit := a\<rparr>"
  have "policy_rows_ok sample_env [?row]"
    using assms(2) by (auto simp: policy_rows_ok_def text_table_def simp del: sample_simps)
  then have good: "good sample_env ''pw'' h keys ?w"
    using w(1) by (simp add: good_def del: sample_simps)
  have "policies_in sample_env ?w [pol]"
    using policy_table.reads [OF assms(2)]
    by (simp add: policies_in_def texts_by_key_def list_text_def del: sample_simps)
  moreover have "log_verifies sample_env k ?w"
    using w(4) by (simp add: log_verifies_def)
  moreover have "opens_to sample_env (Some ''pw'') k ?w"
    using w(3) good_opens [OF sample_sound w(1)] good_opens [OF sample_sound good] by blast
  ultimately show ?thesis
    using good w(2) unfolding Let_def by blast
qed

lemma sample_vault:
  "\<exists>h keys w. good sample_env ''pw'' h keys (w :: world) \<and> tick w = 10 \<and> policies_in sample_env w [sample_policy] \<and>
     max_version w (rq_secret_ref sample_request) = None \<and>
     map_of (db_metadata w) plaintext_export_config_key = None"
proof -
  obtain h keys m a ps k where w: "let w = blank_world\<lparr>tick := 10, db_metadata := m, db_policies := ps, db_audit := a\<rparr> in
     good sample_env ''pw'' h keys w \<and> policies_in sample_env w [sample_policy] \<and>
     map_of m plaintext_export_config_key = None \<and>
     opens_to sample_env (Some ''pw'') k w \<and> log_verifies sample_env k w"
    using sample_vault_on [OF blank_world sample_policy_domain] by (elim exE) (rule that)
  let ?w = "blank_world\<lparr>tick := 10, db_metadata := m, db_policies := ps, db_audit := a\<rparr>"
  have "max_version ?w (rq_secret_ref sample_request) = None"
    by (simp add: max_version_def versions_def blank_world_def)
  then show ?thesis
    using w unfolding Let_def
    by (intro exI [of _ h] exI [of _ keys] exI [of _ ?w]) simp
qed

lemma sample_request_facts:
  "rq_secret_ref sample_request = ''secret://app/db''" "\<not> rq_raw_export_requested sample_request"
  "starts_with ''secret://app/db'' ''secret://''" "length [1, 2 :: u8] < 2 ^ 36"
  by (simp_all add: sample_request_def starts_with_def)

lemma first_version_fits:
  "max_version w rf = None \<Longrightarrow> fits (opt_or (max_version w rf) 0 + 1)"
  by (simp add: opt_or_def fits_def)

lemma put_then_get_witness:
  "\<exists>v (w :: world) w1 w2. put_secret sample_env ''secret://app/db'' [1, 2] ''pw'' ApiKey w = (Ok v, w1) \<and>
     get_secret sample_env ''secret://app/db'' ''pw'' w1 = (Ok [1, 2], w2)"
proof -
  obtain h keys and w :: world where w: "good sample_env ''pw'' h keys w" "max_version w ''secret://app/db'' = None"
    using sample_vault unfolding sample_request_facts(1) by (elim exE conjE) (rule that, assumption+)
  from put_then_get [OF sample_sound w(1) sample_request_facts(3) first_version_fits [OF w(2)]
      sample_request_facts(4), of ApiKey]
  show ?thesis
    by (elim exE conjE) (intro exI conjI, assumption+)
qed

lemma sample_served_facts:
  "find (\<lambda>pol. permits pol sample_request) [sample_policy] = Some sample_policy"
  "e_time_add sample_env (rq_now sample_request) (sint (ap_max_ticket_ttl_seconds sample_policy))
      = Some 1060000000000"
  "rfc3339_time 1060000000000" "ap_max_uses sample_policy \<noteq> 0"
  "tick w = 10 \<Longrightarrow> e_clock sample_env (tick w + 23) \<le> floor_ms 1060000000000"
  using sample_permits
  by (simp_all add: sample_request_def sample_policy_def rfc3339_time_def floor_ms_def)

lemma sample_served_run:
  "\<exists>h keys v (w :: world) w1 t w2 w3. put_secret sample_env ''secret://app/db'' [1, 2] ''pw'' ApiKey w = (Ok v, w1) \<and>
     issue_ticket sample_env sample_request ''pw'' w1 = (Ok t, w2) \<and>
     consume_ticket_for_secret sample_env (tk_ticket_id t) sample_request ''pw'' w2 = (Ok [1, 2], w3) \<and>
     good sample_env ''pw'' h keys w2"
proof -
  obtain h keys and w :: world where w: "good sample_env ''pw'' h keys w" "tick w = 10"
      "policies_in sample_env w [sample_policy]" "max_version w ''secret://app/db'' = None"
    using sample_vault unfolding sample_request_facts(1) by (elim exE conjE) (rule that)
  note facts = sample_served_facts(1-4) sample_request_facts(2) sample_served_facts(5) [OF w(2)]
  from served [OF sample_sound w(1) _ _ sample_request_facts(4) w(3) facts(1-6), of ApiKey,
      unfolded sample_request_facts(1), OF sample_request_facts(3) first_version_fits [OF w(4)]]
  show ?thesis
    by (elim exE conjE) (intro exI conjI, assumption+)
qed


lemma raw_export_refused_witness:
  "\<exists>(w :: world) n. consume_ticket_for_secret sample_env ''t'' (sample_request\<lparr>rq_raw_export_requested := True\<rparr>) ''pw'' w
     = (Err PlaintextExportDisabled, w\<lparr>tick := n\<rparr>)"
proof -
  obtain w :: world where none: "map_of (db_metadata w) plaintext_export_config_key = None"
    using sample_vault by (elim exE conjE) (rule that, assumption+)
  then have off: "map_of (db_metadata w) plaintext_export_config_key \<noteq> Some ''enabled'' \<or>
      max_version w totp_secret_ref = Some 0 \<and> secret_at sample_env w totp_secret_ref 0 = Some sample_record \<and>
        sr_status sample_record = Active \<and>
        \<not> rq_mfa_verified (sample_request\<lparr>rq_raw_export_requested := True\<rparr>)"
    by simp
  have "rq_raw_export_requested (sample_request\<lparr>rq_raw_export_requested := True\<rparr>)"
    by simp
  from raw_export_refused [OF sample_sound this off, of "''t''" "''pw''"] none show ?thesis
    by (elim exE) (intro exI, simp)
qed

lemma consume_releases_only_if_witness:
  "\<exists>w (t :: secret_access_ticket) w'. consume_ticket_for_secret sample_env (tk_ticket_id t) sample_request ''pw'' (w :: world) = (Ok [1, 2], w') \<and>
     (\<exists>t'. load_text sample_env dec_ticket (db_tickets w') (tk_ticket_id t) = Ok (Some t'))"
proof -
  obtain h keys and t :: secret_access_ticket and w2 w3 :: world where run: "consume_ticket_for_secret sample_env (tk_ticket_id t) sample_request ''pw'' w2 = (Ok [1, 2], w3)"
      and w2: "good sample_env ''pw'' h keys w2"
    using sample_served_run by (elim exE conjE) (rule that, assumption+)
  have ok: "secrets_ok sample_env (db_secrets w2)" "ticket_rows_ok sample_env (db_tickets w2)"
    using w2 by (simp_all only: good_def)
  from consume_releases_only_if [OF sound_envD(1) [OF sample_sound] ok run] run show ?thesis
    by (elim exE conjE) (intro exI conjI, assumption+)
qed

lemma release_is_audited_witness:
  "\<exists>w (t :: secret_access_ticket) w' ev rows. consume_ticket_for_secret sample_env (tk_ticket_id t) sample_request ''pw'' (w :: world) = (Ok [1, 2], w') \<and>
     db_audit w' = rows @ [(ev_event_id ev, e_json_print sample_env (enc_event ev))] \<and>
     ev_event_type ev = ''secret.materialized''"
proof -
  obtain t :: secret_access_ticket and w2 w3 :: world where run: "consume_ticket_for_secret sample_env (tk_ticket_id t) sample_request ''pw'' w2 = (Ok [1, 2], w3)"
    using sample_served_run by (elim exE conjE) (rule that, assumption+)
  have "\<exists>ev rows t'. db_audit w3 = rows @ [(ev_event_id ev, e_json_print sample_env (enc_event ev))] \<and>
      load_text sample_env dec_ticket (db_tickets w2) (tk_ticket_id t) = Ok (Some t') \<and>
      ev_event_type ev = ''secret.materialized'' \<and> ev_decision ev = ''allow'' \<and>
      map_of (ev_metadata ev) ''secret_ref'' = Some (JStr (tk_secret_ref t')) \<and>
      map_of (ev_metadata ev) ''ticket_id'' = Some (JStr (tk_ticket_id t')) \<and>
      map_of (ev_metadata ev) ''consumer'' = Some (JStr (rq_consumer sample_request))"
    by (rule release_is_audited [THEN conjunct2, rule_format, OF run])
  with run show ?thesis
    by (elim exE conjE) (intro exI conjI, assumption+)
qed

end
