(* ===== verification/Brokered_Http.thy ===== *)
theory Brokered_Http
  imports Vault_Release
begin

text \<open>
  The broker's HTTP side (\<open>broker_daemon.rs\<close>): the fields of a request, the identity of the peer, the
  access request built from both, and \<open>brokered_http_request\<close>, which spends a ticket for a secret,
  puts the secret into a header of an HTTP request and redacts it from the answer. The HTTP client is
  the parameter \<open>x_http\<close>. The texts of foreign errors are the parameter \<open>x_message\<close>.
\<close>

section \<open>Errors and fields\<close>

datatype broker_error =
    BIo | BJson | BVault vault_error | Locked | UnknownCommand string | MissingField string
  | UnsupportedProvider string | InvalidHttpUrl | RequestContainsSecret | ResponseTooLarge
  | BHttp string | RemoteHttpGatewayNotAllowed | RequestBodyTooLarge

definition error_code :: "broker_error \<Rightarrow> string" where
  "error_code err =
     (case err of
        Locked \<Rightarrow> ''LOCKED''
      | UnknownCommand _ \<Rightarrow> ''UNKNOWN_COMMAND''
      | MissingField _ \<Rightarrow> ''BAD_REQUEST''
      | UnsupportedProvider _ \<Rightarrow> ''UNSUPPORTED_PROVIDER''
      | InvalidHttpUrl \<Rightarrow> ''BAD_REQUEST''
      | RequestContainsSecret \<Rightarrow> ''SECRET_LEAK_BLOCKED''
      | ResponseTooLarge \<Rightarrow> ''RESPONSE_TOO_LARGE''
      | BHttp _ \<Rightarrow> ''HTTP_ERROR''
      | RemoteHttpGatewayNotAllowed \<Rightarrow> ''REMOTE_HTTP_GATEWAY_NOT_ALLOWED''
      | RequestBodyTooLarge \<Rightarrow> ''REQUEST_BODY_TOO_LARGE''
      | BVault _ \<Rightarrow> ''VAULT_ERROR''
      | BIo \<Rightarrow> ''IO_ERROR''
      | BJson \<Rightarrow> ''JSON_ERROR'')"

text \<open>\<open>Value::get\<close> by name, and the accessors \<open>as_f64\<close> and \<open>and_then\<close>.\<close>

definition jget :: "string \<Rightarrow> json \<Rightarrow> json option" where
  "jget field v = (case v of JObj m \<Rightarrow> map_of m field | _ \<Rightarrow> None)"

definition get_as :: "(json \<Rightarrow> 'a option) \<Rightarrow> string \<Rightarrow> json \<Rightarrow> 'a option" where
  "get_as d field v = Option.bind (jget field v) d"

definition as_number :: "json \<Rightarrow> rat option" where
  "as_number v =
     (case v of
        JNum (PosInt n) \<Rightarrow> Some (of_nat (unat n))
      | JNum (NegInt n) \<Rightarrow> Some (of_int (sint n))
      | JNum (Float q) \<Rightarrow> Some q
      | _ \<Rightarrow> None)"

definition str_field :: "json \<Rightarrow> string \<Rightarrow> (string, broker_error) result" where
  "str_field v field = ok_or (get_as dec_str field v) (MissingField field)"

text \<open>\<open>serde_json::from_slice\<close> to a value.\<close>

definition json_of_slice :: "env \<Rightarrow> bytes \<Rightarrow> (json, broker_error) result" where
  "json_of_slice E bs = ok_or (e_json_parse E (from_bytes bs)) BJson"

fun json_walk :: "json \<Rightarrow> string list \<Rightarrow> json option" where
  "json_walk v [] = Some v"
| "json_walk v (segment # path) = (case jget segment v of None \<Rightarrow> None | Some u \<Rightarrow> json_walk u path)"

definition json_string_path :: "json \<Rightarrow> string \<Rightarrow> (string, broker_error) result" where
  "json_string_path v path =
     (case json_walk v (split_char CHR ''.'' path) of
        None \<Rightarrow> Err (BHttp (''credential JSON field not found: '' @ path))
      | Some u \<Rightarrow> ok_or (dec_str u) (BHttp (''credential JSON field is not a string: '' @ path)))"

section \<open>Peers\<close>

record peer_identity =
  pi_pid :: int
  pi_uid :: u32
  pi_gid :: u32
  pi_exe_path :: "string option"
  pi_comm :: "string option"
  pi_exe_sha256 :: "string option"

definition enc_i32 :: "int \<Rightarrow> json" where
  "enc_i32 i = JNum (if i < 0 then NegInt (word_of_int i) else PosInt (word_of_int i))"

definition enc_peer :: "peer_identity \<Rightarrow> json" where
  "enc_peer p = to_value
     [(''pid'', enc_i32 (pi_pid p)), (''uid'', enc_u32 (pi_uid p)), (''gid'', enc_u32 (pi_gid p)),
      (''exe_path'', enc_opt JStr (pi_exe_path p)), (''comm'', enc_opt JStr (pi_comm p)),
      (''exe_sha256'', enc_opt JStr (pi_exe_sha256 p))]"

definition int_dec :: "int \<Rightarrow> string" where
  "int_dec i = (if i < 0 then CHR ''-'' # nat_dec (nat (- i)) else nat_dec (nat i))"

definition hex_sha256 :: "env \<Rightarrow> bytes \<Rightarrow> string" where
  "hex_sha256 E bs = concat (map hex2 (e_sha256 E bs))"

definition read_host_file :: "env \<Rightarrow> string \<Rightarrow> ('z sys_scheme, bytes option, 'e) act" where
  "read_host_file E path = (\<lambda>w. (Ok (x_read_file (e_host E) (tick w) path), w\<lparr>tick := Suc (tick w)\<rparr>))"

definition read_host_link :: "env \<Rightarrow> string \<Rightarrow> ('z sys_scheme, string option, 'e) act" where
  "read_host_link E path = (\<lambda>w. (Ok (x_read_link (e_host E) (tick w) path), w\<lparr>tick := Suc (tick w)\<rparr>))"

definition linux_process_identity :: "env \<Rightarrow> int
    \<Rightarrow> ('z sys_scheme, string option \<times> string option \<times> string option, 'e) act" where
  "linux_process_identity E pid =
     (let proc_dir = ''/proc/'' @ int_dec pid in
      bnd (read_host_link E (proc_dir @ ''/exe'')) (\<lambda>link.
      let exe_path = map_option (\<lambda>l. utf8_lossy (as_bytes l)) link in
      bnd (read_host_file E (proc_dir @ ''/comm'')) (\<lambda>bs.
      let comm = (case bs of None \<Rightarrow> None
        | Some b \<Rightarrow> if utf8_valid b then Some (trim (from_bytes b)) else None) in
      bnd (case exe_path of None \<Rightarrow> ret None | Some path \<Rightarrow> read_host_file E path) (\<lambda>image.
      ret (exe_path, comm, map_option (hex_sha256 E) image)))))"

text \<open>The credentials are what \<open>getsockopt(SO_PEERCRED)\<close> gives for the connection, if it succeeds.\<close>

definition peer_identity_of :: "env \<Rightarrow> (int \<times> u32 \<times> u32) option
    \<Rightarrow> ('z sys_scheme, peer_identity, broker_error) act" where
  "peer_identity_of E creds =
     (case creds of
        None \<Rightarrow> fail BIo
      | Some (pid, uid, gid) \<Rightarrow>
          bnd (linux_process_identity E pid) (\<lambda>(exe_path, comm, exe_sha256).
          ret \<lparr>pi_pid = pid, pi_uid = uid, pi_gid = gid, pi_exe_path = exe_path, pi_comm = comm,
               pi_exe_sha256 = exe_sha256\<rparr>))"

section \<open>Access requests\<close>

definition parse_delivery_mode :: "string \<Rightarrow> (delivery_mode, broker_error) result" where
  "parse_delivery_mode s =
     (if s = ''brokered_http'' then Ok BrokeredHttp
      else if s = ''brokered_operation'' then Ok BrokeredOperation
      else if s = ''callback'' then Ok Callback
      else if s = ''pipe'' then Ok Pipe
      else if s = ''fd'' then Ok Fd
      else if s = ''temp_file'' then Ok TempFile
      else if s = ''child_env'' then Ok ChildEnv
      else if s = ''raw'' then Ok Raw
      else if s = ''terminal_print'' then Ok TerminalPrint
      else Err (UnknownCommand (''delivery_mode:'' @ s)))"

definition consumer_of :: "json \<Rightarrow> peer_identity \<Rightarrow> string" where
  "consumer_of v peer = opt_or (get_as dec_str ''consumer'' v) (''uid:'' @ nat_dec (unat (pi_uid peer)))"

definition access_request_of :: "env \<Rightarrow> json \<Rightarrow> peer_identity \<Rightarrow> bool \<Rightarrow> bool \<Rightarrow> string option
    \<Rightarrow> ('z sys_scheme, access_request, broker_error) act" where
  "access_request_of E v peer raw_export_requested mfa_verified broker_session_id =
     bnd (lift_r (bind_r (str_field v ''delivery_mode'') parse_delivery_mode)) (\<lambda>delivery_mode.
     bnd (lift_r (str_field v ''secret_ref'')) (\<lambda>secret_ref.
     bnd (lift_r (str_field v ''purpose'')) (\<lambda>purpose.
     bnd (now E) (\<lambda>time.
     ret \<lparr>rq_secret_ref = secret_ref, rq_consumer = consumer_of v peer, rq_purpose = purpose,
          rq_delivery_mode = delivery_mode,
          rq_provider_assurance = opt_or (get_as dec_str ''provider_assurance'' v) ''A1'',
          rq_raw_export_requested = raw_export_requested,
          rq_http_host = get_as dec_str ''http_host'' v,
          rq_http_scheme = get_as dec_str ''http_scheme'' v,
          rq_http_method = map_option to_upper (Option.bind
            (case jget ''http_method'' v of None \<Rightarrow> jget ''method'' v | Some m \<Rightarrow> Some m) dec_str),
          rq_http_path = get_as dec_str ''http_path'' v,
          rq_http_request_body_bytes = get_as dec_u64 ''http_request_body_bytes'' v,
          rq_os_uid = Some (pi_uid peer), rq_executable_path = pi_exe_path peer,
          rq_executable_sha256 = pi_exe_sha256 peer, rq_mfa_verified = mfa_verified,
          rq_broker_session_id = broker_session_id, rq_now = time\<rparr>))))"

section \<open>URLs\<close>

record parsed_http_url =
  pu_scheme :: string
  pu_host :: string
  pu_path :: string

definition parse_http_url :: "string \<Rightarrow> (parsed_http_url, broker_error) result" where
  "parse_http_url url =
     (case split_once ''://'' url of
        None \<Rightarrow> Err InvalidHttpUrl
      | Some (scheme, rest) \<Rightarrow>
          if scheme \<noteq> ''http'' \<and> scheme \<noteq> ''https'' then Err InvalidHttpUrl
          else
            let (authority, path_part) = opt_or (split_once ''/'' rest) (rest, [])
            in if authority = [] then Err InvalidHttpUrl
               else Ok \<lparr>pu_scheme = scheme, pu_host = to_lower authority, pu_path = ''/'' @ path_part\<rparr>)"

section \<open>The secret inside a request\<close>

definition assert_no_secret_leak :: "env \<Rightarrow> bytes \<Rightarrow> string \<Rightarrow> jmap \<Rightarrow> bytes option \<Rightarrow> (unit, broker_error) result" where
  "assert_no_secret_leak E secret url headers body =
     (let vals = url # List.map_filter (\<lambda>(key, v). map_option (\<lambda>s. key @ '': '' @ s) (dec_str v)) headers
      in if list_ex (\<lambda>val. contains_secret E val secret) vals then Err RequestContainsSecret
         else case body of
             None \<Rightarrow> Ok ()
           | Some b \<Rightarrow> if contains_secret E (utf8_lossy b) secret then Err RequestContainsSecret else Ok ())"

definition is_multipart_request :: "jmap \<Rightarrow> bool" where
  "is_multipart_request headers \<longleftrightarrow>
     list_ex (\<lambda>(key, v). eq_ignore_case key ''content-type'' \<and>
       (case dec_str v of None \<Rightarrow> False | Some s \<Rightarrow> starts_with (to_lower s) ''multipart/form-data'')) headers"

text \<open>The credential headers: the main one, then those named by \<open>credential_json_headers\<close>.\<close>

definition credential_of :: "env \<Rightarrow> json \<Rightarrow> bytes \<Rightarrow> (string, broker_error) result" where
  "credential_of E request secret =
     (case get_as dec_str ''credential_json_field'' request of
        Some field \<Rightarrow> bind_r (json_of_slice E secret) (\<lambda>v. json_string_path v field)
      | None \<Rightarrow> Ok (utf8_lossy secret))"

fun insert_extra_headers :: "json \<Rightarrow> jmap \<Rightarrow> jmap \<Rightarrow> (jmap, broker_error) result" where
  "insert_extra_headers secret_json [] headers = Ok headers"
| "insert_extra_headers secret_json ((header, field) # extra) headers =
     (case dec_str field of
        None \<Rightarrow> insert_extra_headers secret_json extra headers
      | Some path \<Rightarrow> bind_r (json_string_path secret_json path) (\<lambda>v.
          insert_extra_headers secret_json extra (map_insert header (JStr v) headers)))"

definition with_credentials :: "env \<Rightarrow> json \<Rightarrow> bytes \<Rightarrow> jmap \<Rightarrow> (jmap, broker_error) result" where
  "with_credentials E request secret headers =
     (let credential_header = opt_or (get_as dec_str ''credential_header'' request) ''Authorization'';
          credential_prefix = opt_or (get_as dec_str ''credential_prefix'' request) ''Bearer ''
      in bind_r (credential_of E request secret) (\<lambda>credential.
         let headers = map_insert credential_header (JStr (credential_prefix @ credential)) headers in
         case get_as dec_obj ''credential_json_headers'' request of
           None \<Rightarrow> Ok headers
         | Some extra \<Rightarrow> bind_r (json_of_slice E secret) (\<lambda>secret_json.
             insert_extra_headers secret_json extra headers)))"

section \<open>The exchange\<close>

record brokered_http_response =
  bh_status_code :: nat
  bh_headers :: jmap
  bh_body :: string
  bh_body_base64 :: "string option"
  bh_redacted :: bool

text \<open>\<open>Duration::from_secs_f64\<close> panics from \<open>2 ^ 64\<close> seconds on; the callers exclude negative values.\<close>

definition seconds_fit :: "rat \<Rightarrow> bool" where
  "seconds_fit q \<longleftrightarrow> q < 2 ^ 64"

definition call_http :: "env \<Rightarrow> http_request \<Rightarrow> ('z sys_scheme, http_outcome, 'e) act" where
  "call_http E q = (\<lambda>w. (Ok (x_http (e_host E) (tick w) q), w\<lparr>tick := Suc (tick w)\<rparr>))"

definition foreign_message :: "env \<Rightarrow> ('z sys_scheme, string, 'e) act" where
  "foreign_message E = (\<lambda>w. (Ok (x_message (e_host E) (tick w)), w\<lparr>tick := Suc (tick w)\<rparr>))"

definition request_body :: "env \<Rightarrow> json \<Rightarrow> ('z sys_scheme, bytes option, broker_error) act" where
  "request_body E request =
     (case get_as dec_str ''body_base64'' request of
        Some encoded \<Rightarrow>
          (case e_b64_dec E encoded of
             Some bs \<Rightarrow> ret (Some bs)
           | None \<Rightarrow> bnd (foreign_message E) (\<lambda>err. fail (BHttp (''invalid base64 request body: '' @ err))))
      | None \<Rightarrow> ret (map_option as_bytes (get_as dec_str ''body'' request)))"

text \<open>
  \<open>headers_names\<close> with \<open>header\<close>: each name with the value of its first occurrence; a repeated name
  is written again with the same value.
\<close>

definition redact_headers :: "env \<Rightarrow> bytes \<Rightarrow> (string \<times> string) list \<Rightarrow> jmap \<times> bool" where
  "redact_headers E secret hs =
     fold (\<lambda>(key, _) (m, changed).
         case map_of hs key of
           None \<Rightarrow> (m, changed)
         | Some v \<Rightarrow> (map_insert key (JStr (fst (broker_redact E v secret))) m,
             changed \<or> snd (broker_redact E v secret)))
       hs ([], False)"

text \<open>The limit \<open>max_response_bytes + 1\<close> wraps around in a release build.\<close>

definition http_answer :: "env \<Rightarrow> bytes \<Rightarrow> u64 \<Rightarrow> bool \<Rightarrow> nat \<Rightarrow> (string \<times> string) list \<Rightarrow> bytes option
    \<Rightarrow> (brokered_http_response, broker_error) result" where
  "http_answer E secret max_response_bytes response_body_base64 status_code hs body =
     (let (response_headers, headers_changed) = redact_headers E secret hs;
          limit = unat (max_response_bytes + 1)
      in case body of
           None \<Rightarrow> Err BIo
         | Some bs \<Rightarrow>
             let body_bytes = take limit bs in
             if length body_bytes > unat max_response_bytes then Err ResponseTooLarge
             else if response_body_base64
             then Ok \<lparr>bh_status_code = status_code, bh_headers = response_headers, bh_body = [],
                      bh_body_base64 = Some (e_b64 E body_bytes), bh_redacted = headers_changed\<rparr>
             else
               let (body, body_changed) = broker_redact E (utf8_lossy body_bytes) secret
               in Ok \<lparr>bh_status_code = status_code, bh_headers = response_headers, bh_body = body,
                      bh_body_base64 = None, bh_redacted = headers_changed \<or> body_changed\<rparr>)"

text \<open>The second half of \<open>brokered_http_request\<close>, from the moment the secret is known.\<close>

definition send_with_secret :: "env \<Rightarrow> json \<Rightarrow> string \<Rightarrow> string \<Rightarrow> bytes option \<Rightarrow> bytes
    \<Rightarrow> ('z sys_scheme, brokered_http_response, broker_error) act" where
  "send_with_secret E request method_name url body secret =
     (let headers = opt_or (get_as dec_obj ''headers'' request) [] in
      seq (lift_r (assert_no_secret_leak E secret url headers body))
     (bnd (lift_r (with_credentials E request secret headers)) (\<lambda>headers.
      let timeout = opt_or (get_as as_number ''timeout_seconds'' request) 0;
          max_response_bytes = opt_or (get_as dec_u64 ''max_response_bytes'' request) (10 * 1024 * 1024);
          response_body_base64 = opt_or (get_as dec_bool ''response_body_base64'' request) False
      in
      if timeout > 0 \<and> \<not> seconds_fit timeout then lift_r Panic
      else
      bnd (call_http E
        \<lparr>hq_method = method_name, hq_url = url, hq_timeout = (if timeout > 0 then Some timeout else None),
         hq_headers = List.map_filter (\<lambda>(key, v). map_option (Pair key) (dec_str v)) headers,
         hq_body = body, hq_multipart = (body \<noteq> None \<and> is_multipart_request headers)\<rparr>) (\<lambda>outcome.
      case outcome of
        HttpTransport message \<Rightarrow> fail (BHttp message)
      | HttpAnswer status_code hs answer_body \<Rightarrow>
          lift_r (http_answer E secret max_response_bytes response_body_base64 status_code hs answer_body)))))"

definition brokered_http_request :: "env \<Rightarrow> string \<Rightarrow> json \<Rightarrow> peer_identity \<Rightarrow> bool \<Rightarrow> string option
    \<Rightarrow> ('z world_scheme, brokered_http_response, broker_error) act" where
  "brokered_http_request E passphrase request peer mfa_verified broker_session_id =
     bnd (lift_r (str_field request ''url'')) (\<lambda>url.
     let method_name = to_upper (opt_or (get_as dec_str ''method'' request) ''GET'') in
     bnd (lift_r (parse_http_url url)) (\<lambda>parsed.
     bnd (request_body E request) (\<lambda>body.
     let body_len = word_of_nat (case body of None \<Rightarrow> 0 | Some b \<Rightarrow> length b) in
     bnd (lift_r (str_field request ''purpose'')) (\<lambda>purpose.
     bnd (lift_r (str_field request ''secret_ref'')) (\<lambda>secret_ref.
     bnd (now E) (\<lambda>time.
     let access =
       \<lparr>rq_secret_ref = secret_ref, rq_consumer = consumer_of request peer, rq_purpose = purpose,
        rq_delivery_mode = BrokeredHttp,
        rq_provider_assurance = opt_or (get_as dec_str ''provider_assurance'' request) ''A1'',
        rq_raw_export_requested = False,
        rq_http_host = Some (pu_host parsed), rq_http_scheme = Some (pu_scheme parsed),
        rq_http_method = Some method_name, rq_http_path = Some (pu_path parsed),
        rq_http_request_body_bytes = Some body_len,
        rq_os_uid = Some (pi_uid peer), rq_executable_path = pi_exe_path peer,
        rq_executable_sha256 = pi_exe_sha256 peer, rq_mfa_verified = mfa_verified,
        rq_broker_session_id = broker_session_id, rq_now = time\<rparr> in
     bnd (on_err BVault (issue_ticket E access passphrase)) (\<lambda>ticket.
     bnd (on_err BVault (consume_ticket_for_secret E (tk_ticket_id ticket) access passphrase)) (\<lambda>secret.
     send_with_secret E request method_name url body secret))))))))"

end
