(* ===== verification/Broker.thy ===== *)
theory Broker
  imports Brokered_Http
begin

text \<open>
  The broker (\<open>broker_daemon.rs\<close>): the state that survives from one connection to the next, and
  \<open>handle_connection\<close> with its commands. The state extends the vault's tables, which every process
  shares, with the broker's own fields, which the mutex protects.
\<close>

section \<open>The state\<close>

record broker = world +
  br_idle_timeout_seconds :: rat
  br_unlocked_passphrase :: "string option"
  br_unlocked :: bool
  br_mfa_verified :: bool
  br_broker_session_id :: "string option"
  br_last_activity :: "int option"

definition broker_new :: "rat \<Rightarrow> world \<Rightarrow> broker" where
  "broker_new idle_timeout_seconds w =
     world.extend w (broker.fields idle_timeout_seconds None False False None None)"

definition forget_unlock :: "broker \<Rightarrow> broker" where
  "forget_unlock w = w\<lparr>br_unlocked_passphrase := None, br_unlocked := False, br_mfa_verified := False,
     br_broker_session_id := None, br_last_activity := None\<rparr>"

text \<open>\<open>Duration::from_secs_f64\<close>: the nearest nanosecond, ties to even.\<close>

definition duration_nanos :: "rat \<Rightarrow> int" where
  "duration_nanos q =
     (let x = q * 10 ^ 9; f = \<lfloor>x\<rfloor>; d = x - of_int f
      in if d < 1 / 2 then f else if d > 1 / 2 then f + 1 else if even f then f else f + 1)"

definition expire_idle_unlock :: "env \<Rightarrow> (broker, unit, 'e) act" where
  "expire_idle_unlock E = (\<lambda>w.
     if \<not> br_unlocked w \<or> br_idle_timeout_seconds w \<le> 0 then (Ok (), w)
     else case br_last_activity w of
         None \<Rightarrow> (Ok (), w)
       | Some last_activity \<Rightarrow>
           bnd (now E) (\<lambda>time.
           if time < last_activity then ret ()
           else if \<not> seconds_fit (br_idle_timeout_seconds w) then lift_r Panic
           else if time - last_activity > duration_nanos (br_idle_timeout_seconds w)
           then update forget_unlock
           else ret ()) w)"

definition require_unlocked :: "env \<Rightarrow> (broker, unit, broker_error) act" where
  "require_unlocked E =
     seq (expire_idle_unlock E) (\<lambda>w. if br_unlocked w then (Ok (), w) else (Err Locked, w))"

definition mark_activity :: "env \<Rightarrow> (broker, unit, 'e) act" where
  "mark_activity E = bnd (now E) (\<lambda>time. update (\<lambda>w. w\<lparr>br_last_activity := Some time\<rparr>))"

definition system_time_millis :: "int \<Rightarrow> string option" where
  "system_time_millis t = (if t < 0 then None else Some (nat_dec (nat (t div 1000000))))"

definition the_passphrase :: "broker \<Rightarrow> string" where
  "the_passphrase w = opt_or (br_unlocked_passphrase w) []"

definition validate_unlock :: "env \<Rightarrow> string option \<Rightarrow> ('z world_scheme, unit, broker_error) act" where
  "validate_unlock E passphrase =
     bnd (on_err BVault (status E)) (\<lambda>header.
     let provider_id = opt_or (get_as dec_str ''provider_id'' (vh_provider_binding header)) [] in
     if provider_id = passphrase_provider_id then on_err BVault (verify_audit E (opt_or passphrase []))
     else if provider_id = tpm2_provider_id \<or> provider_id = esapi_provider_id
     then on_err BVault (verify_audit E [])
     else if provider_id = system_fingerprint_provider_id then on_err BVault (verify_audit E [])
     else fail (UnsupportedProvider provider_id))"

definition validate_mfa :: "env \<Rightarrow> string \<Rightarrow> (broker, unit, broker_error) act" where
  "validate_mfa E code = (\<lambda>w. on_err BVault (verify_totp_mfa E (the_passphrase w) code) w)"

section \<open>The commands\<close>

definition cmd_status :: "(broker, json, broker_error) act" where
  "cmd_status = (\<lambda>w. (Ok (to_value
     [(''ok'', JBool True), (''unlocked'', JBool (br_unlocked w)), (''mfa_verified'', JBool (br_mfa_verified w)),
      (''idle_timeout_seconds'', JNum (Float (br_idle_timeout_seconds w))),
      (''last_activity'', enc_opt JStr (Option.bind (br_last_activity w) system_time_millis))]), w))"

definition open_session :: "env \<Rightarrow> (broker, json, broker_error) act" where
  "open_session E =
     seq (update (\<lambda>w. w\<lparr>br_unlocked := True\<rparr>))
    (bnd (new_uuid E) (\<lambda>sid.
     seq (update (\<lambda>w. w\<lparr>br_broker_session_id := Some sid\<rparr>))
    (seq (mark_activity E)
     (\<lambda>w. (Ok (to_value [(''ok'', JBool True), (''unlocked'', JBool True),
        (''mfa_verified'', JBool (br_mfa_verified w))]), w)))))"

definition cmd_unlock :: "env \<Rightarrow> json \<Rightarrow> (broker, json, broker_error) act" where
  "cmd_unlock E request =
     (let passphrase = get_as dec_str ''passphrase'' request in
      seq (validate_unlock E passphrase)
     (seq (update (\<lambda>w. w\<lparr>br_mfa_verified := False, br_unlocked_passphrase := passphrase\<rparr>))
      (case get_as dec_str ''mfa_code'' request of
         None \<Rightarrow> open_session E
       | Some code \<Rightarrow>
           handle (validate_mfa E code)
             (\<lambda>_. seq (update (\<lambda>w. w\<lparr>br_mfa_verified := True\<rparr>)) (open_session E))
             (\<lambda>err. seq (update (\<lambda>w. w\<lparr>br_unlocked_passphrase := None\<rparr>)) (fail err)))))"

definition cmd_mfa_verify :: "env \<Rightarrow> json \<Rightarrow> (broker, json, broker_error) act" where
  "cmd_mfa_verify E request =
     seq (require_unlocked E)
    (bnd (lift_r (str_field request ''mfa_code'')) (\<lambda>code.
     seq (validate_mfa E code)
    (seq (update (\<lambda>w. w\<lparr>br_mfa_verified := True\<rparr>))
    (seq (mark_activity E)
     (ret (to_value [(''ok'', JBool True), (''unlocked'', JBool True), (''mfa_verified'', JBool True)]))))))"

definition cmd_lock :: "(broker, json, broker_error) act" where
  "cmd_lock = seq (update forget_unlock) (ret (to_value [(''ok'', JBool True), (''unlocked'', JBool False)]))"

definition cmd_checkout :: "env \<Rightarrow> json \<Rightarrow> peer_identity \<Rightarrow> (broker, json, broker_error) act" where
  "cmd_checkout E request peer =
     seq (require_unlocked E) (\<lambda>w.
    (bnd (access_request_of E request peer False (br_mfa_verified w) (br_broker_session_id w)) (\<lambda>access.
     bnd (on_err BVault (issue_ticket E access (the_passphrase w))) (\<lambda>ticket.
     seq (mark_activity E)
     (ret (to_value [(''ok'', JBool True), (''ticket'', enc_ticket ticket), (''peer'', enc_peer peer)]))))) w)"

definition cmd_materialize :: "env \<Rightarrow> json \<Rightarrow> peer_identity \<Rightarrow> (broker, json, broker_error) act" where
  "cmd_materialize E request peer =
     seq (require_unlocked E) (\<lambda>w.
    (bnd (access_request_of E request peer (opt_or (get_as dec_bool ''raw_export_requested'' request) False)
        (br_mfa_verified w) (br_broker_session_id w)) (\<lambda>access.
     bnd (on_err BVault (issue_ticket E access (the_passphrase w))) (\<lambda>ticket.
     bnd (on_err BVault (consume_ticket_for_secret E (tk_ticket_id ticket) access (the_passphrase w))) (\<lambda>secret.
     seq (mark_activity E)
     (ret (to_value [(''ok'', JBool True), (''secret'', JStr (utf8_lossy secret)), (''peer'', enc_peer peer)])))))) w)"

definition enc_u16 :: "nat \<Rightarrow> json" where
  "enc_u16 n = JNum (PosInt (word_of_nat n))"

definition cmd_provider_http :: "env \<Rightarrow> json \<Rightarrow> peer_identity \<Rightarrow> (broker, json, broker_error) act" where
  "cmd_provider_http E request peer =
     seq (require_unlocked E) (\<lambda>w.
    (bnd (brokered_http_request E (the_passphrase w) request peer (br_mfa_verified w) (br_broker_session_id w))
      (\<lambda>response.
     seq (mark_activity E)
     (ret (to_value [(''ok'', JBool True), (''status_code'', enc_u16 (bh_status_code response)),
        (''headers'', JObj (bh_headers response)), (''body'', JStr (bh_body response)),
        (''body_base64'', enc_opt JStr (bh_body_base64 response)), (''redacted'', JBool (bh_redacted response)),
        (''peer'', enc_peer peer)])))) w)"

definition run_command :: "env \<Rightarrow> string \<Rightarrow> json \<Rightarrow> peer_identity \<Rightarrow> (broker, json, broker_error) act" where
  "run_command E command request peer =
     (if command = ''status'' then cmd_status
      else if command = ''unlock'' then cmd_unlock E request
      else if command = ''mfa_verify'' then cmd_mfa_verify E request
      else if command = ''lock'' then cmd_lock
      else if command = ''checkout'' then cmd_checkout E request peer
      else if command = ''materialize'' then cmd_materialize E request peer
      else if command = ''provider_http'' then cmd_provider_http E request peer
      else fail (UnknownCommand command))"

text \<open>
  One connection: the line it sends, if it could be read, and the credentials of the peer, if the
  socket gave them.
\<close>

definition handle_connection :: "env \<Rightarrow> string option \<Rightarrow> (int \<times> u32 \<times> u32) option
    \<Rightarrow> (broker, json, broker_error) act" where
  "handle_connection E line creds =
     seq (expire_idle_unlock E)
    (bnd (lift_r (ok_or line BIo)) (\<lambda>l.
     bnd (lift_r (ok_or (e_json_parse E (trim_end l)) BJson)) (\<lambda>request.
     bnd (peer_identity_of E creds) (\<lambda>peer.
     bnd (lift_r (str_field request ''command'')) (\<lambda>command.
     run_command E command request peer)))))"

text \<open>The answer \<open>serve\<close> writes: the response, or the error's code with its text; none if the broker panics.\<close>

definition reply :: "(broker_error \<Rightarrow> string) \<Rightarrow> (json, broker_error) result \<Rightarrow> json option" where
  "reply error_text r =
     (case r of
        Ok v \<Rightarrow> Some v
      | Err err \<Rightarrow> Some (to_value [(''ok'', JBool False),
          (''error'', to_value [(''code'', JStr (error_code err)), (''message'', JStr (error_text err))])])
      | Panic \<Rightarrow> None)"

section \<open>What the vault and the network leave alone\<close>

lemma keeps_append_audit_indep:
  fixes I :: "'z world_scheme \<Rightarrow> bool"
  assumes "tick_free I" and "indep_audit I"
  shows "keeps I (append_audit E h keys ty sev dec md)"
  using keeps_append_audit_other [OF assms] .

lemma keeps_ticket_ops [frame_intro]:
  fixes I :: "'z world_scheme \<Rightarrow> bool"
  assumes "tick_free I" and "indep_audit I" and "indep_tickets I"
  shows "keeps I (issue_ticket E r p)" and "keeps I (consume_ticket_for_secret E tid r p)"
    and "keeps I (verify_totp_mfa E p code)" and "keeps I (verify_audit E p)" and "keeps I (status E)"
proof -
  note audit = keeps_append_audit_indep [OF assms(1,2)]
  show "keeps I (issue_ticket E r p)"
    unfolding issue_ticket_def Let_def by (intro frame_intro frame_writes audit assms)
  show "keeps I (consume_ticket_for_secret E tid r p)"
    unfolding consume_ticket_for_secret_def Let_def by (intro frame_intro frame_writes audit assms)
  show "keeps I (verify_totp_mfa E p code)"
    unfolding verify_totp_mfa_def Let_def by (intro frame_intro frame_writes audit assms)
  show "keeps I (verify_audit E p)"
    unfolding verify_audit_def by (intro frame_intro assms)
  show "keeps I (status E)"
    unfolding status_def by (intro frame_intro assms)
qed

lemma keeps_host_calls [frame_intro]:
  fixes I :: "'z world_scheme \<Rightarrow> bool"
  assumes "tick_free I"
  shows "keeps I (read_host_file E path)" and "keeps I (read_host_link E path)" and "keeps I (call_http E q)"
    and "keeps I (foreign_message E)"
  using assms unfolding read_host_file_def read_host_link_def call_http_def foreign_message_def
  by (auto intro!: tick_step)

lemma keeps_requests [frame_intro]:
  fixes I :: "'z world_scheme \<Rightarrow> bool"
  assumes "tick_free I"
  shows "keeps I (peer_identity_of E creds)" and "keeps I (access_request_of E v peer raw mfa sid)"
    and "keeps I (request_body E request)" and "keeps I (send_with_secret E request mn url body secret)"
proof -
  show "keeps I (peer_identity_of E creds)"
    using assms unfolding peer_identity_of_def linux_process_identity_def Let_def by (intro frame_intro)
  show "keeps I (access_request_of E v peer raw mfa sid)"
    using assms unfolding access_request_of_def by (intro frame_intro)
  show "keeps I (request_body E request)"
    using assms unfolding request_body_def by (intro frame_intro)
  have answers: "keeps I (case outcome of HttpTransport message \<Rightarrow> fail (BHttp message)
      | HttpAnswer st hs b \<Rightarrow> lift_r (http_answer E secret lim b64 st hs b))" for outcome lim b64
    by (cases outcome) (simp_all add: keeps_fail keeps_lift_r)
  show "keeps I (send_with_secret E request mn url body secret)"
    using assms unfolding send_with_secret_def Let_def by (intro frame_intro answers)
qed

lemma keeps_brokered_http [frame_intro]:
  fixes I :: "'z world_scheme \<Rightarrow> bool"
  assumes "tick_free I" and "indep_audit I" and "indep_tickets I"
  shows "keeps I (brokered_http_request E p request peer mfa sid)"
  using assms unfolding brokered_http_request_def Let_def by (intro frame_intro)

lemma keeps_validate_unlock [frame_intro]:
  fixes I :: "'z world_scheme \<Rightarrow> bool"
  assumes "tick_free I" and "indep_audit I" and "indep_tickets I"
  shows "keeps I (validate_unlock E passphrase)"
  using assms unfolding validate_unlock_def Let_def by (intro frame_intro)

end
