(* ===== verification/Broker_Session.thy ===== *)
theory Broker_Session
  imports Broker
begin

text \<open>
  The broker as a session automaton. A session is closed, or open under an identifier, with or without
  a verified second factor. Every connection moves the broker along an edge of the automaton, and the
  invariant of the broker's fields says what a closed session has forgotten.
\<close>

section \<open>The automaton\<close>

datatype session = Closed | Open bool string

definition session_of :: "broker \<Rightarrow> session" where
  "session_of w = (if br_unlocked w then Open (br_mfa_verified w) (opt_or (br_broker_session_id w) []) else Closed)"

definition broker_ok :: "broker \<Rightarrow> bool" where
  "broker_ok w \<longleftrightarrow>
     (if br_unlocked w then br_broker_session_id w \<noteq> None \<and> br_last_activity w \<noteq> None
      else br_unlocked_passphrase w = None \<and> \<not> br_mfa_verified w \<and> br_broker_session_id w = None)"

definition uses_secret :: "string \<Rightarrow> bool" where
  "uses_secret cmd \<longleftrightarrow> cmd \<in> {''checkout'', ''materialize'', ''provider_http''}"

text \<open>\<open>session_step E n n' cmd ok s s'\<close>: the command between the ticks \<open>n\<close> and \<open>n'\<close>, answered with success or an error.\<close>

inductive session_step :: "env \<Rightarrow> nat \<Rightarrow> nat \<Rightarrow> string \<Rightarrow> bool \<Rightarrow> session \<Rightarrow> session \<Rightarrow> bool"
  for E n n' where
  opened: "n \<le> m \<Longrightarrow> m < n' \<Longrightarrow> session_step E n n' ''unlock'' True s (Open mfa (e_uuid E m))"
| bad_code: "session_step E n n' ''unlock'' False (Open mfa i) (Open False i)"
| verified: "session_step E n n' ''mfa_verify'' True (Open mfa i) (Open True i)"
| closed: "session_step E n n' ''lock'' True s Closed"
| used: "uses_secret cmd \<Longrightarrow> session_step E n n' cmd True (Open mfa i) (Open mfa i)"
| shown: "session_step E n n' ''status'' True s s"
| refused: "session_step E n n' cmd False s s"

inductive_cases session_stepE: "session_step E n n' cmd ok s s'"

lemma session_step_later:
  "session_step E n n' cmd ok s s' \<Longrightarrow> k \<le> n \<Longrightarrow> n' \<le> k' \<Longrightarrow> session_step E k k' cmd ok s s'"
  by (erule session_stepE) (auto intro: session_step.intros)

section \<open>Actions outside the broker's fields\<close>

definition own :: "broker \<Rightarrow> string option \<times> bool \<times> bool \<times> string option \<times> int option \<times> rat" where
  "own w = (br_unlocked_passphrase w, br_unlocked w, br_mfa_verified w, br_broker_session_id w,
     br_last_activity w, br_idle_timeout_seconds w)"

lemma own_eq:
  assumes "own v = own w"
  shows "session_of v = session_of w" "broker_ok v = broker_ok w" "the_passphrase v = the_passphrase w"
    "br_unlocked v = br_unlocked w" "br_mfa_verified v = br_mfa_verified w"
    "br_broker_session_id v = br_broker_session_id w" "br_unlocked_passphrase v = br_unlocked_passphrase w"
    "br_last_activity v = br_last_activity w"
  using assms by (auto simp: own_def session_of_def broker_ok_def the_passphrase_def)

definition outside :: "(broker, 'a, 'e) act \<Rightarrow> bool" where
  "outside m \<longleftrightarrow> (\<forall>w r w'. m w = (r, w') \<longrightarrow> own w' = own w \<and> tick w \<le> tick w')"

lemma outsideI: "(\<And>c n. keeps (\<lambda>v :: broker. own v = c \<and> n \<le> tick v) m) \<Longrightarrow> outside m"
  unfolding outside_def keeps_def by (metis order_refl snd_conv)

lemma own_indep:
  "tick_free (\<lambda>v. own v = c \<and> n \<le> tick v)" "indep_audit (\<lambda>v. own v = c \<and> n \<le> tick v)"
  "indep_tickets (\<lambda>v. own v = c \<and> n \<le> tick v)"
  by (auto simp: indep_defs own_def)

lemma outside_vault:
  "outside (issue_ticket E r p)" "outside (consume_ticket_for_secret E tid r p)"
  "outside (verify_totp_mfa E p code)" "outside (validate_unlock E pw)"
  "outside (access_request_of E v peer raw mfa sid)" "outside (peer_identity_of E creds)"
  "outside (brokered_http_request E p request peer mfa sid)" "outside (new_uuid E)" "outside (now E)"
  by (rule outsideI; intro frame_intro own_indep)+

lemma outside_basic [intro]:
  "outside (ret x)" "outside (lift_r r)" "outside (fail e)"
  by (simp_all add: outside_def ret_def lift_r_def fail_def)

lemma outside_on_err [intro]: "outside m \<Longrightarrow> outside (on_err f m)"
  by (fastforce simp: outside_def on_err_def split: prod.splits)

lemma outside_bnd [intro]: "outside m \<Longrightarrow> (\<And>x. outside (f x)) \<Longrightarrow> outside (bnd m f)"
  unfolding outside_def bnd_def by (fastforce split: prod.splits result.splits dest: order_trans)

lemma outsideD: "outside m \<Longrightarrow> m w = (r, w') \<Longrightarrow> own w' = own w \<and> tick w \<le> tick w'"
  unfolding outside_def by blast

lemma outside_bnd_run:
  assumes "bnd m f w = (r, w')" and "outside m" and "r \<noteq> Panic"
  obtains (stop) e where "r = Err e" "own w' = own w" "tick w \<le> tick w'"
  | (go) x w1 where "m w = (Ok x, w1)" "own w1 = own w" "tick w \<le> tick w1" "f x w1 = (r, w')"
  using assms outsideD [OF assms(2)]
  by (cases "m w"; cases "fst (m w)") (auto simp: bnd_def)

section \<open>The parts of a command\<close>

lemma mark_activity_run:
  "mark_activity E w = (Ok (), w\<lparr>tick := Suc (tick w), br_last_activity := Some (e_clock E (tick w))\<rparr>)"
  by (simp add: mark_activity_def bnd_def now_def update_def)

text \<open>What passes the idle check: nothing, or a session that has timed out.\<close>

definition timed_out :: "env \<Rightarrow> broker \<Rightarrow> bool" where
  "timed_out E w \<longleftrightarrow> br_unlocked w \<and> 0 < br_idle_timeout_seconds w \<and>
     (\<exists>t. br_last_activity w = Some t \<and>
        e_clock E (tick w) - t > duration_nanos (br_idle_timeout_seconds w) \<and> t \<le> e_clock E (tick w))"

lemma expire_eq:
  "expire_idle_unlock E w =
     (if \<not> br_unlocked w \<or> br_idle_timeout_seconds w \<le> 0 \<or> br_last_activity w = None then (Ok (), w)
      else let w1 = w\<lparr>tick := Suc (tick w)\<rparr> in
        if e_clock E (tick w) < the (br_last_activity w) then (Ok (), w1)
        else if \<not> seconds_fit (br_idle_timeout_seconds w) then (Panic, w1)
        else if timed_out E w then (Ok (), forget_unlock w1)
        else (Ok (), w1))"
  by (cases "br_last_activity w")
    (simp_all add: expire_idle_unlock_def timed_out_def bnd_def now_def update_def lift_r_def ret_def Let_def)

lemma expire_run:
  assumes "expire_idle_unlock E w = (r, w')" and "r \<noteq> Panic"
  shows "r = Ok () \<and> (if timed_out E w then w' = forget_unlock (w\<lparr>tick := Suc (tick w)\<rparr>)
     else own w' = own w \<and> tick w \<le> tick w')"
proof -
  have late: "br_unlocked w \<and> \<not> br_idle_timeout_seconds w \<le> 0 \<and> br_last_activity w \<noteq> None \<and>
      \<not> e_clock E (tick w) < the (br_last_activity w)" if "timed_out E w"
    using that by (auto simp: timed_out_def)
  show ?thesis
    using assms late unfolding expire_eq Let_def own_def by (cases "timed_out E w") (auto split: if_splits)
qed

lemma forget_facts [simp]:
  "session_of (forget_unlock w) = Closed" "broker_ok (forget_unlock w)" "tick (forget_unlock w) = tick w"
  "br_unlocked (forget_unlock w) = False"
  by (simp_all add: session_of_def broker_ok_def forget_unlock_def)

lemma forget_own [simp]: "br_idle_timeout_seconds (forget_unlock w) = br_idle_timeout_seconds w"
  by (simp add: forget_unlock_def)

text \<open>The idle check closes a session or leaves it as it is.\<close>

definition settled :: "broker \<Rightarrow> broker \<Rightarrow> bool" where
  "settled w w' \<longleftrightarrow> tick w \<le> tick w' \<and> broker_ok w' \<and>
     br_idle_timeout_seconds w' = br_idle_timeout_seconds w \<and>
     (own w' = own w \<or> session_of w' = Closed \<and> 0 < br_idle_timeout_seconds w)"

lemma settled_own:
  "broker_ok w \<Longrightarrow> own w' = own w \<Longrightarrow> tick w \<le> tick w' \<Longrightarrow> settled w w'"
  using own_eq(2) [of w' w] by (auto simp: settled_def own_def)

lemma expire_settles:
  assumes "expire_idle_unlock E w = (r, w')" and "r \<noteq> Panic" and "broker_ok w"
  shows "r = Ok ()" and "settled w w'"
proof -
  show "r = Ok ()"
    using expire_run [OF assms(1,2)] by simp
  show "settled w w'"
  proof (cases "timed_out E w")
    case True
    then show ?thesis
      using expire_run [OF assms(1,2)] by (simp add: settled_def timed_out_def)
  next
    case False
    then show ?thesis
      using expire_run [OF assms(1,2)] settled_own [OF assms(3)] by simp
  qed
qed

lemma require_run:
  assumes "seq (require_unlocked E) f w = (r, w')" and "r \<noteq> Panic" and "broker_ok w"
  obtains (locked) "r = Err Locked" "settled w w'" "session_of w' = Closed"
  | (pass) v where "settled w v" "own v = own w" "br_unlocked v" "f v = (r, w')"
proof (cases "expire_idle_unlock E w :: (unit, broker_error) result \<times> broker")
  case (Pair r1 v)
  have "r1 \<noteq> Panic"
    using assms(1,2) Pair by (auto simp: require_unlocked_def seq_def bnd_def)
  note v = expire_settles [OF Pair this assms(3)]
  show thesis
  proof (cases "br_unlocked v")
    case True
    then have "own v = own w"
      using v(2) by (auto simp: settled_def session_of_def)
    then show thesis
      using pass [OF v(2) _ True] assms(1) Pair v(1) True by (simp add: require_unlocked_def seq_def bnd_def)
  next
    case False
    then have "r = Err Locked" "w' = v"
      using assms(1) Pair v(1) by (simp_all add: require_unlocked_def seq_def bnd_def)
    then show thesis
      using locked v(2) False by (simp add: session_of_def)
  qed
qed

section \<open>The edges\<close>

definition moves :: "env \<Rightarrow> string \<Rightarrow> broker \<Rightarrow> (json, broker_error) result \<Rightarrow> broker \<Rightarrow> bool" where
  "moves E cmd w r w' \<longleftrightarrow> broker_ok w' \<and> tick w \<le> tick w' \<and>
     br_idle_timeout_seconds w' = br_idle_timeout_seconds w \<and>
     (\<exists>s. (s = session_of w \<or> s = Closed \<and> 0 < br_idle_timeout_seconds w) \<and>
        session_step E (tick w) (tick w') cmd (is_ok r) s (session_of w'))"

lemma movesI:
  "session_step E (tick w) (tick w') cmd (is_ok r) (session_of w) (session_of w') \<Longrightarrow> broker_ok w' \<Longrightarrow>
     tick w \<le> tick w' \<Longrightarrow> br_idle_timeout_seconds w' = br_idle_timeout_seconds w \<Longrightarrow> moves E cmd w r w'"
  unfolding moves_def by blast

lemma moves_after:
  assumes "settled w v" and "moves E cmd v r w'"
  shows "moves E cmd w r w'"
proof -
  obtain s where s: "s = session_of v \<or> s = Closed \<and> 0 < br_idle_timeout_seconds v"
      "session_step E (tick v) (tick w') cmd (is_ok r) s (session_of w')"
    using assms(2) by (auto simp: moves_def)
  have "session_of v = session_of w \<or> session_of v = Closed \<and> 0 < br_idle_timeout_seconds w"
    using assms(1) own_eq(1) [of v w] by (auto simp: settled_def)
  then have "s = session_of w \<or> s = Closed \<and> 0 < br_idle_timeout_seconds w"
    using s(1) assms(1) by (auto simp: settled_def)
  moreover have "session_step E (tick w) (tick w') cmd (is_ok r) s (session_of w')"
    using session_step_later [OF s(2)] assms(1) by (simp add: settled_def)
  moreover have "broker_ok w'" "tick w \<le> tick w'" "br_idle_timeout_seconds w' = br_idle_timeout_seconds w"
    using assms by (simp_all add: moves_def settled_def)
  ultimately show ?thesis
    unfolding moves_def by blast
qed

lemma refused_moves: "settled w w' \<Longrightarrow> r = Err e \<Longrightarrow> moves E cmd w r w'"
  by (rule moves_after) (auto intro!: movesI session_step.refused simp: settled_def is_ok_def)

text \<open>Actions that keep the session open and end by noting the time.\<close>

definition finishing :: "(broker, 'a, 'e) act \<Rightarrow> bool" where
  "finishing m \<longleftrightarrow> (\<forall>w r w'. m w = (r, w') \<longrightarrow> r \<noteq> Panic \<longrightarrow>
     session_of w' = session_of w \<and> tick w \<le> tick w' \<and> (broker_ok w \<longrightarrow> broker_ok w') \<and>
     br_idle_timeout_seconds w' = br_idle_timeout_seconds w)"

lemma finishingD:
  "finishing m \<Longrightarrow> m w = (r, w') \<Longrightarrow> r \<noteq> Panic \<Longrightarrow>
     session_of w' = session_of w \<and> tick w \<le> tick w' \<and> (broker_ok w \<longrightarrow> broker_ok w') \<and>
     br_idle_timeout_seconds w' = br_idle_timeout_seconds w"
  unfolding finishing_def by blast

lemma finishing_end: "finishing (seq (mark_activity E) (ret v))"
  by (auto simp: finishing_def seq_def bnd_def mark_activity_run ret_def session_of_def broker_ok_def)

lemma finishing_bnd:
  assumes "outside m" and "\<And>x. finishing (f x)"
  shows "finishing (bnd m f)"
  unfolding finishing_def
proof (intro allI impI)
  fix w r w' assume run: "bnd m f w = (r, w')" and "r \<noteq> Panic"
  from run assms(1) this(2) show "session_of w' = session_of w \<and> tick w \<le> tick w' \<and>
      (broker_ok w \<longrightarrow> broker_ok w') \<and> br_idle_timeout_seconds w' = br_idle_timeout_seconds w"
  proof (cases rule: outside_bnd_run)
    case (stop e)
    then show ?thesis
      using own_eq(1,2) [of w' w] by (simp add: own_def)
  next
    case (go x w1)
    then show ?thesis
      using finishingD [OF assms(2) go(4) \<open>r \<noteq> Panic\<close>] own_eq(1,2) [of w1 w] by (auto simp: own_def)
  qed
qed

lemma used_moves:
  assumes "seq (require_unlocked E) (\<lambda>v. g v v) w = (r, w')" and "r \<noteq> Panic" and "broker_ok w"
    and "uses_secret cmd" and "\<And>v. finishing (g v)"
  shows "moves E cmd w r w'"
  using assms(1-3)
proof (cases rule: require_run)
  case locked
  then show ?thesis
    by (intro refused_moves)
next
  case (pass v)
  note fin = finishingD [OF assms(5) pass(4) assms(2)]
  obtain mfa i where "session_of v = Open mfa i"
    using pass(3) by (simp add: session_of_def)
  moreover have "broker_ok v"
    using pass(1) by (simp add: settled_def)
  ultimately have "moves E cmd v r w'"
    using fin session_step.used [OF assms(4)] session_step.refused
    by (cases "is_ok r") (auto intro!: movesI)
  then show ?thesis
    by (rule moves_after [OF pass(1)])
qed

lemma checkout_moves:
  assumes "cmd_checkout E request peer w = (r, w')" and "r \<noteq> Panic" and "broker_ok w"
  shows "moves E ''checkout'' w r w'"
  using assms(1) unfolding cmd_checkout_def
  by (rule used_moves [OF _ assms(2,3)])
    (simp add: uses_secret_def, intro finishing_bnd finishing_end outside_vault outside_on_err)

lemma materialize_moves:
  assumes "cmd_materialize E request peer w = (r, w')" and "r \<noteq> Panic" and "broker_ok w"
  shows "moves E ''materialize'' w r w'"
  using assms(1) unfolding cmd_materialize_def
  by (rule used_moves [OF _ assms(2,3)])
    (simp add: uses_secret_def, intro finishing_bnd finishing_end outside_vault outside_on_err)

lemma provider_http_moves:
  assumes "cmd_provider_http E request peer w = (r, w')" and "r \<noteq> Panic" and "broker_ok w"
  shows "moves E ''provider_http'' w r w'"
  using assms(1) unfolding cmd_provider_http_def
  by (rule used_moves [OF _ assms(2,3)])
    (simp add: uses_secret_def, intro finishing_bnd finishing_end outside_vault outside_on_err)

lemma outside_validate_mfa: "outside (validate_mfa E code)"
proof -
  have "outside (on_err BVault (verify_totp_mfa E p code))" for p
    by (intro outside_on_err outside_vault)
  then show ?thesis
    unfolding outside_def validate_mfa_def by blast
qed

text \<open>A second factor accepted: the flag is set in an open session, and the time noted.\<close>

lemma mfa_verify_moves:
  assumes "cmd_mfa_verify E request w = (r, w')" and "r \<noteq> Panic" and "broker_ok w"
  shows "moves E ''mfa_verify'' w r w'"
  using assms(1) [unfolded cmd_mfa_verify_def] assms(2,3)
proof (cases rule: require_run)
  case locked
  then show ?thesis
    by (intro refused_moves)
next
  case (pass v)
  let ?finish = "seq (update (\<lambda>w. w\<lparr>br_mfa_verified := True\<rparr>)) (seq (mark_activity E)
     (ret (to_value [(''ok'', JBool True), (''unlocked'', JBool True), (''mfa_verified'', JBool True)])))"
  let ?m = "bnd (lift_r (str_field request ''mfa_code'')) (validate_mfa E)"
  have m: "outside ?m"
    by (intro outside_bnd outside_basic outside_validate_mfa)
  have ok: "broker_ok v"
    using pass(1) by (simp add: settled_def)
  have "bnd ?m (\<lambda>_. ?finish) v = (r, w')"
    using pass(4) by (cases "str_field request ''mfa_code''") (simp_all add: seq_def bnd_def lift_r_def)
  then have "moves E ''mfa_verify'' v r w'"
    using m assms(2)
  proof (cases rule: outside_bnd_run)
    case (stop e)
    then show ?thesis
      using ok by (intro refused_moves [OF settled_own])
  next
    case (go x w1)
    then have open1: "br_unlocked w1" "broker_ok w1"
      using pass(3) ok own_eq [of w1 v] by simp_all
    have r: "is_ok r" and w': "w' = w1\<lparr>tick := Suc (tick w1), br_mfa_verified := True,
        br_last_activity := Some (e_clock E (tick w1))\<rparr>"
      using go(4) by (auto simp: seq_def bnd_def update_def mark_activity_run ret_def is_ok_def)
    have "session_step E (tick v) (tick w') ''mfa_verify'' (is_ok r) (session_of v) (session_of w')"
      using open1 r pass(3) own_eq(6) [OF go(2)] session_step.verified
      by (simp add: w' session_of_def)
    then show ?thesis
      using open1 go(2,3) by (intro movesI) (simp_all add: w' broker_ok_def own_def)
  qed
  then show ?thesis
    by (rule moves_after [OF pass(1)])
qed

lemma open_session_run:
  assumes "open_session E w = (r, w')"
  shows "is_ok r" "w' = w\<lparr>tick := tick w + 2, br_unlocked := True,
     br_broker_session_id := Some (e_uuid E (tick w)), br_last_activity := Some (e_clock E (tick w + 1))\<rparr>"
  using assms by (auto simp: open_session_def seq_def bnd_def update_def mark_activity_run new_uuid_def is_ok_def)

lemma open_session_moves:
  assumes "open_session E v = (r, w')" and "tick w \<le> tick v"
    and "br_idle_timeout_seconds v = br_idle_timeout_seconds w"
  shows "moves E ''unlock'' w r w'"
proof -
  note w' = open_session_run [OF assms(1)]
  have "session_step E (tick w) (tick w') ''unlock'' True (session_of w) (Open (br_mfa_verified v) (e_uuid E (tick v)))"
    using assms(2) by (intro session_step.opened) (simp_all add: w')
  then show ?thesis
    using assms(2,3) w'(1) by (intro movesI) (simp_all add: w'(2) session_of_def broker_ok_def opt_or_def)
qed

text \<open>Unlocking, with every refusal; a wrong second factor leaves an open session open without it.\<close>

lemma unlock_moves:
  assumes "cmd_unlock E request w = (r, w')" and "r \<noteq> Panic" and "broker_ok w"
  shows "moves E ''unlock'' w r w'"
proof -
  let ?pw = "get_as dec_str ''passphrase'' request"
  have "bnd (validate_unlock E ?pw) (\<lambda>_. seq (update (\<lambda>w. w\<lparr>br_mfa_verified := False, br_unlocked_passphrase := ?pw\<rparr>))
      (case get_as dec_str ''mfa_code'' request of
         None \<Rightarrow> open_session E
       | Some code \<Rightarrow>
           handle (validate_mfa E code)
             (\<lambda>_. seq (update (\<lambda>w. w\<lparr>br_mfa_verified := True\<rparr>)) (open_session E))
             (\<lambda>err. seq (update (\<lambda>w. w\<lparr>br_unlocked_passphrase := None\<rparr>)) (fail err)))) w = (r, w')"
    using assms(1) by (simp add: cmd_unlock_def seq_def Let_def)
  then show ?thesis
    using outside_vault(4) assms(2)
  proof (cases rule: outside_bnd_run)
    case (stop e)
    then show ?thesis
      using assms(3) by (intro refused_moves [OF settled_own])
  next
    case (go x w1)
    let ?w2 = "w1\<lparr>br_mfa_verified := False, br_unlocked_passphrase := ?pw\<rparr>"
    have idle: "br_idle_timeout_seconds ?w2 = br_idle_timeout_seconds w"
      using go(2) by (simp add: own_def)
    show ?thesis
    proof (cases "get_as dec_str ''mfa_code'' request")
      case None
      then have "open_session E ?w2 = (r, w')"
        using go(4) by (simp add: seq_def bnd_def update_def)
      then show ?thesis
        by (rule open_session_moves) (use go(3) idle in simp_all)
    next
      case (Some code)
      obtain r1 w3 where v: "validate_mfa E code ?w2 = (r1, w3)"
        by fastforce
      have o3: "own w3 = own ?w2" "tick w \<le> tick w3"
        using outsideD [OF outside_validate_mfa v] go(3) by simp_all
      show ?thesis
      proof (cases r1)
        case (Ok u)
        then have "open_session E (w3\<lparr>br_mfa_verified := True\<rparr>) = (r, w')"
          using go(4) v Some by (simp add: seq_def bnd_def update_def handle_def)
        then show ?thesis
          by (rule open_session_moves) (use o3 idle in \<open>simp_all add: own_def\<close>)
      next
        case (Err e)
        then have end_state: "r = Err e" "w' = w3\<lparr>br_unlocked_passphrase := None\<rparr>"
          using go(4) v Some by (simp_all add: seq_def bnd_def update_def handle_def fail_def)
        have fields: "br_unlocked w' = br_unlocked w" "br_broker_session_id w' = br_broker_session_id w"
            "br_last_activity w' = br_last_activity w" "\<not> br_mfa_verified w'" "br_unlocked_passphrase w' = None"
            "br_idle_timeout_seconds w' = br_idle_timeout_seconds w" "tick w \<le> tick w'"
          using o3 go(2) by (simp_all add: end_state(2) own_def)
        have ok: "broker_ok w'"
          using assms(3) fields by (simp add: broker_ok_def)
        have "session_step E (tick w) (tick w') ''unlock'' False (session_of w) (session_of w')"
          using fields(1,2,4) session_step.bad_code session_step.refused by (simp add: session_of_def)
        then show ?thesis
          using ok fields(6,7) by (intro movesI) (simp_all add: end_state(1) is_ok_def)
      qed (use go(4) v Some assms(2) in \<open>simp add: seq_def bnd_def update_def handle_def\<close>)
    qed
  qed
qed

lemma lock_moves: "cmd_lock w = (r, w') \<Longrightarrow> moves E ''lock'' w r w'"
  using session_step.closed
  by (auto intro!: movesI simp: cmd_lock_def seq_def bnd_def update_def ret_def is_ok_def)

lemma status_moves: "cmd_status w = (r, w') \<Longrightarrow> broker_ok w \<Longrightarrow> moves E ''status'' w r w'"
  using session_step.shown by (auto intro!: movesI simp: cmd_status_def is_ok_def)

lemma command_moves:
  assumes "run_command E cmd request peer w = (r, w')" and "r \<noteq> Panic" and "broker_ok w"
  shows "moves E cmd w r w'"
proof -
  have unknown: "moves E cmd w r w'" if "fail (UnknownCommand cmd) w = (r, w')"
    using that by (intro refused_moves [OF settled_own [OF assms(3)], of _ _ "UnknownCommand cmd"]) (simp_all add: fail_def)
  show ?thesis
    using assms(1) unfolding run_command_def
    by (auto split: if_splits intro: unknown status_moves [OF _ assms(3)] lock_moves
        unlock_moves [OF _ assms(2,3)] mfa_verify_moves [OF _ assms(2,3)] checkout_moves [OF _ assms(2,3)]
        materialize_moves [OF _ assms(2,3)] provider_http_moves [OF _ assms(2,3)])
qed

section \<open>Connections\<close>

text \<open>The command a line asks for, if it is a JSON object with one.\<close>

definition command_of :: "env \<Rightarrow> string option \<Rightarrow> string option" where
  "command_of E line = Option.bind line (\<lambda>l. Option.bind (e_json_parse E (trim_end l)) (get_as dec_str ''command''))"

lemma connection_moves:
  assumes "handle_connection E line creds w = (r, w')" and "r \<noteq> Panic" and "broker_ok w"
  shows "case command_of E line of
     Some cmd \<Rightarrow> moves E cmd w r w'
   | None \<Rightarrow> settled w w' \<and> (\<exists>e. r = Err e)"
proof (cases "expire_idle_unlock E w :: (unit, broker_error) result \<times> broker")
  case (Pair r1 v)
  have "r1 \<noteq> Panic"
    using assms(1,2) Pair by (auto simp: handle_connection_def seq_def bnd_def)
  note v = expire_settles [OF Pair this assms(3)]
  have ok: "broker_ok v"
    using v(2) by (simp add: settled_def)
  let ?rest = "\<lambda>request. bnd (peer_identity_of E creds) (\<lambda>peer.
     bnd (lift_r (str_field request ''command'')) (\<lambda>command. run_command E command request peer))"
  have rest: "bnd (lift_r (ok_or line BIo)) (\<lambda>l. bnd (lift_r (ok_or (e_json_parse E (trim_end l)) BJson)) ?rest) v
      = (r, w')"
    using assms(1) Pair v(1) by (simp add: handle_connection_def seq_def bnd_def [of "expire_idle_unlock E"])
  have stopped: ?thesis if "settled v w'" "r = Err e" "command_of E line = None" for e
  proof -
    have "settled w w'"
      using that(1) v(2) own_eq(1) [of w' v] by (auto simp: settled_def)
    then show ?thesis
      using that(2,3) by simp
  qed
  show ?thesis
  proof (cases "Option.bind line (\<lambda>l. e_json_parse E (trim_end l))")
    case None
    then have "r = Err BIo \<or> r = Err BJson" "w' = v" "command_of E line = None"
      using rest by (auto simp: command_of_def bnd_def lift_r_def ok_or_def split: option.splits)
    then show ?thesis
      using stopped settled_own [OF ok] by blast
  next
    case (Some request)
    then have run: "?rest request v = (r, w')" and cmd: "command_of E line = get_as dec_str ''command'' request"
      using rest by (auto simp: command_of_def bnd_def lift_r_def ok_or_def split: option.splits)
    from run outside_vault(6) assms(2) show ?thesis
    proof (cases rule: outside_bnd_run)
      case (stop e)
      then have "settled v w'"
        using ok by (intro settled_own)
      then show ?thesis
        using stop(1) stopped moves_after [OF v(2) refused_moves] by (cases "command_of E line") simp_all
    next
      case (go peer w1)
      have w1: "settled v w1" "broker_ok w1"
        using settled_own [OF ok go(2,3)] by (simp_all add: settled_def)
      show ?thesis
      proof (cases "get_as dec_str ''command'' request")
        case None
        then have "r = Err (MissingField ''command'')" "w' = w1"
          using go(4) by (simp_all add: str_field_def bnd_def lift_r_def ok_or_def)
        then show ?thesis
          using stopped w1(1) cmd None by simp
      next
        case (Some c)
        then have "run_command E c request peer w1 = (r, w')"
          using go(4) by (simp add: str_field_def bnd_def lift_r_def ok_or_def)
        then have "moves E c w r w'"
          using command_moves [OF _ assms(2) w1(2)] moves_after [OF v(2)] moves_after [OF w1(1)] by blast
        then show ?thesis
          using cmd Some by simp
      qed
    qed
  qed
qed

end
