(* ===== verification/Broker_Safety.thy ===== *)
theory Broker_Safety
  imports Broker_Session
begin

text \<open>
  What the broker promises: its connections follow the session automaton, a closed session gives
  nothing away, and a ticket checked out in one session is worthless in the next. The runs interleave
  connections with everything else that touches the shared state: other processes on the database and
  the gateway thread noting its activity.
\<close>

section \<open>Runs of the broker\<close>

definition call_of :: "env \<Rightarrow> string option \<Rightarrow> (json, broker_error) result \<Rightarrow> string option \<times> bool" where
  "call_of E line r = (command_of E line, is_ok r)"

inductive broker_run :: "env \<Rightarrow> broker \<Rightarrow> (string option \<times> bool) list \<Rightarrow> broker \<Rightarrow> bool" for E w where
  start: "broker_run E w [] w"
| connection: "broker_run E w calls v \<Longrightarrow> handle_connection E line creds v = (r, v') \<Longrightarrow> r \<noteq> Panic \<Longrightarrow>
     broker_run E w (calls @ [call_of E line r]) v'"
| others: "broker_run E w calls v \<Longrightarrow> own v' = own v \<Longrightarrow> tick v \<le> tick v' \<Longrightarrow> broker_run E w calls v'"
| gateway: "broker_run E w calls v \<Longrightarrow>
     broker_run E w calls (v\<lparr>tick := Suc (tick v), br_last_activity := Some (e_clock E (tick v))\<rparr>)"

text \<open>Session identifiers come from the identifier generator, in order.\<close>

definition session_past :: "env \<Rightarrow> broker \<Rightarrow> bool" where
  "session_past E w \<longleftrightarrow> (\<forall>i. br_broker_session_id w = Some i \<longrightarrow> (\<exists>m < tick w. i = e_uuid E m))"

lemma closed_no_id: "broker_ok w \<Longrightarrow> session_of w = Closed \<Longrightarrow> br_broker_session_id w = None"
  by (auto simp: broker_ok_def session_of_def split: if_splits)

lemma session_id_iff: "broker_ok w \<Longrightarrow> br_broker_session_id w = Some i \<longleftrightarrow> (\<exists>b. session_of w = Open b i)"
  by (cases "br_broker_session_id w") (auto simp: broker_ok_def session_of_def opt_or_def split: if_splits)

text \<open>The session after a connection: the one before, none, or a new one after an unlock.\<close>

lemma connection_session:
  assumes "handle_connection E line creds v = (r, v')" and "r \<noteq> Panic" and "broker_ok v"
  shows "broker_ok v'" and "tick v \<le> tick v'"
    and "br_broker_session_id v' = Some i \<Longrightarrow> call_of E line r = (Some ''unlock'', True) \<Longrightarrow>
      \<exists>m. tick v \<le> m \<and> m < tick v' \<and> i = e_uuid E m"
    and "call_of E line r = (Some ''lock'', True) \<Longrightarrow> br_broker_session_id v' = None"
    and "br_broker_session_id v' = Some i \<Longrightarrow> call_of E line r \<noteq> (Some ''unlock'', True) \<Longrightarrow>
      br_broker_session_id v = Some i"
proof -
  have cases: "settled v v' \<and> (\<exists>e. r = Err e) \<and> command_of E line = None \<or>
      (\<exists>cmd. command_of E line = Some cmd \<and> moves E cmd v r v')"
    using connection_moves [OF assms] by (auto split: option.splits)
  show ok: "broker_ok v'" "tick v \<le> tick v'"
    using cases by (auto simp: settled_def moves_def)
  have step: "\<exists>cmd s. command_of E line = Some cmd \<and> (s = session_of v \<or> s = Closed) \<and>
      session_step E (tick v) (tick v') cmd (is_ok r) s (session_of v') \<or>
      command_of E line = None \<and> (session_of v' = session_of v \<or> session_of v' = Closed)"
    using cases own_eq(1) [of v' v] unfolding settled_def moves_def by blast
  show "\<exists>m. tick v \<le> m \<and> m < tick v' \<and> i = e_uuid E m"
    if "br_broker_session_id v' = Some i" "call_of E line r = (Some ''unlock'', True)"
    using step that session_id_iff [OF ok(1)] by (auto simp: call_of_def uses_secret_def elim!: session_stepE)
  show "br_broker_session_id v' = None" if "call_of E line r = (Some ''lock'', True)"
    using step that closed_no_id [OF ok(1)] by (auto simp: call_of_def uses_secret_def elim!: session_stepE)
  show "br_broker_session_id v = Some i"
    if "br_broker_session_id v' = Some i" "call_of E line r \<noteq> (Some ''unlock'', True)"
    using step that session_id_iff [OF ok(1)] session_id_iff [OF assms(3)]
    by (auto simp: call_of_def elim!: session_stepE)
qed

text \<open>A run with a successful unlock or lock in it.\<close>

definition resets :: "(string option \<times> bool) list \<Rightarrow> bool" where
  "resets calls \<longleftrightarrow> (Some ''unlock'', True) \<in> set calls \<or> (Some ''lock'', True) \<in> set calls"

lemma run_sessions:
  assumes "broker_run E w calls v" and "broker_ok w"
  shows "broker_ok v \<and> tick w \<le> tick v \<and>
    (\<forall>i. br_broker_session_id v = Some i \<longrightarrow>
       (if resets calls then \<exists>m. tick w \<le> m \<and> m < tick v \<and> i = e_uuid E m
        else br_broker_session_id w = Some i))"
  using assms
proof induction
  case (connection calls v line creds r v')
  note IH = connection.IH [OF connection.prems]
  note c = connection_session [OF connection.hyps(2,3) conjunct1 [OF IH]]
  show ?case
  proof (intro conjI allI impI)
    show "broker_ok v'" "tick w \<le> tick v'"
      using IH c(1,2) by auto
    fix i assume i: "br_broker_session_id v' = Some i"
    show "if resets (calls @ [call_of E line r])
        then \<exists>m. tick w \<le> m \<and> m < tick v' \<and> i = e_uuid E m else br_broker_session_id w = Some i"
    proof (cases "call_of E line r = (Some ''unlock'', True)")
      case True
      then show ?thesis
        using c(3) [OF i True] IH by (auto simp: resets_def intro: order_trans)
    next
      case False
      have "call_of E line r \<noteq> (Some ''lock'', True)"
        using c(4) i by auto
      then have "resets (calls @ [call_of E line r]) = resets calls"
        using False by (auto simp: resets_def)
      then show ?thesis
        using c(2) c(5) [OF i False] IH by (auto intro: order_less_le_trans split: if_splits)
    qed
  qed
next
  case (others calls v v')
  then show ?case
    using own_eq(2,6) [of v' v] by (auto split: if_splits) (metis order_less_le_trans)
next
  case (gateway calls v)
  then show ?case
    by (auto simp: broker_ok_def split: if_splits) (metis less_SucI)+
qed (simp_all add: resets_def)

section \<open>Refusals\<close>

text \<open>What a command that needs an open session answers when there is none.\<close>

lemma require_refuses:
  assumes "\<not> br_unlocked w"
  shows "seq (require_unlocked E) f w = (Err Locked, w)"
  using assms by (simp add: require_unlocked_def seq_def bnd_def expire_eq)

definition needs_session :: "string \<Rightarrow> bool" where
  "needs_session cmd \<longleftrightarrow> uses_secret cmd \<or> cmd = ''mfa_verify''"

lemma locked_command:
  assumes "\<not> br_unlocked w" and "needs_session cmd"
  shows "run_command E cmd request peer w = (Err Locked, w)"
  using assms by (auto simp: run_command_def needs_session_def uses_secret_def cmd_checkout_def
      cmd_materialize_def cmd_provider_http_def cmd_mfa_verify_def require_refuses)

lemma peer_identity_run:
  fixes w :: "'z world_scheme"
  assumes "creds \<noteq> None"
  shows "\<exists>peer n. peer_identity_of E creds w = (Ok peer, w\<lparr>tick := n\<rparr>)"
proof -
  obtain pid uid gid where c: "creds = Some (pid, uid, gid)"
    using assms by (cases creds) auto
  have runs: "\<exists>x n. linux_process_identity E pid w = (Ok x :: (_, broker_error) result, w\<lparr>tick := n\<rparr>)"
    by (simp add: linux_process_identity_def read_host_link_def read_host_file_def bnd_def ret_def Let_def
        split: option.split) blast
  then obtain x y z n where "linux_process_identity E pid w = (Ok (x, y, z) :: (_, broker_error) result, w\<lparr>tick := n\<rparr>)"
    by auto
  then show ?thesis
    by (simp add: c peer_identity_of_def bnd_def ret_def) blast
qed

lemma connection_run:
  assumes "seq (expire_idle_unlock E) (ret ()) w = (Ok (), v)" and "creds \<noteq> None"
    and "e_json_parse E (trim_end l) = Some request" and "get_as dec_str ''command'' request = Some cmd"
  shows "\<exists>peer n. handle_connection E (Some l) creds w = run_command E cmd request peer (v\<lparr>tick := n\<rparr>)"
proof -
  obtain peer n where peer: "(peer_identity_of E creds :: (broker, _, _) act) v = (Ok peer, v\<lparr>tick := n\<rparr>)"
    using peer_identity_run [OF assms(2), of E v] by blast
  have "expire_idle_unlock E w = ((Ok (), v) :: (unit, broker_error) result \<times> broker)"
    using assms(1) by (auto simp: seq_Ok_iff ret_def expire_eq Let_def split: if_splits)
  then show ?thesis
    using assms(3,4) peer
    by (intro exI [of _ peer] exI [of _ n]) (simp add: handle_connection_def seq_def bnd_def lift_r_def ok_or_def str_field_def)
qed

section \<open>Tickets and sessions\<close>

lemma issue_ticket_session:
  assumes "issue_ticket E r p w = (Ok t, w')"
  shows "tk_broker_session_id t = rq_broker_session_id r"
  using assms
  by (auto simp: issue_ticket_def bnd_Ok_iff seq_Ok_iff Let_def issue_Ok_iff fail_def ret_def
      split: if_splits option.splits)

lemma access_request_session:
  assumes "access_request_of E v peer raw mfa sid w = (Ok access, w')"
  shows "rq_broker_session_id access = sid"
  using assms by (auto simp: access_request_of_def bnd_Ok_iff)

text \<open>A successful checkout hands out a ticket of the current session.\<close>

lemma checkout_session:
  assumes "cmd_checkout E request peer w = (Ok v, w')" and "broker_ok w"
  shows "\<exists>t i. jget ''ticket'' v = Some (enc_ticket t) \<and> tk_broker_session_id t = Some i \<and>
    br_broker_session_id w' = Some i"
proof -
  have "Ok v \<noteq> Panic"
    by simp
  from assms(1) [unfolded cmd_checkout_def] this assms(2) obtain u where
      pass: "settled w u" "own u = own w" "br_unlocked u"
        "bnd (access_request_of E request peer False (br_mfa_verified u) (br_broker_session_id u)) (\<lambda>access.
         bnd (on_err BVault (issue_ticket E access (the_passphrase u))) (\<lambda>ticket.
         seq (mark_activity E)
         (ret (to_value [(''ok'', JBool True), (''ticket'', enc_ticket ticket), (''peer'', enc_peer peer)])))) u = (Ok v, w')"
    by (cases rule: require_run) auto
  obtain access u1 ticket u2 where run: "access_request_of E request peer False (br_mfa_verified u)
      (br_broker_session_id u) u = (Ok access, u1)"
      "on_err BVault (issue_ticket E access (the_passphrase u)) u1 = (Ok ticket, u2)"
      "seq (mark_activity E) (ret (to_value [(''ok'', JBool True), (''ticket'', enc_ticket ticket), (''peer'', enc_peer peer)])) u2
        = (Ok v :: (json, broker_error) result, w')"
    using pass(4) unfolding bnd_Ok_iff by (elim exE conjE) (rule that, assumption+)
  have "own u2 = own u"
    using outsideD [OF outside_vault(5) run(1)] outsideD [OF outside_on_err [OF outside_vault(1)] run(2)] by simp
  then have sid: "br_broker_session_id w' = br_broker_session_id u"
    using run(3) own_eq(6) [of u2 u] by (auto simp: seq_def bnd_def mark_activity_run ret_def)
  moreover have "tk_broker_session_id ticket = br_broker_session_id u"
    using run(2) issue_ticket_session access_request_session [OF run(1)] by (fastforce simp: on_err_Ok_iff)
  moreover have "br_broker_session_id u \<noteq> None"
    using pass(1,3) by (simp add: settled_def broker_ok_def)
  moreover have "jget ''ticket'' v = Some (enc_ticket ticket)"
    using run(3) by (auto simp: seq_def bnd_def mark_activity_run ret_def jget_def to_value_def map_of_build_distinct)
  ultimately show ?thesis
    by auto
qed

lemma broker_new_ok: "broker_ok (broker_new q v0)"
  by (simp add: broker_ok_def broker_new_def world.extend_def broker.fields_def)

lemma connection_command:
  assumes "handle_connection E line creds w = (Ok v, w')" and "broker_ok w"
  shows "\<exists>cmd request peer u. command_of E line = Some cmd \<and> broker_ok u \<and>
    run_command E cmd request peer u = (Ok v, w')"
proof -
  obtain u1 l request peer u cmd where run: "expire_idle_unlock E w = (Ok () :: (unit, broker_error) result, u1)"
      "line = Some l" "e_json_parse E (trim_end l) = Some request"
      "(peer_identity_of E creds :: (broker, _, _) act) u1 = (Ok peer, u)"
      "str_field request ''command'' = Ok cmd" "run_command E cmd request peer u = (Ok v, w')"
    using assms(1) unfolding handle_connection_def seq_Ok_iff bnd_Ok_iff lift_r_Ok_iff
    by (auto simp: ok_or_def split: option.splits)
  have "broker_ok u1"
    using expire_settles [OF run(1) _ assms(2)] by (simp add: settled_def)
  then have "broker_ok u"
    using outsideD [OF outside_vault(6) run(4)] own_eq(2) [of u u1] by simp
  moreover have "command_of E line = Some cmd"
    using run(2,3,5) by (auto simp: command_of_def str_field_def ok_or_def split: option.splits)
  ultimately show ?thesis
    using run(6) by blast
qed

section \<open>Properties\<close>

text \<open>
  C3: the broker refines the session automaton: whatever a connection sends, and however the vault
  answers, the broker moves along an edge that the command and its success allow. Only a successful
  unlock opens a session, under a fresh identifier; only an accepted second factor sets the flag; only
  an open session gets a secret used; and before the command the session may have timed out.
\<close>

theorem broker_refines_session:
  assumes "broker_ok w" and "handle_connection E line creds w = (r, w')" and "r \<noteq> Panic"
  shows "broker_ok w' \<and>
    (\<exists>s. (s = session_of w \<or> s = Closed \<and> 0 < br_idle_timeout_seconds w) \<and>
      (case command_of E line of
         None \<Rightarrow> \<not> is_ok r \<and> session_of w' = s
       | Some cmd \<Rightarrow> session_step E (tick w) (tick w') cmd (is_ok r) s (session_of w')))"
proof (cases "command_of E line")
  case None
  then have "settled w w'" "\<not> is_ok r"
    using connection_moves [OF assms(2,3,1)] by (auto simp: is_ok_def)
  then show ?thesis
    using None own_eq(1) [of w' w] by (auto simp: settled_def)
next
  case (Some cmd)
  then have "moves E cmd w r w'"
    using connection_moves [OF assms(2,3,1)] by simp
  then show ?thesis
    using Some by (auto simp: moves_def)
qed

text \<open>
  C10: a locked broker gives nothing away: with no open session, or one that has been idle too long,
  every command that would use a secret or a second factor is answered \<open>Locked\<close>, and neither the vault
  nor anything else but the expired session's own fields is touched.
\<close>

theorem locked_broker_refuses:
  assumes "\<not> br_unlocked w \<or> timed_out E w \<and> seconds_fit (br_idle_timeout_seconds w)"
    and "command_of E (Some l) = Some cmd" and "needs_session cmd" and "creds \<noteq> None"
  shows "\<exists>n. handle_connection E (Some l) creds w =
    (Err Locked, (if br_unlocked w then forget_unlock w else w)\<lparr>tick := n\<rparr>)"
proof -
  obtain request where request: "e_json_parse E (trim_end l) = Some request" "get_as dec_str ''command'' request = Some cmd"
    using assms(2) by (auto simp: command_of_def bind_eq_Some_conv)
  let ?u = "if br_unlocked w then forget_unlock w else w"
  obtain k where k: "seq (expire_idle_unlock E) (ret ()) w = ((Ok (), ?u\<lparr>tick := k\<rparr>) :: (unit, unit) result \<times> broker)"
  proof (cases "br_unlocked w")
    case True
    then have "timed_out E w" "seconds_fit (br_idle_timeout_seconds w)"
      using assms(1) by simp_all
    then show thesis
      using that [of "Suc (tick w)"] True
      by (auto simp: seq_def bnd_def ret_def expire_eq timed_out_def Let_def forget_unlock_def)
  next
    case False
    then show thesis
      using that [of "tick w"] by (simp add: seq_def bnd_def ret_def expire_eq)
  qed
  obtain peer n where "handle_connection E (Some l) creds w = run_command E cmd request peer (?u\<lparr>tick := k\<rparr>\<lparr>tick := n\<rparr>)"
    using connection_run [OF k assms(4) request] by blast
  moreover have "\<not> br_unlocked (?u\<lparr>tick := k\<rparr>\<lparr>tick := n\<rparr>)"
    by (simp add: forget_unlock_def)
  ultimately show ?thesis
    using locked_command [OF _ assms(3)] by (intro exI [of _ n]) simp
qed

text \<open>
  C4: a ticket dies with its session. The ticket that a checkout returns is refused, by every key and
  at every time, for a request under the session the broker has after a later lock or unlock, however
  many connections, other processes and gateway calls came between.
\<close>

theorem ticket_dies_with_session:
  assumes "fresh_ok E" and "broker_run E (broker_new q v0) calls0 w0"
    and "handle_connection E line creds w0 = (Ok v, w1)" and "command_of E line = Some ''checkout''"
    and "jget ''ticket'' v = Some (enc_ticket t)"
    and "broker_run E w1 calls w2"
    and "(Some ''unlock'', True) \<in> set calls \<or> (Some ''lock'', True) \<in> set calls"
    and "rq_broker_session_id r = br_broker_session_id w2"
  shows "\<not> is_ok (consume E k t r time)"
proof
  assume "is_ok (consume E k t r time)"
  then obtain t' where "consume E k t r time = Ok t'"
    by (auto simp: is_ok_iff)
  then have same: "tk_broker_session_id t = None \<or> tk_broker_session_id t = br_broker_session_id w2"
    using assms(8) by (simp add: consume_Ok_iff context_matches_def)
  have w0: "broker_ok w0"
    using run_sessions [OF assms(2) broker_new_ok] by simp
  obtain request peer u where "cmd_checkout E request peer u = (Ok v, w1)" "broker_ok u"
    using connection_command [OF assms(3) w0] assms(4) by (auto simp: run_command_def)
  from checkout_session [OF this] obtain i where i: "tk_broker_session_id t = Some i" "br_broker_session_id w1 = Some i"
    using assms(5) by (auto simp: ticket_codec.enc_inject)
  have run1: "broker_run E (broker_new q v0) (calls0 @ [call_of E line (Ok v)]) w1"
    using broker_run.connection [OF assms(2,3)] by simp
  have new: "br_broker_session_id (broker_new q v0) = None"
    by (simp add: broker_new_def world.extend_def broker.fields_def)
  obtain m where m: "m < tick w1" "i = e_uuid E m"
    using run_sessions [OF run1 broker_new_ok] i(2) new by (auto split: if_splits)
  have "\<exists>m'. tick w1 \<le> m' \<and> i = e_uuid E m'"
  proof -
    have "broker_ok w1"
      using run_sessions [OF run1 broker_new_ok] by simp
    then have "\<forall>j. br_broker_session_id w2 = Some j \<longrightarrow> (\<exists>m. tick w1 \<le> m \<and> m < tick w2 \<and> j = e_uuid E m)"
      using run_sessions [OF assms(6)] assms(7) by (simp add: resets_def)
    moreover have "br_broker_session_id w2 = Some i"
      using same i(1) by auto
    ultimately show ?thesis
      by blast
  qed
  then show False
    using m assms(1) by (auto simp: fresh_ok_def inj_eq)
qed

end
