(* ===== verification/Broker_Example.thy ===== *)
theory Broker_Example
  imports Broker_Safety
begin

text \<open>
  A broker on the example vault: a connection unlocks it, one checks out a ticket for the stored
  secret, one locks it again. The examples beside the broker's properties are these connections.
\<close>

section \<open>Successful commands\<close>

text \<open>Unlocking a vault in good order with its passphrase.\<close>

lemma verify_audit_run:
  fixes w :: "'z world_scheme"
  assumes "sound_env E" and "good E p h keys w" and "opens_to E (Some p) k w" and "log_verifies E k w"
  shows "verify_audit E p w = (Ok (), w\<lparr>tick := tick w + 2\<rparr>)"
proof -
  obtain evs where evs: "stored_log E evs (db_audit w)" "verify_audit_chain E evs k = Ok ()"
    using assms(4) by (auto simp: log_verifies_def)
  have key: "(audit_integrity_key E keys :: (bytes, vault_error) result) = Ok k"
    using good_opens [OF assms(1,2)] assms(3) by blast
  have unl: "unlock E (Some p) w = (Ok (h, keys), w\<lparr>tick := Suc (tick w)\<rparr>)"
    by (rule good_unlock [OF assms(1,2)])
  have rows: "list_audit_events E (w\<lparr>tick := Suc (tick w)\<rparr>) = (Ok evs, w\<lparr>tick := tick w + 2\<rparr>)"
    using parse_log [OF sound_envD(1) [OF assms(1)] evs(1)] sound_envD(8) [OF assms(1)]
    by (simp add: list_audit_events_def)
  show ?thesis
    using evs(2) unfolding verify_audit_def bnd_step [where m = "unlock E (Some p)", OF unl]
    by (simp add: on_err_def bnd_def rows key lift_r_def)
qed

lemma unlock_run:
  assumes "sound_env E" and "good E p h keys w" and "opens_to E (Some p) k w" and "log_verifies E k w"
    and "get_as dec_str ''passphrase'' request = Some p" and "get_as dec_str ''mfa_code'' request = None"
  shows "\<exists>v. cmd_unlock E request w = (Ok v, w\<lparr>tick := tick w + 5, br_unlocked_passphrase := Some p,
     br_unlocked := True, br_mfa_verified := False, br_broker_session_id := Some (e_uuid E (tick w + 3)),
     br_last_activity := Some (e_clock E (tick w + 4))\<rparr>)"
proof -
  obtain b where b: "vh_provider_binding h = enc_passphrase_binding b" "pb_provider_id b = passphrase_provider_id"
      and row: "map_of (db_metadata w) header_key = Some (e_json_print E (enc_header h))"
    using assms(2) by (auto simp: good_def)
  have st: "status E w = (Ok h, w\<lparr>tick := Suc (tick w)\<rparr>)"
    using load_header_stored [OF sound_envD(1) [OF assms(1)] passphrase_header_domain [OF b(1)] sound_envD(8) [OF assms(1)] row]
    by (simp add: status_def on_err_def)
  let ?w1 = "w\<lparr>tick := Suc (tick w)\<rparr>"
  have "good E p h keys ?w1" "opens_to E (Some p) k ?w1" "log_verifies E k ?w1"
    using assms(2-4) good_tick [of E p h keys w "Suc (tick w)"] tick_freeD [OF opens_to_tick_free assms(3)]
    by (simp_all add: log_verifies_def)
  from verify_audit_run [OF assms(1) this]
  have "verify_audit E p ?w1 = (Ok (), w\<lparr>tick := tick w + 3\<rparr>)"
    by simp
  then have "validate_unlock E (Some p) w = (Ok (), w\<lparr>tick := tick w + 3\<rparr>)"
    using b by (simp add: validate_unlock_def bnd_def on_err_def st get_as_def jget_def opt_or_def
        enc_passphrase_binding_def to_value_def map_of_build_distinct)
  then show ?thesis
    using assms(5,6)
    by (simp add: cmd_unlock_def Let_def seq_def bnd_def update_def open_session_def new_uuid_def mark_activity_run)
      (rule broker.equality, simp_all add: add.commute)
qed

text \<open>Checking out a ticket that a policy permits, in an open session without an idle limit.\<close>

lemma checkout_run:
  assumes "sound_env E" and "good E p h keys w" and "br_unlocked w" and "br_idle_timeout_seconds w \<le> 0"
    and "the_passphrase w = p"
    and "access_request_of E request peer False (br_mfa_verified w) (br_broker_session_id w) w
      = (Ok r, w\<lparr>tick := Suc (tick w)\<rparr>)"
    and "current E keys w (rq_secret_ref r) v rc pt" and "policies_in E w ps"
    and "find (\<lambda>pol. permits pol r) ps = Some pol"
    and "e_time_add E (rq_now r) (sint (ap_max_ticket_ttl_seconds pol)) = Some x"
  shows "\<exists>t w'. cmd_checkout E request peer w = (Ok (to_value [(''ok'', JBool True), (''ticket'', enc_ticket t),
     (''peer'', enc_peer peer)]), w')"
proof -
  let ?w1 = "w\<lparr>tick := Suc (tick w)\<rparr>"
  have "good E p h keys ?w1" "current E keys ?w1 (rq_secret_ref r) v rc pt" "policies_in E ?w1 ps"
    using good_tick [OF assms(2)] assms(7,8) current_frame [of ?w1 w] by (simp_all add: policies_in_def)
  from issue_ticket_run [OF assms(1) this assms(9,10)]
  obtain t w2 where "issue_ticket E r p ?w1 = (Ok t, w2)"
    by (elim exE conjE) (rule that)
  moreover have "require_unlocked E w = (Ok (), w)"
    using assms(3,4) by (simp add: require_unlocked_def seq_def bnd_def expire_eq)
  ultimately show ?thesis
    using assms(5,6)
    by (intro exI) (simp add: cmd_checkout_def seq_def bnd_def on_err_def mark_activity_run ret_def)
qed

section \<open>Lines\<close>

lemma ends_in_bracket: "trim_end (s @ '']'') = s @ '']''"
proof -
  have "\<not> suffix q (s @ '']'')" if "q \<in> set ws_seqs" for q
  proof
    assume "suffix q (s @ '']'')"
    then have "q = [] \<or> last q = CHR '']''"
      by (metis last_appendR last_snoc suffix_def)
    then show False
      using that by (auto simp: ws_seqs_def ws_codes_def char_of_eq_iff)
  qed
  then have "find (\<lambda>q. suffix q (s @ '']'')) ws_seqs = None"
    unfolding find_None_iff by blast
  then have "ws_last (s @ '']'') = 0"
    by (simp add: ws_last_def)
  then show ?thesis
    by (simp add: trim_end.simps [of "s @ '']''"])
qed

lemma sample_line:
  assumes "json_wf (JObj m)"
  shows "e_json_parse sample_env (trim_end (pr (JObj m))) = Some (JObj m)"
proof -
  have "trim_end (pr (JObj m)) = pr (JObj m)"
    using ends_in_bracket [of "CHR ''o'' # concat (map (\<lambda>f. CHR '','' # str_code (fst f) @ pr (snd f)) m)"] by simp
  then show ?thesis
    using json_parse_print [OF sample_ok(4) assms] by (simp add: sample_env_def)
qed

definition sample_creds :: "(int \<times> u32 \<times> u32) option" where
  "sample_creds = Some (7, 1000, 1000)"

definition sample_peer :: peer_identity where
  "sample_peer = \<lparr>pi_pid = 7, pi_uid = 1000, pi_gid = 1000, pi_exe_path = None, pi_comm = None, pi_exe_sha256 = None\<rparr>"

lemma sample_peer_run:
  "peer_identity_of sample_env sample_creds w = (Ok sample_peer :: (_, broker_error) result, w\<lparr>tick := tick w + 2\<rparr>)"
  by (simp add: peer_identity_of_def sample_creds_def sample_peer_def linux_process_identity_def read_host_link_def
      read_host_file_def bnd_def ret_def sample_env_def sample_host_def)

lemma sample_connection:
  assumes "json_wf (JObj m)" and "get_as dec_str ''command'' (JObj m) = Some cmd"
    and "\<not> br_unlocked w \<or> br_idle_timeout_seconds w \<le> 0"
  shows "handle_connection sample_env (Some (pr (JObj m))) sample_creds w
    = run_command sample_env cmd (JObj m) sample_peer (w\<lparr>tick := tick w + 2\<rparr>)"
    and "command_of sample_env (Some (pr (JObj m))) = Some cmd"
  using assms sample_line [OF assms(1)]
  by (auto simp: handle_connection_def command_of_def seq_def bnd_def expire_eq lift_r_def ok_or_def sample_peer_run str_field_def)

section \<open>The example broker\<close>

lemma good_extend [simp]:
  "good E p h keys (broker_new q v) = good E p h keys v"
  "log_verifies E k (broker_new q v) = log_verifies E k v"
  "current E keys (broker_new q v) rf ver rc pt = current E keys v rf ver rc pt"
  "policies_in E (broker_new q v) ps = policies_in E v ps"
  by (simp_all add: good_def log_verifies_def current_def policies_in_def broker_new_def world.extend_def
      broker.fields_def max_version_def versions_def secret_at_def)

lemma sample_shop:
  assumes "stored_policy_domain sample_env pol"
  shows "\<exists>h keys (w :: world) ver rc k. good sample_env ''pw'' h keys w \<and>
     current sample_env keys w ''secret://app/db'' ver rc [1, 2] \<and> ver \<noteq> 0 \<and> policies_in sample_env w [pol] \<and>
     (audit_integrity_key sample_env keys :: (bytes, vault_error) result) = Ok k \<and> log_verifies sample_env k w \<and>
     tick w = 22"
proof -
  obtain h keys m a ps k where w: "let w = blank_world\<lparr>tick := 10, db_metadata := m, db_policies := ps, db_audit := a\<rparr> in
     good sample_env ''pw'' h keys w \<and> policies_in sample_env w [pol] \<and>
     map_of m plaintext_export_config_key = None \<and>
     opens_to sample_env (Some ''pw'') k w \<and> log_verifies sample_env k w"
    using sample_vault_on [OF blank_world assms] by (elim exE) (rule that)
  define w where "w = blank_world\<lparr>tick := 10, db_metadata := m, db_policies := ps, db_audit := a\<rparr>"
  have facts: "good sample_env ''pw'' h keys w" "policies_in sample_env w [pol]"
      "opens_to sample_env (Some ''pw'') k w" "log_verifies sample_env k w"
    using w by (simp_all add: w_def Let_def)
  have none: "max_version w ''secret://app/db'' = None"
    by (simp add: w_def max_version_def versions_def blank_world_def)
  have tick: "tick w + 12 = 22"
    by (simp add: w_def)
  obtain w1 rc where put: "put_secret sample_env ''secret://app/db'' [1, 2] ''pw'' ApiKey w
        = (Ok (opt_or (max_version w ''secret://app/db'') 0 + 1), w1)" "good sample_env ''pw'' h keys w1"
      "current sample_env keys w1 ''secret://app/db'' (opt_or (max_version w ''secret://app/db'') 0 + 1) rc [1, 2]"
      "db_policies w1 = db_policies w" "tick w1 = 22"
    using put_secret_run [OF sample_sound facts(1) sample_request_facts(3) first_version_fits [OF none]
        sample_request_facts(4), of ApiKey, unfolded tick]
    by (elim exE conjE) (rule that)
  have "vault_step sample_env (Some ''pw'') w (snd (put_secret sample_env ''secret://app/db'' [1, 2] ''pw'' ApiKey w))"
    by (rule vault_step.put)
  then have "vault_step sample_env (Some ''pw'') w w1"
    by (simp add: put(1))
  moreover have "log_inv sample_env k [] w"
    using facts(4) sample_ok(4) by (simp add: log_inv_def)
  ultimately have "log_verifies sample_env k w1"
    using step_keeps_log facts(3) by (fastforce simp: log_inv_def)
  moreover have "(audit_integrity_key sample_env keys :: (bytes, vault_error) result) = Ok k"
    using good_opens [OF sample_sound facts(1)] facts(3) by blast
  moreover have "policies_in sample_env w1 [pol]"
    using facts(2) put(4) by (simp add: policies_in_def)
  ultimately show ?thesis
    using put(2,3,5) none by (force simp: opt_or_def)
qed

definition unlock_request :: jmap where
  "unlock_request = [(''command'', JStr ''unlock''), (''passphrase'', JStr ''pw'')]"

definition checkout_request :: jmap where
  "checkout_request = [(''command'', JStr ''checkout''), (''secret_ref'', JStr ''secret://app/db''),
     (''consumer'', JStr ''worker''), (''purpose'', JStr ''query''), (''delivery_mode'', JStr ''brokered_operation'')]"

definition lock_request :: jmap where
  "lock_request = [(''command'', JStr ''lock'')]"

lemmas request_defs = unlock_request_def checkout_request_def lock_request_def get_as_def jget_def

lemma sample_checkout_request:
  "access_request_of sample_env (JObj checkout_request) sample_peer False mfa sid w
     = (Ok (sample_request\<lparr>rq_mfa_verified := mfa, rq_broker_session_id := sid,
          rq_now := int (tick w) * 10 ^ 9\<rparr>), w\<lparr>tick := Suc (tick w)\<rparr>)"
  by (simp add: access_request_of_def request_defs str_field_def ok_or_def lift_r_def bnd_def bind_r_def
      parse_delivery_mode_def now_def ret_def consumer_of_def opt_or_def sample_request_def sample_peer_def)

lemma sample_permits_any:
  "n \<le> 5000 \<Longrightarrow> permits sample_policy (sample_request\<lparr>rq_mfa_verified := mfa, rq_broker_session_id := sid,
     rq_now := int n * 10 ^ 9\<rparr>)"
  by (simp add: permits_def sample_policy_def sample_request_def lists_name_def peer_fact_ok_def
      export_permitted_def assurance_rank_def)

lemma vault_frame [simp]:
  "good E p h keys (w\<lparr>br_unlocked_passphrase := a\<rparr>) = good E p h keys w"
  "good E p h keys (w\<lparr>br_unlocked := b\<rparr>) = good E p h keys w"
  "good E p h keys (w\<lparr>br_mfa_verified := c\<rparr>) = good E p h keys w"
  "good E p h keys (w\<lparr>br_broker_session_id := d\<rparr>) = good E p h keys w"
  "good E p h keys (w\<lparr>br_last_activity := e\<rparr>) = good E p h keys w"
  by (simp_all add: good_def)

lemma sample_day:
  "\<exists>w0 v t w1 w2. broker_run sample_env (broker_new 0 (w0 :: world)) [(Some ''unlock'', True)] w1 \<and>
     handle_connection sample_env (Some (pr (JObj checkout_request))) sample_creds w1 = (Ok v, w2) \<and>
     command_of sample_env (Some (pr (JObj checkout_request))) = Some ''checkout'' \<and>
     jget ''ticket'' v = Some (enc_ticket t) \<and> br_idle_timeout_seconds w2 = 0"
proof -
  obtain h keys w ver rc k where w: "good sample_env ''pw'' h keys (w :: world)"
      "current sample_env keys w ''secret://app/db'' ver rc [1, 2]" "policies_in sample_env w [sample_policy]"
      "(audit_integrity_key sample_env keys :: (bytes, vault_error) result) = Ok k" "log_verifies sample_env k w"
      "tick w = 22"
    using sample_shop [OF sample_policy_domain] by (elim exE conjE) (rule that)
  let ?b = "broker_new 0 w"
  have b: "\<not> br_unlocked ?b" "br_idle_timeout_seconds ?b = 0" "tick ?b = 22" "db_secrets ?b = db_secrets w"
      "db_policies ?b = db_policies w"
    using w(6) by (simp_all add: broker_new_def world.extend_def broker.fields_def)
  have line: "json_wf (JObj unlock_request)" "get_as dec_str ''command'' (JObj unlock_request) = Some ''unlock''"
      "get_as dec_str ''passphrase'' (JObj unlock_request) = Some ''pw''"
      "get_as dec_str ''mfa_code'' (JObj unlock_request) = None"
      "json_wf (JObj checkout_request)" "get_as dec_str ''command'' (JObj checkout_request) = Some ''checkout''"
    by (simp_all add: request_defs)
  let ?b1 = "?b\<lparr>tick := tick ?b + 2\<rparr>"
  have good1: "good sample_env ''pw'' h keys ?b1"
    using w(1) good_tick [of sample_env "''pw''" h keys ?b "tick ?b + 2"] by (simp del: sample_simps)
  have "log_verifies sample_env k ?b1"
    using w(5) log_verifies_def [of sample_env k ?b1] log_verifies_def [of sample_env k ?b] good_extend(2) [of sample_env k 0 w]
    by (simp del: sample_simps good_extend)
  moreover have "opens_to sample_env (Some ''pw'') k ?b1"
    using good_opens [OF sample_sound good1] w(4) by blast
  ultimately obtain v where unl: "cmd_unlock sample_env (JObj unlock_request) ?b1 = (Ok v, ?b1\<lparr>tick := tick ?b1 + 5,
     br_unlocked_passphrase := Some ''pw'', br_unlocked := True, br_mfa_verified := False,
     br_broker_session_id := Some (e_uuid sample_env (tick ?b1 + 3)),
     br_last_activity := Some (e_clock sample_env (tick ?b1 + 4))\<rparr>)"
    using unlock_run [OF sample_sound good1 _ _ line(3,4)] by blast
  define b2 where "b2 = ?b1\<lparr>tick := tick ?b1 + 5,
     br_unlocked_passphrase := Some ''pw'', br_unlocked := True, br_mfa_verified := False,
     br_broker_session_id := Some (e_uuid sample_env (tick ?b1 + 3)),
     br_last_activity := Some (e_clock sample_env (tick ?b1 + 4))\<rparr>"
  have "handle_connection sample_env (Some (pr (JObj unlock_request))) sample_creds ?b = (Ok v, b2)"
    using sample_connection(1) [OF line(1,2), of ?b] b(1) unl by (simp add: run_command_def b2_def)
  from broker_run.connection [OF broker_run.start this]
  have run: "broker_run sample_env ?b [(Some ''unlock'', True)] b2"
    using sample_connection(2) [OF line(1,2), of ?b] b(1) by (simp add: call_of_def is_ok_def)
  let ?b3 = "b2\<lparr>tick := tick b2 + 2\<rparr>"
  have b3: "br_unlocked ?b3" "br_idle_timeout_seconds ?b3 \<le> 0" "the_passphrase ?b3 = ''pw''" "tick ?b3 = 31"
      "db_secrets ?b3 = db_secrets w" "db_policies ?b3 = db_policies w"
    by (simp_all add: b2_def b the_passphrase_def opt_or_def)
  have "good sample_env ''pw'' h keys b2"
    using good1 good_tick [of sample_env "''pw''" h keys ?b1 "tick ?b1 + 5"] by (simp add: b2_def del: sample_simps)
  have ok3: "broker_ok ?b3"
    by (simp add: broker_ok_def b2_def)
  from \<open>good sample_env ''pw'' h keys b2\<close> have good3: "good sample_env ''pw'' h keys ?b3"
    by (rule good_tick) simp
  let ?r = "sample_request\<lparr>rq_mfa_verified := br_mfa_verified ?b3, rq_broker_session_id := br_broker_session_id ?b3,
      rq_now := int (tick ?b3) * 10 ^ 9\<rparr>"
  have cur: "current sample_env keys ?b3 (rq_secret_ref ?r) ver rc [1, 2]"
    using w(2) b3(5) by (simp add: current_def max_version_def versions_def secret_at_def sample_request_def del: sample_simps)
  have ps: "policies_in sample_env ?b3 [sample_policy]"
    using w(3) b3(6) by (simp add: policies_in_def del: sample_simps)
  have found: "find (\<lambda>pol. permits pol ?r) [sample_policy] = Some sample_policy"
    using sample_permits_any [of "tick ?b3"] b3(4) by simp
  have later: "e_time_add sample_env (rq_now ?r) (sint (ap_max_ticket_ttl_seconds sample_policy))
      = Some (rq_now ?r + sint (ap_max_ticket_ttl_seconds sample_policy) * 10 ^ 9)"
    by simp
  from checkout_run [OF sample_sound good3 b3(1-3) sample_checkout_request cur ps found later]
  obtain t b4 where out: "cmd_checkout sample_env (JObj checkout_request) sample_peer ?b3
      = (Ok (to_value [(''ok'', JBool True), (''ticket'', enc_ticket t), (''peer'', enc_peer sample_peer)]), b4)"
    by blast
  then have "br_idle_timeout_seconds b4 = 0"
    using checkout_moves [OF out _ ok3] b3(2) by (simp add: moves_def b2_def b)
  moreover have "handle_connection sample_env (Some (pr (JObj checkout_request))) sample_creds b2
      = (Ok (to_value [(''ok'', JBool True), (''ticket'', enc_ticket t), (''peer'', enc_peer sample_peer)]), b4)"
    using out sample_connection(1) [OF line(5,6), of b2] b3(2) by (simp add: run_command_def)
  moreover have "jget ''ticket'' (to_value [(''ok'', JBool True), (''ticket'', enc_ticket t), (''peer'', enc_peer sample_peer)])
      = Some (enc_ticket t)"
    by (simp add: jget_def to_value_def map_of_build_distinct)
  ultimately show ?thesis
    using run sample_connection(2) [OF line(5,6), of b2] b3(2) by (intro exI conjI) simp_all
qed

section \<open>The properties on the example\<close>

lemma sample_refusal:
  "handle_connection sample_env (Some (pr (JObj checkout_request))) sample_creds (broker_new 0 blank_world)
     = (Err Locked, broker_new 0 blank_world\<lparr>tick := 2\<rparr>)"
  "command_of sample_env (Some (pr (JObj checkout_request))) = Some ''checkout''"
proof -
  have line: "json_wf (JObj checkout_request)" "get_as dec_str ''command'' (JObj checkout_request) = Some ''checkout''"
    by (simp_all add: request_defs)
  have b: "\<not> br_unlocked (broker_new 0 blank_world)" "tick (broker_new 0 blank_world) = 0"
    by (simp_all add: broker_new_def world.extend_def broker.fields_def blank_world_def)
  show "handle_connection sample_env (Some (pr (JObj checkout_request))) sample_creds (broker_new 0 blank_world)
     = (Err Locked, broker_new 0 blank_world\<lparr>tick := 2\<rparr>)"
    using sample_connection(1) [OF line, of "broker_new 0 blank_world"] b
      locked_command [of "broker_new 0 blank_world\<lparr>tick := 2\<rparr>" "''checkout''" sample_env "JObj checkout_request" sample_peer]
    by (simp add: needs_session_def uses_secret_def numeral_2_eq_2 del: pr.simps)
  show "command_of sample_env (Some (pr (JObj checkout_request))) = Some ''checkout''"
    using sample_connection(2) [OF line, of "broker_new 0 blank_world"] b by simp
qed

lemma broker_refines_session_witness:
  "\<exists>w' cmd. command_of sample_env (Some (pr (JObj checkout_request))) = Some cmd \<and>
     session_step sample_env 0 2 cmd False Closed (session_of w')"
proof -
  have b: "session_of (broker_new 0 blank_world) = Closed" "tick (broker_new 0 blank_world) = 0"
    by (simp_all add: session_of_def broker_new_def world.extend_def broker.fields_def blank_world_def)
  show ?thesis
    using broker_refines_session [OF broker_new_ok sample_refusal(1)] sample_refusal(2) b
    by (auto simp: is_ok_def)
qed

lemma locked_broker_refuses_witness:
  "\<exists>n. handle_connection sample_env (Some (pr (JObj checkout_request))) sample_creds (broker_new 0 blank_world)
     = (Err Locked, broker_new 0 blank_world\<lparr>tick := n\<rparr>)"
proof -
  have "\<not> br_unlocked (broker_new 0 blank_world)"
    by (simp add: broker_new_def world.extend_def broker.fields_def)
  then show ?thesis
    using locked_broker_refuses [of "broker_new 0 blank_world" sample_env _ "''checkout''" sample_creds]
      sample_refusal(2)
    by (simp add: needs_session_def uses_secret_def sample_creds_def)
qed

lemma ticket_dies_with_session_witness:
  "\<exists>w1 v w2 t w3. handle_connection sample_env (Some (pr (JObj checkout_request))) sample_creds w1 = (Ok v, w2) \<and>
     jget ''ticket'' v = Some (enc_ticket t) \<and> broker_run sample_env w2 [(Some ''lock'', True)] w3 \<and>
     \<not> is_ok (consume sample_env [1] t (sample_request\<lparr>rq_broker_session_id := br_broker_session_id w3\<rparr>) 0)"
proof -
  obtain w0 v t w1 w2 where day: "broker_run sample_env (broker_new 0 (w0 :: world)) [(Some ''unlock'', True)] w1"
      "handle_connection sample_env (Some (pr (JObj checkout_request))) sample_creds w1 = (Ok v, w2)"
      "command_of sample_env (Some (pr (JObj checkout_request))) = Some ''checkout''"
      "jget ''ticket'' v = Some (enc_ticket t)" "br_idle_timeout_seconds w2 = 0"
    using sample_day by (elim exE conjE) (rule that)
  have line: "json_wf (JObj lock_request)" "get_as dec_str ''command'' (JObj lock_request) = Some ''lock''"
    by (simp_all add: request_defs)
  obtain u w3 where "handle_connection sample_env (Some (pr (JObj lock_request))) sample_creds w2 = (Ok u, w3)"
    using sample_connection(1) [OF line, of w2] day(5)
    by (auto simp: run_command_def cmd_lock_def seq_def bnd_def update_def ret_def)
  from broker_run.connection [OF broker_run.start this]
  have lock: "broker_run sample_env w2 [(Some ''lock'', True)] w3"
    using sample_connection(2) [OF line, of w2] day(5) by (simp add: call_of_def is_ok_def)
  have "\<not> is_ok (consume sample_env [1] t (sample_request\<lparr>rq_broker_session_id := br_broker_session_id w3\<rparr>) 0)"
    by (rule ticket_dies_with_session [OF sample_ok(6) day(1-4) lock]) simp_all
  then show ?thesis
    using day(2,4) lock by blast
qed

end
