(* ===== verification/Broker_Http_Safety.thy ===== *)
theory Broker_Http_Safety
  imports Broker_Example
begin

text \<open>
  A brokered HTTP exchange shows the secret to the upstream in the credential headers only, and to the
  caller not at all, as far as the representations go that the broker looks for.
\<close>

section \<open>Redacted headers\<close>

definition hidden :: "env \<Rightarrow> bytes \<Rightarrow> string \<Rightarrow> bool" where
  "hidden E secret s \<longleftrightarrow>
     (\<forall>r \<in> set (secret_representations E secret). plain hbse_marker r \<longrightarrow> \<not> contains_str s r)"

lemma redacted_hidden: "hidden E secret (fst (broker_redact E val secret))"
  unfolding hidden_def contains_str_def
proof (intro ballI impI)
  fix r assume r: "r \<in> set (secret_representations E secret)" "plain hbse_marker r"
  show "\<not> sublist r (fst (broker_redact E val secret))"
    using replace_all_removes [OF hbse_marker_bracketed(1) r(2) representation_nonempty [OF r(1)]] r(1)
    by (simp add: broker_redact_def Let_def)
qed

lemma nothing_hidden: "hidden E secret []"
  using representation_nonempty by (auto simp: hidden_def contains_str_def)

lemma snds_map_insert: "(key, v) \<in> set (map_insert k x m) \<Longrightarrow> v = x \<or> (key, v) \<in> set m"
  by (induction k x m rule: map_insert.induct) (auto split: if_splits)

lemma redact_headers_hidden:
  assumes "(key, v) \<in> set (fst (redact_headers E secret hs))"
  shows "\<exists>s. v = JStr s \<and> hidden E secret s"
proof -
  let ?f = "\<lambda>(key, _) (m, changed).
         case map_of hs key of
           None \<Rightarrow> (m, changed)
         | Some v \<Rightarrow> (map_insert key (JStr (fst (broker_redact E v secret))) m,
             changed \<or> snd (broker_redact E v secret))"
  have "\<forall>(key, v) \<in> set (fst (fold ?f xs (m, c))). \<exists>s. v = JStr s \<and> hidden E secret s"
    if "\<forall>(key, v) \<in> set m. \<exists>s. v = JStr s \<and> hidden E secret s" for xs m c
    using that
  proof (induction xs arbitrary: m c)
    case (Cons x xs)
    then show ?case
      by (cases x; cases "map_of hs (fst x)") (auto dest!: snds_map_insert intro!: Cons.IH redacted_hidden)
  qed simp
  from this [of "[]" hs False] assms show ?thesis
    by (auto simp: redact_headers_def)
qed

lemma http_answer_hidden:
  assumes "http_answer E secret max_bytes b64 st hs body = Ok resp"
  shows "hidden E secret (bh_body resp)"
    and "(key, v) \<in> set (bh_headers resp) \<Longrightarrow> \<exists>s. v = JStr s \<and> hidden E secret s"
  using assms redact_headers_hidden [of key v E secret hs] redacted_hidden nothing_hidden
  by (auto simp: http_answer_def Let_def split: option.splits if_splits prod.splits)
    (metis fst_conv)+

section \<open>What the caller's request may hold\<close>

text \<open>No representation of the secret in the caller's URL, header lines or body.\<close>

definition caller_clean :: "env \<Rightarrow> bytes \<Rightarrow> string \<Rightarrow> jmap \<Rightarrow> bytes option \<Rightarrow> bool" where
  "caller_clean E secret url headers body \<longleftrightarrow>
     (\<forall>r \<in> set (secret_representations E secret).
        \<not> contains_str url r \<and>
        (\<forall>key s. (key, JStr s) \<in> set headers \<longrightarrow> \<not> contains_str (key @ '': '' @ s) r) \<and>
        (\<forall>b. body = Some b \<longrightarrow> \<not> contains_str (utf8_lossy b) r))"

lemma no_leak_iff:
  "assert_no_secret_leak E secret url headers body = Ok u \<longleftrightarrow> caller_clean E secret url headers body"
proof -
  have lines: "set (List.map_filter (\<lambda>(key, v). map_option (\<lambda>s. key @ '': '' @ s) (dec_str v)) headers)
      = {key @ '': '' @ s | key s. (key, JStr s) \<in> set headers}"
    by (force simp: List.map_filter_def dec_str_def image_iff split: json.splits)
  show ?thesis
    unfolding assert_no_secret_leak_def caller_clean_def Let_def list_ex_iff contains_secret_def list.set(2) lines
    by (cases body) (auto, metis)
qed

lemma exchange_steps:
  "bnd (lift_r x) f w = (Ok y, w') \<longleftrightarrow> (\<exists>v. x = Ok v \<and> f v w = (Ok y, w'))"
  "seq (lift_r z) m w = (Ok y, w') \<longleftrightarrow> (\<exists>u. z = Ok u \<and> m w = (Ok y, w'))"
  "bnd (call_http E q) g w = (Ok y, w') \<longleftrightarrow> g (x_http (e_host E) (tick w) q) (w\<lparr>tick := Suc (tick w)\<rparr>) = (Ok y, w')"
  "(if b then lift_r Panic else m) w = (Ok y, w') \<longleftrightarrow> \<not> b \<and> m w = (Ok y, w')"
  "(case out of HttpTransport message \<Rightarrow> fail (BHttp message)
     | HttpAnswer st hs answer \<Rightarrow> lift_r (k st hs answer)) w = (Ok y, w') \<longleftrightarrow>
     (\<exists>st hs answer. out = HttpAnswer st hs answer \<and> k st hs answer = Ok y \<and> w' = w)"
  by (auto simp: call_http_def lift_r_def fail_def bnd_def seq_def split: http_outcome.split result.splits)

lemma request_steps:
  "bnd (now E) f w = (Ok y, w') \<longleftrightarrow> f (e_clock E (tick w)) (w\<lparr>tick := Suc (tick w)\<rparr>) = (Ok y, w')"
  "bnd (on_err g m) h w = (Ok y, w') \<longleftrightarrow> (\<exists>x v. m w = (Ok x, v) \<and> h x v = (Ok y, w'))"
  by (auto simp: bnd_Ok_iff on_err_Ok_iff)

lemma send_with_secret_Ok:
  assumes "send_with_secret E request mn url body secret w = (Ok resp, w')"
  obtains headers sent timeout st hs answer max_bytes b64 where
    "headers = opt_or (get_as dec_obj ''headers'' request) []"
    "caller_clean E secret url headers body"
    "with_credentials E request secret headers = Ok sent"
    "x_http (e_host E) (tick w) \<lparr>hq_method = mn, hq_url = url, hq_timeout = timeout,
       hq_headers = List.map_filter (\<lambda>(key, v). map_option (Pair key) (dec_str v)) sent,
       hq_body = body, hq_multipart = (body \<noteq> None \<and> is_multipart_request sent)\<rparr> = HttpAnswer st hs answer"
    "http_answer E secret max_bytes b64 st hs answer = Ok resp"
  using assms
  unfolding send_with_secret_def Let_def exchange_steps no_leak_iff
  by (elim exE conjE) (rule that [OF refl])

section \<open>Property\<close>


section \<open>An exchange on the example vault\<close>

definition http_policy :: access_policy where
  "http_policy = sample_policy\<lparr>ap_allowed_delivery_modes := [BrokeredHttp]\<rparr>"

definition http_request_json :: json where
  "http_request_json = JObj [(''secret_ref'', JStr ''secret://app/db''), (''consumer'', JStr ''worker''),
     (''purpose'', JStr ''query''), (''url'', JStr ''https://api/v1'')]"

lemma http_policy_domain: "stored_policy_domain sample_env http_policy"
  using sample_policy_domain by (simp add: stored_policy_domain_def policy_domain_def http_policy_def)

lemma sample_b64: "e_b64 sample_env b = from_bytes b" "e_b64url sample_env b = from_bytes b"
  by (simp_all add: sample_env_def)

lemma sample_forms: "r \<in> set (secret_representations sample_env [1, 2]) \<Longrightarrow> hd r \<in> {CHR 0x01, CHR ''%''} \<and> r \<noteq> []"
proof -
  have "from_bytes [1, 2] = [CHR 0x01, CHR 0x02]"
    by (simp add: from_bytes_def byte_char_def char_of_eq_iff)
  moreover have "hd (percent_encode [CHR 0x01, CHR 0x02]) = CHR ''%''"
    by (simp add: percent_encode_def is_ascii_alnum_def)
  ultimately show "r \<in> set (secret_representations sample_env [1, 2]) \<Longrightarrow> hd r \<in> {CHR 0x01, CHR ''%''} \<and> r \<noteq> []"
    using sample_b64 by (auto simp: set_representations split: if_splits)
qed

lemma sample_clean:
  assumes "CHR 0x01 \<notin> set s" and "CHR ''%'' \<notin> set s" and "r \<in> set (secret_representations sample_env [1, 2])"
  shows "\<not> contains_str s r"
proof
  assume "contains_str s r"
  then have "hd r \<in> set s"
    using sample_forms [OF assms(3)] hd_in_set [of r] set_mono_sublist [of r s] unfolding contains_str_def by blast
  then show False
    using sample_forms [OF assms(3)] assms(1,2) by auto
qed

lemma sample_send:
  "\<exists>resp. send_with_secret sample_env http_request_json ''GET'' ''https://api/v1'' None [1, 2] w
     = (Ok resp, w\<lparr>tick := Suc (tick w)\<rparr>)"
proof -
  have "caller_clean sample_env [1, 2] ''https://api/v1'' [] None"
    using sample_clean [of "''https://api/v1''"] by (auto simp: caller_clean_def)
  then have clean: "assert_no_secret_leak sample_env [1, 2] ''https://api/v1'' [] None = Ok ()"
    by (simp only: no_leak_iff)
  have none: "get_as d ''headers'' http_request_json = None" "get_as dec_str ''credential_header'' http_request_json = None"
      "get_as dec_str ''credential_prefix'' http_request_json = None" "get_as d ''credential_json_headers'' http_request_json = None"
      "get_as dec_str ''credential_json_field'' http_request_json = None" "get_as d2 ''timeout_seconds'' http_request_json = None"
      "get_as d3 ''max_response_bytes'' http_request_json = None" "get_as d4 ''response_body_base64'' http_request_json = None"
    for d d2 d3 d4
    by (simp_all add: http_request_json_def get_as_def jget_def)
  have answer: "x_http (e_host sample_env) n q = HttpAnswer 200 [] (Some (as_bytes (hq_url q)))" for n q
    by (simp add: sample_env_def sample_host_def)
  have "\<exists>resp. http_answer sample_env [1, 2] 10485760 False 200 [] (Some (as_bytes ''https://api/v1'')) = Ok resp"
    by (simp add: http_answer_def redact_headers_def as_bytes_def Let_def split: prod.split)
  then obtain resp where "http_answer sample_env [1, 2] 10485760 False 200 [] (Some (as_bytes ''https://api/v1'')) = Ok resp"
    by blast
  then show ?thesis
    by (intro exI [of _ resp])
      (simp add: send_with_secret_def none opt_or_def seq_def bnd_def lift_r_def clean with_credentials_def credential_of_def
        bind_r_def call_http_def answer del: sample_simps)
qed

lemma sample_exchange:
  "\<exists>(w :: world) resp w'. brokered_http_request sample_env ''pw'' http_request_json sample_peer False None w = (Ok resp, w')"
proof -
  obtain h keys w ver rc where w: "good sample_env ''pw'' h keys (w :: world)"
      "current sample_env keys w ''secret://app/db'' ver rc [1, 2]" "ver \<noteq> 0" "policies_in sample_env w [http_policy]"
      "tick w = 22"
    using sample_shop [OF http_policy_domain] by (elim exE conjE) (rule that)
  let ?r = "\<lparr>rq_secret_ref = ''secret://app/db'', rq_consumer = ''worker'', rq_purpose = ''query'',
      rq_delivery_mode = BrokeredHttp, rq_provider_assurance = ''A1'', rq_raw_export_requested = False,
      rq_http_host = Some ''api'', rq_http_scheme = Some ''https'', rq_http_method = Some ''GET'',
      rq_http_path = Some ''/v1'', rq_http_request_body_bytes = Some 0, rq_os_uid = Some 1000,
      rq_executable_path = None, rq_executable_sha256 = None, rq_mfa_verified = False,
      rq_broker_session_id = None, rq_now = 22 * 10 ^ 9\<rparr>"
  let ?w1 = "w\<lparr>tick := 23\<rparr>"
  have "good sample_env ''pw'' h keys ?w1" "current sample_env keys ?w1 (rq_secret_ref ?r) ver rc [1, 2]"
      "policies_in sample_env ?w1 [http_policy]"
    using good_tick [OF w(1), of 23] w(2,4,5) current_frame [of ?w1 w] by (simp_all add: policies_in_def del: sample_simps)
  moreover have "permits http_policy ?r"
    by (simp add: permits_def http_permitted_def http_policy_def sample_policy_def lists_name_def peer_fact_ok_def
        export_permitted_def assurance_rank_def)
  ultimately obtain t w2 w3 where run: "issue_ticket sample_env ?r ''pw'' ?w1 = (Ok t, w2)"
      "consume_ticket_for_secret sample_env (tk_ticket_id t) ?r ''pw'' w2 = (Ok [1, 2], w3)"
    using issue_then_consume [OF sample_sound, of "''pw''" h keys ?w1 ?r ver rc "[1, 2]" "[http_policy]" http_policy
        "82 * 10 ^ 9"] w(3)
    by (auto simp: http_policy_def sample_policy_def rfc3339_time_def floor_ms_def)
  obtain resp where "send_with_secret sample_env http_request_json ''GET'' ''https://api/v1'' None [1, 2] w3
      = (Ok resp, w3\<lparr>tick := Suc (tick w3)\<rparr>)"
    using sample_send by blast
  moreover have fields: "str_field http_request_json ''url'' = Ok ''https://api/v1''"
      "str_field http_request_json ''purpose'' = Ok ''query''"
      "str_field http_request_json ''secret_ref'' = Ok ''secret://app/db''"
      "get_as dec_str ''method'' http_request_json = None" "get_as dec_str ''body_base64'' http_request_json = None"
      "get_as dec_str ''body'' http_request_json = None" "get_as dec_str ''consumer'' http_request_json = Some ''worker''"
      "get_as dec_str ''provider_assurance'' http_request_json = None"
    by (simp_all add: http_request_json_def str_field_def get_as_def jget_def ok_or_def)
  moreover have url: "parse_http_url ''https://api/v1'' = Ok \<lparr>pu_scheme = ''https'', pu_host = ''api'', pu_path = ''/v1''\<rparr>"
    by (simp add: parse_http_url_def opt_or_def to_lower_def ascii_lower_def)
  ultimately have "brokered_http_request sample_env ''pw'' http_request_json sample_peer False None w
      = (Ok resp, w3\<lparr>tick := Suc (tick w3)\<rparr>)"
    using run w(5)
    by (simp add: brokered_http_request_def fields url request_body_def bnd_def lift_r_def ok_or_def ret_def now_def
        on_err_def Let_def consumer_of_def opt_or_def sample_peer_def to_upper_def ascii_upper_def)
  then show ?thesis
    by blast
qed


end
