(* ===== verification/Gateway.thy ===== *)
theory Gateway
  imports Broker_Http_Safety
begin

text \<open>
  The HTTP gateway (\<open>broker_daemon.rs\<close>): reading a request from a TCP stream, mapping it to a brokered
  request for the configured secret, and writing the answer. A stream is the bytes it will deliver
  before its end. The broker's state is shared with the Unix socket; the mutex is held while the
  session is looked at and while the activity is noted, and not in between.
\<close>

section \<open>Where it listens\<close>

record http_gateway_config =
  gc_listen :: string
  gc_upstream_base_url :: string
  gc_secret_ref :: string
  gc_consumer :: string
  gc_purpose :: string
  gc_model_discovery_purpose :: string
  gc_credential_header :: string
  gc_credential_prefix :: string
  gc_timeout_seconds :: rat
  gc_max_response_bytes :: u64
  gc_max_request_body_bytes :: u64
  gc_allow_remote :: bool

datatype ip_addr = V4 u8 u8 u8 u8 | V6 "128 word"

fun is_loopback :: "ip_addr \<Rightarrow> bool" where
  "is_loopback (V4 a _ _ _) \<longleftrightarrow> a = 127"
| "is_loopback (V6 a) \<longleftrightarrow> a = 1"

text \<open>
  \<open>parse_addr\<close> is the parser of socket addresses with the text of its error; the IPv4 or IPv6 address
  is all that is used of the result.
\<close>

definition validate_http_gateway_listen :: "(string \<Rightarrow> (ip_addr, string) result) \<Rightarrow> http_gateway_config
    \<Rightarrow> (unit, broker_error) result" where
  "validate_http_gateway_listen parse_addr config =
     (if gc_allow_remote config then Ok ()
      else bind_r (map_err (\<lambda>err. BHttp (''invalid HTTP gateway listen address: '' @ err)) (parse_addr (gc_listen config)))
        (\<lambda>ip. if is_loopback ip then Ok () else Err RemoteHttpGatewayNotAllowed))"

section \<open>Reading a request\<close>

record http_gateway_request =
  gq_method :: string
  gq_path :: string
  gq_forward_headers :: jmap
  gq_body :: "string option"

record http_gateway_response =
  gr_status_code :: nat
  gr_headers :: "(string \<times> string) list"
  gr_body :: bytes

text \<open>\<open>read_line\<close>: up to and with the next line feed, or to the end; an error if it is not UTF-8.\<close>

definition split_line :: "bytes \<Rightarrow> bytes \<times> bytes" where
  "split_line bs =
     (let l = takeWhile (\<lambda>b. b \<noteq> 10) bs; rest = dropWhile (\<lambda>b. b \<noteq> 10) bs
      in (l @ take 1 rest, drop 1 rest))"

definition read_line :: "bytes \<Rightarrow> (string \<times> bytes, broker_error) result" where
  "read_line bs =
     (let (l, rest) = split_line bs in if utf8_valid l then Ok (from_bytes l, rest) else Err BIo)"

lemma read_line_shorter: "read_line bs = Ok (l, rest) \<Longrightarrow> l \<noteq> [] \<Longrightarrow> length rest < length bs"
proof -
  assume l: "read_line bs = Ok (l, rest)" "l \<noteq> []"
  then have "bs \<noteq> []"
    by (auto simp: read_line_def split_line_def from_bytes_def Let_def split: if_splits)
  moreover have "rest = drop 1 (dropWhile (\<lambda>b. b \<noteq> 10) bs)"
    using l by (auto simp: read_line_def split_line_def Let_def split: if_splits)
  moreover have "length (dropWhile (\<lambda>b. b \<noteq> 10) bs) \<le> length bs"
    by (rule length_dropWhile_le)
  ultimately show "length rest < length bs"
    by (cases "dropWhile (\<lambda>b. b \<noteq> 10) bs") auto
qed

definition trim_line_end :: "string \<Rightarrow> string" where
  "trim_line_end s = rev (dropWhile (\<lambda>c. c = CHR 0x0D \<or> c = CHR 0x0A) (rev s))"

text \<open>\<open>parse::<usize>\<close> on a 64-bit machine.\<close>

definition parse_usize :: "string \<Rightarrow> nat option" where
  "parse_usize s =
     (let d = (case s of c # cs \<Rightarrow> if c = CHR ''+'' then cs else s | [] \<Rightarrow> [])
      in if d \<noteq> [] \<and> list_all is_ascii_digit d \<and> dec_val d < 2 ^ 64 then Some (dec_val d) else None)"

definition dropped_header :: "string \<Rightarrow> bool" where
  "dropped_header name \<longleftrightarrow>
     to_lower name \<in> {''authorization'', ''host'', ''connection'', ''transfer-encoding''}"

function read_headers :: "nat \<Rightarrow> bytes \<Rightarrow> jmap \<Rightarrow> nat \<Rightarrow> (jmap \<times> nat \<times> bytes, broker_error) result" where
  "read_headers max_body_bytes bs headers content_length =
     (case read_line bs of
        Err e \<Rightarrow> Err e
      | Panic \<Rightarrow> Panic
      | Ok (l, rest) \<Rightarrow>
          let trimmed = trim_line_end l in
          if trimmed = [] then Ok (headers, content_length, rest)
          else case split_once '':'' trimmed of
              None \<Rightarrow> read_headers max_body_bytes rest headers content_length
            | Some (n, v) \<Rightarrow>
                let name = trim n; val = trim v in
                if eq_ignore_case name ''content-length'' then
                  (let n = (case parse_usize val of None \<Rightarrow> 0 | Some k \<Rightarrow> k) in
                   if n > max_body_bytes then Err RequestBodyTooLarge
                   else read_headers max_body_bytes rest headers n)
                else if dropped_header name then read_headers max_body_bytes rest headers content_length
                else read_headers max_body_bytes rest (map_insert name (JStr val) headers) content_length)"
  by pat_completeness auto
termination
proof (relation "measure (\<lambda>(_, bs, _, _). length bs)")
  have line: "l \<noteq> []" if "trim_line_end l \<noteq> []" for l
    using that by (auto simp: trim_line_end_def)
  fix max_body_bytes bs headers content_length x l rest t
  assume "read_line bs = Ok x" "(l, rest) = x" "t = trim_line_end l" "t \<noteq> []"
  then show "((max_body_bytes, rest, headers, content_length), (max_body_bytes, bs, headers, content_length))
      \<in> measure (\<lambda>(_, bs, _, _). length bs)" for headers content_length
    using read_line_shorter line by fastforce
qed (auto dest!: read_line_shorter simp: trim_line_end_def)

declare read_headers.simps [simp del]

definition read_http_gateway_request :: "bytes \<Rightarrow> nat \<Rightarrow> (http_gateway_request, broker_error) result" where
  "read_http_gateway_request stream max_body_bytes =
     bind_r (read_line stream) (\<lambda>(request_line, rest).
     case split_whitespace request_line of
       [] \<Rightarrow> Err (MissingField ''http_method'')
     | [_] \<Rightarrow> Err (MissingField ''http_path'')
     | m # path # _ \<Rightarrow>
         bind_r (read_headers max_body_bytes rest [] 0) (\<lambda>(headers, content_length, rest).
         if length rest < content_length then Err BIo
         else
           let body = take content_length rest
           in Ok \<lparr>gq_method = to_upper m, gq_path = path, gq_forward_headers = headers,
                  gq_body = (if body = [] then None else Some (utf8_lossy body))\<rparr>))"

section \<open>Answering\<close>

definition http_reason :: "nat \<Rightarrow> string" where
  "http_reason status_code =
     (if status_code = 200 then ''OK''
      else if status_code = 400 then ''Bad Request''
      else if status_code = 403 then ''Forbidden''
      else if status_code = 404 then ''Not Found''
      else if status_code = 413 then ''Payload Too Large''
      else if status_code = 423 then ''Locked''
      else if status_code = 500 then ''Internal Server Error''
      else if status_code = 502 then ''Bad Gateway''
      else ''OK'')"

definition crlf :: string where
  "crlf = [CHR 0x0D, CHR 0x0A]"

definition write_http_gateway_response :: "http_gateway_response \<Rightarrow> bytes" where
  "write_http_gateway_response response =
     (let has_content_type = list_ex (\<lambda>(key, _). eq_ignore_case key ''content-type'') (gr_headers response)
      in as_bytes (''HTTP/1.1 '' @ nat_dec (gr_status_code response) @ '' '' @ http_reason (gr_status_code response) @ crlf)
         @ concat (map (\<lambda>(key, v). as_bytes (key @ '': '' @ v @ crlf)) (gr_headers response))
         @ (if has_content_type then [] else as_bytes (''Content-Type: application/json'' @ crlf))
         @ as_bytes (''Content-Length: '' @ nat_dec (length (gr_body response)) @ crlf @ ''Connection: close'' @ crlf @ crlf)
         @ gr_body response)"

definition json_answer :: "env \<Rightarrow> nat \<Rightarrow> json \<Rightarrow> http_gateway_response" where
  "json_answer E status_code body =
     \<lparr>gr_status_code = status_code, gr_headers = [(''Content-Type'', ''application/json'')],
      gr_body = as_bytes (e_json_print E body)\<rparr>"

definition gateway_error_status :: "broker_error \<Rightarrow> nat" where
  "gateway_error_status err =
     (case err of
        Locked \<Rightarrow> 423
      | BVault _ \<Rightarrow> 403
      | RequestContainsSecret \<Rightarrow> 400
      | RequestBodyTooLarge \<Rightarrow> 413
      | ResponseTooLarge \<Rightarrow> 502
      | _ \<Rightarrow> 500)"

text \<open>The answer of \<open>serve_http_gateway\<close> for a result; a panic ends the thread without one.\<close>

definition gateway_answer :: "env \<Rightarrow> (broker_error \<Rightarrow> string) \<Rightarrow> (http_gateway_response, broker_error) result
    \<Rightarrow> http_gateway_response option" where
  "gateway_answer E error_text r =
     (case r of
        Ok response \<Rightarrow> Some response
      | Err err \<Rightarrow> Some (json_answer E (gateway_error_status err) (to_value [(''error'', to_value
          [(''message'', JStr (error_text err)), (''type'', JStr ''hbse_gateway_error'')])]))
      | Panic \<Rightarrow> None)"

section \<open>Handling a connection\<close>

definition trim_end_slashes :: "string \<Rightarrow> string" where
  "trim_end_slashes s = rev (dropWhile (\<lambda>c. c = CHR ''/'') (rev s))"

text \<open>\<open>trim_start_matches\<close> takes the prefix away as often as it is there.\<close>

function trim_start_matches :: "string \<Rightarrow> string \<Rightarrow> string" where
  "trim_start_matches p s =
     (if p \<noteq> [] \<and> prefix p s then trim_start_matches p (drop (length p) s) else s)"
  by pat_completeness auto
termination
  by (relation "measure (\<lambda>(p, s). length s)") (auto simp: prefix_def)

declare trim_start_matches.simps [simp del]

definition http_gateway_upstream_url :: "string \<Rightarrow> string \<Rightarrow> string" where
  "http_gateway_upstream_url base_url request_path =
     (let base = trim_end_slashes base_url
      in if ends_with base ''/v1'' \<and> starts_with request_path ''/v1/''
         then base @ trim_start_matches ''/v1'' request_path
         else base @ request_path)"

definition http_gateway_peer_identity :: "env \<Rightarrow> ('z sys_scheme, peer_identity, 'e) act" where
  "http_gateway_peer_identity E = (\<lambda>w.
     let (pid, uid, gid) = x_ids (e_host E) (tick w) in
     bnd (\<lambda>w. (Ok (x_current_exe (e_host E) (tick w)), w\<lparr>tick := Suc (tick w)\<rparr>)) (\<lambda>exe_path.
     bnd (\<lambda>w. (Ok (x_current_exe (e_host E) (tick w)), w\<lparr>tick := Suc (tick w)\<rparr>)) (\<lambda>exe.
     bnd (case exe of None \<Rightarrow> ret None | Some path \<Rightarrow> read_host_file E path) (\<lambda>image.
     ret \<lparr>pi_pid = pid, pi_uid = uid, pi_gid = gid,
          pi_exe_path = (case exe_path of None \<Rightarrow> None
            | Some p \<Rightarrow> if utf8_valid (as_bytes p) then Some p else None),
          pi_comm = Some ''hbse-http-gateway'', pi_exe_sha256 = map_option (hex_sha256 E) image\<rparr>))) w)"

definition gateway_broker_request :: "http_gateway_config \<Rightarrow> http_gateway_request \<Rightarrow> json" where
  "gateway_broker_request config request =
     (let upstream_url = http_gateway_upstream_url (gc_upstream_base_url config) (gq_path request);
          purpose = (if starts_with (gq_path request) ''/v1/models'' then gc_model_discovery_purpose config
            else gc_purpose config)
      in to_value
        [(''command'', JStr ''provider_http''), (''secret_ref'', JStr (gc_secret_ref config)),
         (''consumer'', JStr (gc_consumer config)), (''purpose'', JStr purpose),
         (''method'', JStr (gq_method request)), (''url'', JStr upstream_url),
         (''headers'', JObj (gq_forward_headers request)), (''body'', enc_opt JStr (gq_body request)),
         (''credential_header'', JStr (gc_credential_header config)),
         (''credential_prefix'', JStr (gc_credential_prefix config)),
         (''timeout_seconds'', JNum (Float (gc_timeout_seconds config))),
         (''max_response_bytes'', enc_u64 (gc_max_response_bytes config))])"

definition kept_response_header :: "string \<Rightarrow> bool" where
  "kept_response_header key \<longleftrightarrow> to_lower key \<notin> {''content-length'', ''transfer-encoding'', ''connection''}"

definition gateway_response :: "brokered_http_response \<Rightarrow> http_gateway_response" where
  "gateway_response response =
     \<lparr>gr_status_code = bh_status_code response,
      gr_headers = filter (\<lambda>(key, _). kept_response_header key)
        (List.map_filter (\<lambda>(key, v). map_option (Pair key) (dec_str v)) (bh_headers response)),
      gr_body = as_bytes (bh_body response)\<rparr>"

text \<open>What the gateway remembers of the session between its two looks at the state.\<close>

definition session_snapshot :: "env \<Rightarrow> (broker, string \<times> bool \<times> string option, broker_error) act" where
  "session_snapshot E = seq (require_unlocked E)
     (\<lambda>w. (Ok (the_passphrase w, br_mfa_verified w, br_broker_session_id w), w))"

text \<open>
  The mutex is free while the request is brokered. \<open>others 0\<close> is whatever other threads and processes
  do to the shared state between the first look and the exchange, \<open>others 1\<close> what they do until the
  activity is noted.
\<close>

definition handle_http_gateway_connection :: "env \<Rightarrow> (nat \<Rightarrow> broker \<Rightarrow> broker) \<Rightarrow> http_gateway_config \<Rightarrow> bytes
    \<Rightarrow> (broker, http_gateway_response, broker_error) act" where
  "handle_http_gateway_connection E others config stream =
     bnd (lift_r (read_http_gateway_request stream (unat (gc_max_request_body_bytes config)))) (\<lambda>request.
     if gq_method request = ''GET'' \<and> gq_path request = ''/health''
     then ret (json_answer E 200 (to_value [(''ok'', JBool True)]))
     else if \<not> starts_with (gq_path request) ''/v1/''
     then ret (json_answer E 404 (to_value [(''error'', to_value
       [(''message'', JStr ''HBSE HTTP gateway only proxies /v1/* paths''), (''type'', JStr ''not_found'')])]))
     else
     bnd (http_gateway_peer_identity E) (\<lambda>peer.
     bnd (session_snapshot E) (\<lambda>(passphrase, mfa_verified, broker_session_id).
     seq (update (others 0))
    (bnd (brokered_http_request E passphrase (gateway_broker_request config request) peer mfa_verified
       broker_session_id) (\<lambda>response.
     seq (update (others 1))
    (seq (mark_activity E)
     (ret (gateway_response response))))))))"

section \<open>What a request may bring\<close>

definition forwardable :: "jmap \<Rightarrow> bool" where
  "forwardable headers \<longleftrightarrow> (\<forall>(name, v) \<in> set headers.
     \<not> dropped_header name \<and> \<not> eq_ignore_case name ''content-length'' \<and> (\<exists>s. v = JStr s))"

lemma forwardable_insert:
  "forwardable m \<Longrightarrow> \<not> dropped_header name \<Longrightarrow> \<not> eq_ignore_case name ''content-length'' \<Longrightarrow>
     forwardable (map_insert name (JStr s) m)"
  unfolding forwardable_def by (auto dest!: subsetD [OF set_map_insert])

lemma read_headers_ok:
  assumes "read_headers max_body_bytes bs headers content_length = Ok (hs, n, rest)"
    and "forwardable headers" and "content_length \<le> max_body_bytes"
  shows "forwardable hs \<and> n \<le> max_body_bytes"
  using assms
proof (induction "length bs" arbitrary: bs headers content_length rule: less_induct)
  case less
  obtain l rest' where line: "read_line bs = Ok (l, rest')"
    using less.prems(1) by (cases "read_line bs") (auto simp: read_headers.simps [of _ bs])
  show ?case
  proof (cases "trim_line_end l = []")
    case True
    then show ?thesis
      using less.prems line by (simp add: read_headers.simps [of _ bs])
  next
    case False
    then have "l \<noteq> []"
      by (auto simp: trim_line_end_def)
    then have "length rest' < length bs"
      using read_line_shorter [OF line] by simp
    note IH = less.hyps [OF this]
    show ?thesis
    proof (cases "split_once '':'' (trim_line_end l)")
      case None
      then show ?thesis
        using less.prems line False by (intro IH) (simp_all add: read_headers.simps [of _ bs])
    next
      case (Some p)
      obtain n v where p: "p = (n, v)" by fastforce
      let ?len = "case parse_usize (trim v) of None \<Rightarrow> 0 | Some k \<Rightarrow> k"
      have step: "read_headers max_body_bytes bs headers content_length =
         (if eq_ignore_case (trim n) ''content-length''
          then if ?len > max_body_bytes then Err RequestBodyTooLarge
            else read_headers max_body_bytes rest' headers ?len
          else if dropped_header (trim n) then read_headers max_body_bytes rest' headers content_length
          else read_headers max_body_bytes rest' (map_insert (trim n) (JStr (trim v)) headers) content_length)"
        using line False Some p by (simp add: read_headers.simps [of _ bs] Let_def)
      show ?thesis
        using less.prems(1) [unfolded step] less.prems(2,3) IH forwardable_insert
        by (metis (no_types, lifting) not_le_imp_less result.distinct(1))
    qed
  qed
qed

lemma gateway_request_ok:
  assumes "read_http_gateway_request stream max_body_bytes = Ok q"
  shows "forwardable (gq_forward_headers q)"
    and "\<forall>s. gq_body q = Some s \<longrightarrow> (\<exists>b. length b \<le> max_body_bytes \<and> s = utf8_lossy b)"
proof -
  obtain line rest where line: "read_line stream = Ok (line, rest)"
    using assms by (cases "read_line stream") (auto simp: read_http_gateway_request_def bind_r_def)
  obtain m path ws where ws: "split_whitespace line = m # path # ws"
    using assms line by (auto simp: read_http_gateway_request_def bind_r_def split: list.splits)
  obtain hs n rest' where hs: "read_headers max_body_bytes rest [] 0 = Ok (hs, n, rest')"
    using assms line ws by (cases "read_headers max_body_bytes rest [] 0") (auto simp: read_http_gateway_request_def bind_r_def)
  have run: "read_headers max_body_bytes rest [] 0 = Ok (hs, n, rest')" "gq_forward_headers q = hs"
      "gq_body q = (if take n rest' = [] then None else Some (utf8_lossy (take n rest')))"
    using assms line ws hs by (auto simp: read_http_gateway_request_def bind_r_def Let_def split: if_splits)
  note ok = read_headers_ok [OF run(1)]
  show "forwardable (gq_forward_headers q)"
    using ok run(2) by (simp add: forwardable_def)
  show "\<forall>s. gq_body q = Some s \<longrightarrow> (\<exists>b. length b \<le> max_body_bytes \<and> s = utf8_lossy b)"
    using ok run(3) by (auto simp: forwardable_def intro!: exI [of _ "take n rest'"])
qed

section \<open>Property\<close>

lemma outside_gateway_peer: "outside (http_gateway_peer_identity E)"
proof -
  have "keeps (\<lambda>v :: broker. own v = c \<and> n \<le> tick v) (\<lambda>w. (Ok (f (tick w)), w\<lparr>tick := Suc (tick w)\<rparr>))" for c n f
    by (auto simp: keeps_def own_def)
  then have "keeps (\<lambda>v :: broker. own v = c \<and> n \<le> tick v) (http_gateway_peer_identity E)" for c n
    unfolding http_gateway_peer_identity_def keeps_def
    by (simp add: bnd_def ret_def read_host_file_def own_def split: option.split prod.split)
  then show ?thesis
    by (rule outsideI)
qed

lemma gateway_peer_Ok:
  assumes "http_gateway_peer_identity E w = (r, w')"
  obtains p where "r = Ok p"
  using assms by (auto simp: http_gateway_peer_identity_def bnd_def ret_def read_host_file_def split: option.splits prod.splits)

lemma bnd_lifted: "bnd (lift_r (Ok x)) f w = f x w"
  by (simp add: bnd_def lift_r_def)

lemma seq_update: "seq (update f) m = (\<lambda>w. m (f w))"
  by (rule ext) (simp add: seq_def bnd_def update_def)

lemma snapshot_then:
  "bnd (session_snapshot E) (\<lambda>(passphrase, mfa_verified, sid). f passphrase mfa_verified sid) =
     seq (require_unlocked E) (\<lambda>w. f (the_passphrase w) (br_mfa_verified w) (br_broker_session_id w) w)"
  by (rule ext) (simp add: session_snapshot_def seq_def bnd_def split: prod.split result.split)

text \<open>The two answers that need no session.\<close>

definition fixed_answers :: "env \<Rightarrow> http_gateway_response set" where
  "fixed_answers E = {json_answer E 200 (to_value [(''ok'', JBool True)]),
     json_answer E 404 (to_value [(''error'', to_value
       [(''message'', JStr ''HBSE HTTP gateway only proxies /v1/* paths''), (''type'', JStr ''not_found'')])])}"

lemma gateway_request_fields:
  "str_field (gateway_broker_request config q) ''secret_ref'' = Ok (gc_secret_ref config)"
  "consumer_of (gateway_broker_request config q) peer = gc_consumer config"
  "get_as dec_obj ''headers'' (gateway_broker_request config q) = Some (gq_forward_headers q)"
  "get_as dec_str ''credential_header'' (gateway_broker_request config q) = Some (gc_credential_header config)"
  by (simp_all add: gateway_broker_request_def Let_def str_field_def consumer_of_def get_as_def jget_def ok_or_def
      to_value_def map_of_build_distinct opt_or_def)

lemma gateway_upstream:
  assumes "broker_ok w" and "handle_http_gateway_connection E others config stream w = (r, w')"
    and Ok: "read_http_gateway_request stream (unat (gc_max_request_body_bytes config)) = Ok q"
    and False: "\<not> (gq_method q = ''GET'' \<and> gq_path q = ''/health'' \<or> \<not> starts_with (gq_path q) ''/v1/'')"
  shows "\<not> br_unlocked w \<Longrightarrow> r = Err Locked \<and> own w' = own w"
    and "r = Ok response \<Longrightarrow> \<exists>v resp w2 peer. br_unlocked w \<and> own v = own w \<and>
      brokered_http_request E (the_passphrase w) (gateway_broker_request config q) peer (br_mfa_verified w)
        (br_broker_session_id w) (others 0 v) = (Ok resp, w2) \<and> response = gateway_response resp"
proof -
  obtain r0 u where peer: "http_gateway_peer_identity E w = ((r0 :: (_, broker_error) result), u)"
    by fastforce
  obtain p where p: "r0 = Ok p"
    using peer by (rule gateway_peer_Ok)
  have u: "own u = own w"
    using outsideD [OF outside_gateway_peer peer] by simp
  let ?exchange = "\<lambda>v. bnd (brokered_http_request E (the_passphrase v) (gateway_broker_request config q) p
      (br_mfa_verified v) (br_broker_session_id v)) (\<lambda>response. seq (update (others 1))
      (seq (mark_activity E) (ret (gateway_response response)))) (others 0 v)"
  have run: "seq (require_unlocked E) ?exchange u = (r, w')"
    using assms(2) False unfolding handle_http_gateway_connection_def Ok bnd_lifted snapshot_then seq_update
    by (auto simp: bnd_step [where m = "http_gateway_peer_identity E", OF peer [unfolded p]] split: if_splits)
  show "r = Err Locked \<and> own w' = own w" if "\<not> br_unlocked w"
    using run require_refuses [of u E ?exchange] that u own_eq(4) [OF u] by simp
  show "\<exists>v resp w2 peer. br_unlocked w \<and> own v = own w \<and>
      brokered_http_request E (the_passphrase w) (gateway_broker_request config q) peer (br_mfa_verified w)
        (br_broker_session_id w) (others 0 v) = (Ok resp, w2) \<and> response = gateway_response resp"
    if answered: "r = Ok response"
  proof -
    have ok: "broker_ok u" "r \<noteq> Panic"
      using assms(1) own_eq(2) [OF u] answered by simp_all
    obtain v where v: "own v = own u" "br_unlocked v" "?exchange v = (Ok response, w')"
      by (rule require_run [OF run ok(2,1)]) (use that answered in simp_all)
    have "own v = own w"
      using u v(1) by simp
    note eqs = own_eq(3-6) [OF this]
    obtain resp w2 where "brokered_http_request E (the_passphrase w) (gateway_broker_request config q) p
        (br_mfa_verified w) (br_broker_session_id w) (others 0 v) = (Ok resp, w2)" "response = gateway_response resp"
      using v(3) eqs by (auto simp: bnd_Ok_iff seq_Ok_iff ret_def)
    then show ?thesis
      using \<open>own v = own w\<close> eqs v(2) by auto
  qed
qed

text \<open>
  C8: the gateway lets only its own credential through, and only out of an open session. Whatever bytes
  arrive and whatever other threads do meanwhile, an answer that is not one of the two fixed ones means
  that the path lies under \<open>/v1/\<close>, that the broker was unlocked when the request came in, and that the
  exchange was made for the configured secret and consumer under that session's passphrase, with no
  forwarded header that could carry an authorization or frame the message, and a body within the
  configured limit. A locked broker answers a well-formed request with one of the fixed answers or with
  the error it has for that, and keeps its session fields.
\<close>

theorem gateway_guards_session:
  assumes "broker_ok w" and "handle_http_gateway_connection E others config stream w = (r, w')"
  shows "(\<not> br_unlocked w \<longrightarrow> own w' = own w \<and>
      (\<forall>q. read_http_gateway_request stream (unat (gc_max_request_body_bytes config)) = Ok q \<longrightarrow>
         r \<in> insert (Err Locked) (Ok ` fixed_answers E))) \<and>
    (\<forall>response. r = Ok response \<longrightarrow> response \<in> fixed_answers E \<or>
       (\<exists>q v resp w2 peer. read_http_gateway_request stream (unat (gc_max_request_body_bytes config)) = Ok q \<and>
          starts_with (gq_path q) ''/v1/'' \<and> br_unlocked w \<and> own v = own w \<and>
          brokered_http_request E (the_passphrase w) (gateway_broker_request config q) peer (br_mfa_verified w)
            (br_broker_session_id w) (others 0 v) = (Ok resp, w2) \<and>
          response = gateway_response resp \<and>
          str_field (gateway_broker_request config q) ''secret_ref'' = Ok (gc_secret_ref config) \<and>
          consumer_of (gateway_broker_request config q) peer = gc_consumer config \<and>
          get_as dec_obj ''headers'' (gateway_broker_request config q) = Some (gq_forward_headers q) \<and>
          forwardable (gq_forward_headers q) \<and>
          (\<forall>s. gq_body q = Some s \<longrightarrow>
             (\<exists>b. length b \<le> unat (gc_max_request_body_bytes config) \<and> s = utf8_lossy b))))"
proof (cases "read_http_gateway_request stream (unat (gc_max_request_body_bytes config))")
  case (Ok q)
  note q = gateway_request_ok [OF Ok] gateway_request_fields [of config q]
  show ?thesis
  proof (cases "gq_method q = ''GET'' \<and> gq_path q = ''/health'' \<or> \<not> starts_with (gq_path q) ''/v1/''")
    case True
    then have "r \<in> Ok ` fixed_answers E" "w' = w"
      using assms(2) Ok by (auto simp: handle_http_gateway_connection_def bnd_def lift_r_def ret_def fixed_answers_def
          split: if_splits)
    then show ?thesis
      by auto
  next
    case False
    note up = gateway_upstream [OF assms Ok False]
    show ?thesis
    proof (intro conjI allI impI disjI2)
      fix response assume "r = Ok response"
      from up(2) [OF this] obtain v resp w2 p where "br_unlocked w" "own v = own w" "response = gateway_response resp"
          "brokered_http_request E (the_passphrase w) (gateway_broker_request config q) p (br_mfa_verified w)
            (br_broker_session_id w) (others 0 v) = (Ok resp, w2)"
        by (elim exE conjE)
      then show "\<exists>q v resp w2 peer. read_http_gateway_request stream (unat (gc_max_request_body_bytes config)) = Ok q \<and>
          starts_with (gq_path q) ''/v1/'' \<and> br_unlocked w \<and> own v = own w \<and>
          brokered_http_request E (the_passphrase w) (gateway_broker_request config q) peer (br_mfa_verified w)
            (br_broker_session_id w) (others 0 v) = (Ok resp, w2) \<and>
          response = gateway_response resp \<and>
          str_field (gateway_broker_request config q) ''secret_ref'' = Ok (gc_secret_ref config) \<and>
          consumer_of (gateway_broker_request config q) peer = gc_consumer config \<and>
          get_as dec_obj ''headers'' (gateway_broker_request config q) = Some (gq_forward_headers q) \<and>
          forwardable (gq_forward_headers q) \<and>
          (\<forall>s. gq_body q = Some s \<longrightarrow>
             (\<exists>b. length b \<le> unat (gc_max_request_body_bytes config) \<and> s = utf8_lossy b))"
        using q Ok False by blast
    qed (use up(1) in simp_all)
  qed
qed (use assms(2) in \<open>auto simp: handle_http_gateway_connection_def bnd_def lift_r_def\<close>)

section \<open>A request to a locked broker\<close>

definition sample_config :: http_gateway_config where
  "sample_config =
     \<lparr>gc_listen = ''127.0.0.1:8787'', gc_upstream_base_url = ''https://api/v1'', gc_secret_ref = ''secret://app/db'',
      gc_consumer = ''worker'', gc_purpose = ''query'', gc_model_discovery_purpose = ''list'',
      gc_credential_header = ''authorization'', gc_credential_prefix = ''Bearer '', gc_timeout_seconds = 30,
      gc_max_response_bytes = 1000, gc_max_request_body_bytes = 1000, gc_allow_remote = False\<rparr>"

definition sample_stream :: bytes where
  "sample_stream = as_bytes (''GET /v1/models HTTP/1.1'' @ crlf @ ''Authorization:mine'' @ crlf @ ''Accept:text'' @ crlf @ crlf)"

definition plain_line :: "string \<Rightarrow> bool" where
  "plain_line s \<longleftrightarrow> list_all (\<lambda>c. (of_char c :: nat) < 128 \<and> of_char c \<noteq> (10 :: nat)) s"

lemma read_plain_line:
  assumes "plain_line s"
  shows "read_line (as_bytes (s @ crlf @ rest)) = Ok (s @ crlf, as_bytes rest)"
proof -
  have ascii: "unat b < 128 \<and> b \<noteq> 10" if "b \<in> set (as_bytes s)" for b
  proof -
    obtain c where c: "c \<in> set s" "b = char_byte c"
      using \<open>b \<in> set (as_bytes s)\<close> by (auto simp: as_bytes_def)
    then have "unat b < 128" "unat b \<noteq> 10"
      using assms by (auto simp: plain_line_def list_all_iff unat_char_byte)
    then show ?thesis
      by auto
  qed
  have bytes: "as_bytes (s @ crlf @ rest) = as_bytes s @ [13, 10] @ as_bytes rest"
    by (simp add: as_bytes_def crlf_def char_byte_def)
  have "split_line (as_bytes s @ [13, 10] @ as_bytes rest) = (as_bytes s @ [13, 10], as_bytes rest)"
    using ascii by (simp add: split_line_def Let_def takeWhile_append2 dropWhile_append2)
  moreover have "utf8_valid (as_bytes s @ [13, 10])"
    using ascii by (intro utf8_valid_ascii) auto
  moreover have "from_bytes (as_bytes s @ [13, 10]) = s @ crlf"
    by (simp add: from_bytes_append from_bytes_def [of "[13, 10]"] crlf_def byte_char_def char_of_eq_iff)
  ultimately show ?thesis
    unfolding bytes by (simp add: read_line_def del: append_Cons)
qed

text \<open>White space and visible characters.\<close>

definition visible :: "char \<Rightarrow> bool" where
  "visible c \<longleftrightarrow> (let n = of_char c :: nat in 32 < n \<and> n < 127)"

lemma visible_edges:
  assumes "visible c"
  shows "ws_head (c # s) = 0" and "ws_last (s @ [c]) = 0"
proof -
  have heads: "q \<noteq> [] \<and> hd q < 256 \<and> hd q \<noteq> of_char c \<and> last q < 256 \<and> last q \<noteq> of_char c" if "q \<in> set ws_codes" for q
    using that assms by (auto simp: ws_codes_def visible_def Let_def)
  have "\<not> prefix (map char_of q) (c # s)" if "q \<in> set ws_codes" for q
    using heads [OF that] by (cases q) auto
  then have "find (\<lambda>q. prefix q (c # s)) ws_seqs = None"
    by (auto simp: find_None_iff ws_seqs_def)
  then show "ws_head (c # s) = 0"
    by (simp add: ws_head_def)
  have "\<not> suffix (map char_of q) (s @ [c])" if "q \<in> set ws_codes" for q
    using heads [OF that] by (cases q rule: rev_cases) auto
  then have "find (\<lambda>q. suffix q (s @ [c])) ws_seqs = None"
    by (auto simp: find_None_iff ws_seqs_def)
  then show "ws_last (s @ [c]) = 0"
    by (simp add: ws_last_def)
qed

lemma trim_visible:
  assumes "s \<noteq> []" and "visible (hd s)" and "visible (last s)"
  shows "trim s = s"
proof -
  have "ws_head s = 0" "ws_last s = 0"
    using visible_edges(1) [OF assms(2), of "tl s"] visible_edges(2) [OF assms(3), of "butlast s"] assms(1) by simp_all
  then show ?thesis
    by (simp add: trim_def trim_start.simps [of s] trim_end.simps [of s])
qed

lemma split_ws_visible: "list_all visible w \<Longrightarrow> split_ws cur (w @ s) = split_ws (rev w @ cur) s"
proof (induction w arbitrary: cur)
  case (Cons c w)
  then show ?case
    by (subst split_ws.simps) (simp add: visible_edges)
qed simp

lemma ws_head_code:
  assumes "ws_codes = us @ [n] # vs" and "[n] \<notin> set us" and "\<forall>q \<in> set us. length q = 1 \<and> hd q < 256" and "n < 256"
  shows "ws_head (char_of n # s) = 1"
proof -
  have "\<not> prefix (map char_of q) (char_of n # s)" if "q \<in> set us" for q
  proof -
    obtain x where "q = [x]" "x < 256" "x \<noteq> n"
      using \<open>q \<in> set us\<close> assms(2,3) by (metis One_nat_def length_0_conv length_Suc_conv list.sel(1))
    moreover have "char_of x \<noteq> (char_of n :: char)"
      using calculation assms(4) of_char_of [of x] of_char_of [of n] by (metis mod_less)
    ultimately show ?thesis
      by simp
  qed
  then have "find (\<lambda>q. prefix q (char_of n # s)) (map (map char_of) (us @ [n] # vs)) = Some [char_of n]"
    by (induction us) auto
  then show ?thesis
    by (simp add: ws_head_def ws_seqs_def assms(1))
qed

lemma ws_head_blank: "c \<in> {CHR '' '', CHR 0x0D, CHR 0x0A} \<Longrightarrow> ws_head (c # s) = 1"
proof -
  have chars: "char_of (32 :: nat) = CHR '' ''" "char_of (10 :: nat) = CHR 0x0A" "char_of (13 :: nat) = CHR 0x0D"
    by (simp_all add: char_of_eq_iff)
  have "ws_head (char_of (32 :: nat) # s) = 1" "ws_head (char_of (10 :: nat) # s) = 1" "ws_head (char_of (13 :: nat) # s) = 1"
    by (rule ws_head_code [of "take 0 ws_codes"] ws_head_code [of "take 2 ws_codes"] ws_head_code [of "take 5 ws_codes"];
        simp add: ws_codes_def)+
  then show "c \<in> {CHR '' '', CHR 0x0D, CHR 0x0A} \<Longrightarrow> ws_head (c # s) = 1"
    unfolding chars by blast
qed

lemma split_ws_blank:
  assumes "c \<in> {CHR '' '', CHR 0x0D, CHR 0x0A}"
  shows "split_ws cur (c # s) = (if cur = [] then [] else [rev cur]) @ split_ws [] s"
  using ws_head_blank [OF assms] by (subst split_ws.simps) simp

lemma sample_words:
  "split_whitespace (''GET'' @ CHR '' '' # ''/v1/models'' @ CHR '' '' # ''HTTP/1.1'' @ crlf) = [''GET'', ''/v1/models'', ''HTTP/1.1'']"
proof -
  have vis: "list_all visible ''GET''" "list_all visible ''/v1/models''" "list_all visible ''HTTP/1.1''"
    by (simp_all add: visible_def)
  show ?thesis
    unfolding split_whitespace_def split_ws_visible [OF vis(1)] split_ws_blank [OF insertI1] split_ws_visible [OF vis(2)]
      split_ws_visible [OF vis(3)] crlf_def
    by (simp add: split_ws_blank split_ws.simps [of "[]" "[]"])
qed

lemma sample_lines:
  "trim_line_end (''Authorization:mine'' @ crlf) = ''Authorization:mine''"
  "trim_line_end (''Accept:text'' @ crlf) = ''Accept:text''" "trim_line_end ([] @ crlf) = []"
  by (simp_all add: trim_line_end_def crlf_def)

lemma sample_trims:
  "trim ''Authorization'' = ''Authorization''" "trim ''mine'' = ''mine''" "trim ''Accept'' = ''Accept''"
  "trim ''text'' = ''text''"
  by (simp_all add: trim_visible visible_def)

lemma read_headers_line:
  assumes "plain_line s" and "trim_line_end (s @ crlf) = s"
  shows "read_headers k (as_bytes (s @ crlf @ rest)) hs n =
    (if s = [] then Ok (hs, n, as_bytes rest)
     else case split_once '':'' s of
         None \<Rightarrow> read_headers k (as_bytes rest) hs n
       | Some (name, v) \<Rightarrow>
           if eq_ignore_case (trim name) ''content-length''
           then let m = (case parse_usize (trim v) of None \<Rightarrow> 0 | Some m \<Rightarrow> m) in
             if m > k then Err RequestBodyTooLarge else read_headers k (as_bytes rest) hs m
           else if dropped_header (trim name) then read_headers k (as_bytes rest) hs n
           else read_headers k (as_bytes rest) (map_insert (trim name) (JStr (trim v)) hs) n)"
  by (subst read_headers.simps) (simp add: read_plain_line [OF assms(1)] assms(2) Let_def del: as_bytes_append split: option.split prod.split)

lemma sample_names:
  "dropped_header ''Authorization''" "\<not> dropped_header ''Accept''"
  "\<not> eq_ignore_case ''Authorization'' ''content-length''" "\<not> eq_ignore_case ''Accept'' ''content-length''"
  by code_simp+

lemma sample_gateway_request:
  "read_http_gateway_request sample_stream 1000 = Ok \<lparr>gq_method = ''GET'', gq_path = ''/v1/models'',
     gq_forward_headers = [(''Accept'', JStr ''text'')], gq_body = None\<rparr>"
proof -
  have plain: "plain_line (''GET'' @ CHR '' '' # ''/v1/models'' @ CHR '' '' # ''HTTP/1.1'')" "plain_line ''Authorization:mine''" "plain_line ''Accept:text''"
      "plain_line []"
    by (simp_all add: plain_line_def)
  have stream: "sample_stream = as_bytes ((''GET'' @ CHR '' '' # ''/v1/models'' @ CHR '' '' # ''HTTP/1.1'') @ crlf @
      ''Authorization:mine'' @ crlf @ ''Accept:text'' @ crlf @ [] @ crlf @ [])"
    by (simp add: sample_stream_def)
  have headers: "read_headers 1000 (as_bytes (''Authorization:mine'' @ crlf @ ''Accept:text'' @ crlf @ [] @ crlf @ [])) [] 0
      = Ok ([(''Accept'', JStr ''text'')], 0, as_bytes [])"
    unfolding read_headers_line [OF plain(2) sample_lines(1)] read_headers_line [OF plain(3) sample_lines(2)]
      read_headers_line [OF plain(4) sample_lines(3)]
    by (simp add: sample_trims sample_names)
  show ?thesis
    using headers sample_words unfolding read_http_gateway_request_def stream read_plain_line [OF plain(1)]
    by (simp add: bind_r_def to_upper_def ascii_upper_def del: as_bytes_append)
qed

lemma gateway_guards_session_witness:
  "\<exists>w' :: broker. \<not> br_unlocked (broker_new 0 blank_world) \<and>
     handle_http_gateway_connection sample_env (\<lambda>_. id) sample_config sample_stream (broker_new 0 blank_world) = (Err Locked, w') \<and>
     own w' = own (broker_new 0 blank_world)"
proof -
  let ?w = "broker_new 0 blank_world"
  obtain r and w' :: broker where run: "handle_http_gateway_connection sample_env (\<lambda>_. id) sample_config sample_stream ?w = (r, w')"
    by fastforce
  have locked: "\<not> br_unlocked ?w"
    by (simp add: broker_new_def world.extend_def broker.fields_def)
  have limit: "unat (gc_max_request_body_bytes sample_config) = 1000"
    by (simp add: sample_config_def)
  note guards = gateway_guards_session [OF broker_new_ok run, THEN conjunct1, rule_format, OF locked, unfolded limit]
  have "r \<notin> Ok ` fixed_answers sample_env"
  proof -
    obtain p and u :: broker where peer: "http_gateway_peer_identity sample_env ?w = (Ok p :: (_, broker_error) result, u)"
      using gateway_peer_Ok by (metis surj_pair)
    have "\<not> br_unlocked u"
      using outsideD [OF outside_gateway_peer peer] own_eq(4) [of u ?w] locked by simp
    note shut = require_refuses [OF this]
    have "starts_with ''/v1/models'' ''/v1/''"
      by (simp add: starts_with_def)
    then show ?thesis
      using run unfolding handle_http_gateway_connection_def limit sample_gateway_request bnd_lifted snapshot_then
      by (auto simp: shut bnd_step [where m = "http_gateway_peer_identity sample_env", OF peer])
  qed
  then show ?thesis
    using guards locked run sample_gateway_request by blast
qed

end
