(* ===== verification/Gateway_Reader.thy ===== *)
theory Gateway_Reader
  imports Gateway
begin

text \<open>
  Reading a gateway request from a connection that stays open (\<open>broker_daemon.rs\<close>): a read that needs
  more bytes waits for them, so the loop over the header lines returns only if the client lets it.
  \<open>Gateway\<close> reads from a connection that is closed after its last byte; the two agree once the request
  is complete.
\<close>

section \<open>An open connection\<close>

text \<open>The bytes a client sends, one after the other, without end.\<close>

type_synonym feed = "nat \<Rightarrow> u8"

definition slice :: "feed \<Rightarrow> nat \<Rightarrow> nat \<Rightarrow> bytes" where
  "slice inp a b = map inp [a..<b]"

partial_function (option) line_end :: "feed \<Rightarrow> nat \<Rightarrow> nat option" where
  "line_end inp a = (if inp a = 10 then Some (Suc a) else line_end inp (Suc a))"

partial_function (option) live_headers :: "nat \<Rightarrow> feed \<Rightarrow> nat \<Rightarrow> jmap \<Rightarrow> nat
    \<Rightarrow> (jmap \<times> nat \<times> nat, broker_error) result option" where
  "live_headers max_body_bytes inp a headers content_length =
     (case line_end inp a of
        None \<Rightarrow> None
      | Some e \<Rightarrow>
          if \<not> utf8_valid (slice inp a e) then Some (Err BIo)
          else let trimmed = trim_line_end (from_bytes (slice inp a e)) in
          if trimmed = [] then Some (Ok (headers, content_length, e))
          else case split_once '':'' trimmed of
              None \<Rightarrow> live_headers max_body_bytes inp e headers content_length
            | Some (n, v) \<Rightarrow>
                let name = trim n; val = trim v in
                if eq_ignore_case name ''content-length'' then
                  (let n = (case parse_usize val of None \<Rightarrow> 0 | Some k \<Rightarrow> k) in
                   if n > max_body_bytes then Some (Err RequestBodyTooLarge)
                   else live_headers max_body_bytes inp e headers n)
                else if dropped_header name then live_headers max_body_bytes inp e headers content_length
                else live_headers max_body_bytes inp e (map_insert name (JStr val) headers) content_length)"

definition live_request :: "feed \<Rightarrow> nat \<Rightarrow> (http_gateway_request, broker_error) result option" where
  "live_request inp max_body_bytes =
     (case line_end inp 0 of
        None \<Rightarrow> None
      | Some e \<Rightarrow>
          if \<not> utf8_valid (slice inp 0 e) then Some (Err BIo)
          else case split_whitespace (from_bytes (slice inp 0 e)) of
              [] \<Rightarrow> Some (Err (MissingField ''http_method''))
            | [_] \<Rightarrow> Some (Err (MissingField ''http_path''))
            | m # path # _ \<Rightarrow>
                (case live_headers max_body_bytes inp e [] 0 of
                   None \<Rightarrow> None
                 | Some r \<Rightarrow> Some (bind_r r (\<lambda>(headers, content_length, b).
                     let body = slice inp b (b + content_length)
                     in Ok \<lparr>gq_method = to_upper m, gq_path = path, gq_forward_headers = headers,
                            gq_body = (if body = [] then None else Some (utf8_lossy body))\<rparr>))))"

section \<open>Lines\<close>

lemma line_end_Some:
  assumes "line_end inp a = Some e"
  shows "a < e" and "inp (e - 1) = 10" and "\<forall>i. a \<le> i \<and> i < e - 1 \<longrightarrow> inp i \<noteq> 10"
proof -
  have "a < e \<and> inp (e - 1) = 10 \<and> (\<forall>i. a \<le> i \<and> i < e - 1 \<longrightarrow> inp i \<noteq> 10)"
    using assms
  proof (induction rule: line_end.raw_induct [rotated, consumes 1])
    case (1 rec inp a e)
    show ?case
    proof (cases "inp a = 10")
      case False
      then have "Suc a < e" "inp (e - 1) = 10" "\<forall>i. Suc a \<le> i \<and> i < e - 1 \<longrightarrow> inp i \<noteq> 10"
        using 1(1) [of inp "Suc a" e] 1(2) by auto
      then show ?thesis
        using False by (metis Suc_lessD not_less_eq_eq le_antisym)
    qed (use 1(2) in auto)
  qed
  then show "a < e" "inp (e - 1) = 10" "\<forall>i. a \<le> i \<and> i < e - 1 \<longrightarrow> inp i \<noteq> 10"
    by blast+
qed

lemma line_end_before:
  assumes "inp i = 10" and "a \<le> i"
  shows "\<exists>e \<le> Suc i. line_end inp a = Some e"
  using assms(2)
proof (induction "i - a" arbitrary: a)
  case 0
  then show ?case
    using assms(1) by (subst line_end.simps) simp
next
  case (Suc n)
  then show ?case
    using Suc.hyps(1) [of "Suc a"] by (subst line_end.simps) auto
qed

lemma slice_empty [simp]: "slice inp a b = [] \<longleftrightarrow> b \<le> a"
  by (auto simp: slice_def)

lemma slice_append: "a \<le> b \<Longrightarrow> b \<le> c \<Longrightarrow> slice inp a c = slice inp a b @ slice inp b c"
  unfolding slice_def by (metis le_Suc_ex map_append upt_add_eq_append le_trans)

lemma read_line_slice:
  assumes "line_end inp a = Some e" and "e \<le> m"
  shows "read_line (slice inp a m)
    = (if utf8_valid (slice inp a e) then Ok (from_bytes (slice inp a e), slice inp e m) else Err BIo)"
proof -
  note e = line_end_Some [OF assms(1)]
  have parts: "slice inp a m = slice inp a (e - 1) @ 10 # slice inp e m"
    using e slice_append [of a "e - 1" m inp] slice_append [of "e - 1" e m inp] assms(2)
    by (auto simp: slice_def upt_conv_Cons)
  have line: "slice inp a e = slice inp a (e - 1) @ [10]"
    using e slice_append [of a "e - 1" e inp] by (auto simp: slice_def upt_conv_Cons)
  have "b \<noteq> 10" if "b \<in> set (slice inp a (e - 1))" for b
    using that e(3) by (auto simp: slice_def)
  then have "split_line (slice inp a m) = (slice inp a e, slice inp e m)"
    unfolding split_line_def parts line by (simp add: Let_def takeWhile_append2 dropWhile_append2)
  then show ?thesis
    by (simp add: read_line_def)
qed

section \<open>The reader on an open and on a closed connection\<close>

text \<open>What a header line does to the headers and the length of the body.\<close>

definition take_header :: "nat \<Rightarrow> string \<Rightarrow> jmap \<Rightarrow> nat \<Rightarrow> (jmap \<times> nat, broker_error) result" where
  "take_header k line hs n =
     (case split_once '':'' line of
        None \<Rightarrow> Ok (hs, n)
      | Some (name, v) \<Rightarrow>
          if eq_ignore_case (trim name) ''content-length'' then
            (let m = (case parse_usize (trim v) of None \<Rightarrow> 0 | Some m \<Rightarrow> m)
             in if m > k then Err RequestBodyTooLarge else Ok (hs, m))
          else if dropped_header (trim name) then Ok (hs, n)
          else Ok (map_insert (trim name) (JStr (trim v)) hs, n))"

lemma take_header_outcome: "take_header k line hs n \<noteq> Panic"
  by (auto simp: take_header_def Let_def split: option.split)

definition after_line :: "nat \<Rightarrow> bytes \<Rightarrow> jmap \<Rightarrow> nat \<Rightarrow> ((jmap \<times> nat) option, broker_error) result" where
  "after_line k l hs n =
     (if \<not> utf8_valid l then Err BIo
      else if trim_line_end (from_bytes l) = [] then Ok None
      else bind_r (take_header k (trim_line_end (from_bytes l)) hs n) (\<lambda>s. Ok (Some s)))"

lemma header_body:
  fixes more :: "jmap \<Rightarrow> nat \<Rightarrow> (jmap \<times> nat \<times> 'r, broker_error) result option"
  shows "(if \<not> utf8_valid l then Some (Err BIo)
    else let trimmed = trim_line_end (from_bytes l) in
    if trimmed = [] then Some (Ok (hs, n, e))
    else case split_once '':'' trimmed of
        None \<Rightarrow> more hs n
      | Some (name, v) \<Rightarrow>
          let name = trim name; val = trim v in
          if eq_ignore_case name ''content-length'' then
            (let n = (case parse_usize val of None \<Rightarrow> 0 | Some k \<Rightarrow> k) in
             if n > k then Some (Err RequestBodyTooLarge) else more hs n)
          else if dropped_header name then more hs n
          else more (map_insert name (JStr val) hs) n) =
    (case after_line k l hs n of
       Ok None \<Rightarrow> Some (Ok (hs, n, e)) | Ok (Some (hs', n')) \<Rightarrow> more hs' n'
     | Err x \<Rightarrow> Some (Err x) | Panic \<Rightarrow> Some Panic)"
  by (simp add: after_line_def take_header_def Let_def bind_r_def split: option.split)

lemma live_headers_step:
  "live_headers k inp a hs n = (case line_end inp a of None \<Rightarrow> None | Some e \<Rightarrow>
     (case after_line k (slice inp a e) hs n of
        Ok None \<Rightarrow> Some (Ok (hs, n, e)) | Ok (Some (hs', n')) \<Rightarrow> live_headers k inp e hs' n'
      | Err x \<Rightarrow> Some (Err x) | Panic \<Rightarrow> Some Panic))"
  by (subst live_headers.simps) (simp only: header_body)

lemma read_headers_step:
  assumes "line_end inp a = Some e" and "e \<le> m"
  shows "read_headers k (slice inp a m) hs n = (case after_line k (slice inp a e) hs n of
     Ok None \<Rightarrow> Ok (hs, n, slice inp e m) | Ok (Some (hs', n')) \<Rightarrow> read_headers k (slice inp e m) hs' n'
   | Err x \<Rightarrow> Err x | Panic \<Rightarrow> Panic)"
  using read_line_slice [OF assms]
  by (subst read_headers.simps)
    (simp add: after_line_def take_header_def Let_def bind_r_def split: option.split)

text \<open>What the closed connection has left where the open one has a position.\<close>

definition rest_at :: "feed \<Rightarrow> nat \<Rightarrow> (jmap \<times> nat \<times> nat, broker_error) result
    \<Rightarrow> (jmap \<times> nat \<times> bytes, broker_error) result" where
  "rest_at inp m r = bind_r r (\<lambda>(headers, n, b). Ok (headers, n, slice inp b m))"

lemma live_headers_closed:
  assumes "live_headers k inp a hs n = Some r"
  shows "\<exists>m0. \<forall>m \<ge> m0. read_headers k (slice inp a m) hs n = rest_at inp m r \<and>
    (\<forall>hs' n' b. r = Ok (hs', n', b) \<longrightarrow> b + n' \<le> m)"
  using assms
proof (induction rule: live_headers.raw_induct [rotated, consumes 1])
  case (1 rec k inp a hs n r)
  obtain e where e: "line_end inp a = Some e" and
    body: "(case after_line k (slice inp a e) hs n of
        Ok None \<Rightarrow> Some (Ok (hs, n, e)) | Ok (Some (hs', n')) \<Rightarrow> rec k inp e hs' n'
      | Err x \<Rightarrow> Some (Err x) | Panic \<Rightarrow> Some Panic) = Some r"
    using 1(2) unfolding header_body by (auto split: option.splits)
  note closed = read_headers_step [OF e]
  consider hs' n' where "after_line k (slice inp a e) hs n = Ok (Some (hs', n'))" "rec k inp e hs' n' = Some r"
    | "\<forall>m \<ge> e. read_headers k (slice inp a m) hs n = rest_at inp m r" "r = Ok (hs, n, e) \<or> (\<exists>x. r = Err x) \<or> r = Panic"
    using body closed by (fastforce simp: rest_at_def bind_r_def split: result.splits option.splits)
  then show ?case
  proof cases
    case (1 hs' n')
    then obtain m0 where "\<forall>m \<ge> m0. read_headers k (slice inp e m) hs' n' = rest_at inp m r \<and>
        (\<forall>hs' n' b. r = Ok (hs', n', b) \<longrightarrow> b + n' \<le> m)"
      using "1.IH" [OF 1(2)] by blast
    then show ?thesis
      using closed 1(1) by (intro exI [of _ "max m0 e"]) simp
  qed (intro exI [of _ "e + n"], auto)
qed

text \<open>An empty line, ended by a line feed with or without a carriage return.\<close>

definition empty_line_at :: "feed \<Rightarrow> nat \<Rightarrow> bool" where
  "empty_line_at inp i \<longleftrightarrow> inp i = 10 \<or> inp i = 13 \<and> inp (Suc i) = 10"

lemma after_empty_line:
  assumes "empty_line_at inp e"
  shows "\<exists>l. live_headers k inp e hs n = Some (Ok (hs, n, l))"
proof -
  have "line_end inp e = Some (e + 1) \<and> slice inp e (e + 1) = [10] \<or>
      line_end inp e = Some (e + 2) \<and> slice inp e (e + 2) = [13, 10]"
    using assms line_end.simps [of inp e] line_end.simps [of inp "Suc e"]
    by (auto simp: empty_line_at_def slice_def upt_conv_Cons)
  then obtain l where "line_end inp e = Some l" "slice inp e l \<in> {[10], [13, 10]}"
    by blast
  moreover have "after_line k l hs n = Ok None" if "l \<in> {[10], [13, 10]}" for l
  proof -
    have "utf8_valid l"
      using that by (intro utf8_valid_ascii) auto
    moreover have "trim_line_end (from_bytes l) = []"
      using that by (auto simp: from_bytes_def byte_char_def trim_line_end_def char_of_eq_iff)
    ultimately show ?thesis
      by (simp add: after_line_def)
  qed
  ultimately show ?thesis
    by (subst live_headers_step) simp
qed

lemma live_headers_ends:
  assumes "inp i = 10" and "empty_line_at inp (Suc i)" and "a \<le> Suc i"
  shows "\<exists>r. live_headers k inp a hs n = Some r"
  using assms(3)
proof (induction "Suc i - a" arbitrary: a hs n rule: less_induct)
  case less
  show ?case
  proof (cases "a = Suc i")
    case False
    then obtain e where e: "line_end inp a = Some e" "e \<le> Suc i"
      using line_end_before [of inp i a] assms(1) less.prems by auto
    have "\<exists>r. live_headers k inp e hs' n' = Some r" for hs' n'
      using less.hyps [of e] line_end_Some(1) [OF e(1)] e(2) less.prems False by simp
    then show ?thesis
      using e(1) by (subst live_headers_step) (simp split: result.split option.split)
  qed (use after_empty_line [OF assms(2)] in blast)
qed

lemma live_request_closed:
  assumes "live_request inp k = Some r"
  shows "\<exists>m0. \<forall>m \<ge> m0. read_http_gateway_request (slice inp 0 m) k = r"
proof -
  obtain e where e: "line_end inp 0 = Some e"
    using assms by (auto simp: live_request_def split: option.splits)
  note first = read_line_slice [OF e]
  show ?thesis
  proof (cases "utf8_valid (slice inp 0 e) \<and> 2 \<le> length (split_whitespace (from_bytes (slice inp 0 e)))")
    case False
    then show ?thesis
      using assms e first
      by (intro exI [of _ e])
        (auto simp: live_request_def read_http_gateway_request_def bind_r_def split: if_splits list.splits)
  next
    case True
    then obtain w path ws where words: "split_whitespace (from_bytes (slice inp 0 e)) = w # path # ws"
      by (metis One_nat_def Suc_1 Suc_le_length_iff)
    obtain h where h: "live_headers k inp e [] 0 = Some h"
      using assms e True words by (auto simp: live_request_def split: option.splits)
    obtain m0 where m0: "\<forall>m \<ge> m0. read_headers k (slice inp e m) [] 0 = rest_at inp m h \<and>
        (\<forall>hs n b. h = Ok (hs, n, b) \<longrightarrow> b + n \<le> m)"
      using live_headers_closed [OF h] by blast
    have body: "take n (slice inp b m) = slice inp b (b + n)" "\<not> length (slice inp b m) < n" if "b + n \<le> m" for b n m
      using that by (auto simp: slice_def take_map)
    have "read_http_gateway_request (slice inp 0 m) k = r" if "max m0 e \<le> m" for m
      using that assms e True words h first [of m] m0 body
      by (auto simp: live_request_def read_http_gateway_request_def bind_r_def rest_at_def Let_def
          simp del: take_eq_Nil take_eq_Nil2 split: result.splits)
    then show ?thesis
      by blast
  qed
qed

section \<open>A client that never ends its headers\<close>

definition endless :: feed where
  "endless i = [97, 32, 98, 10] ! (i mod 4)"

lemma endless_line: "i mod 4 = 0 \<Longrightarrow> line_end endless i = Some (i + 4) \<and> slice endless i (i + 4) = [97, 32, 98, 10]"
proof -
  assume "i mod 4 = 0"
  then have "Suc i mod 4 = 1" "Suc (Suc i) mod 4 = 2" "Suc (Suc (Suc i)) mod 4 = 3"
    by presburger+
  with \<open>i mod 4 = 0\<close> have "endless i = 97" "endless (Suc i) = 32" "endless (Suc (Suc i)) = 98" "endless (Suc (Suc (Suc i))) = 10"
    by (simp_all add: endless_def)
  then show "line_end endless i = Some (i + 4) \<and> slice endless i (i + 4) = [97, 32, 98, 10]"
    by (simp add: line_end.simps [of endless i] line_end.simps [of endless "Suc i"] line_end.simps [of endless "Suc (Suc i)"]
        line_end.simps [of endless "Suc (Suc (Suc i))"] slice_def upt_conv_Cons)
qed

lemma endless_after: "after_line k [97, 32, 98, 10] hs n = Ok (Some (hs, n))"
proof -
  have "utf8_valid [97, 32, 98, 10]"
    by (intro utf8_valid_ascii) auto
  moreover have "from_bytes [97, 32, 98, 10] = ''a b'' @ [CHR 0x0A]"
    by (simp add: from_bytes_def byte_char_def char_of_eq_iff)
  moreover have "trim_line_end (''a b'' @ [CHR 0x0A]) = ''a b''"
    by (simp add: trim_line_end_def)
  moreover have "split_once '':'' ''a b'' = None"
    by code_simp
  ultimately show ?thesis
    by (simp add: after_line_def take_header_def bind_r_def)
qed

lemma endless_headers: "i mod 4 = 0 \<Longrightarrow> live_headers k endless i hs n = None"
proof -
  have "inp = endless \<Longrightarrow> i mod 4 = 0 \<Longrightarrow> False" if "live_headers k inp i hs n = Some r" for k inp i hs n r
    using that
  proof (induction rule: live_headers.raw_induct [rotated, consumes 1])
    case (1 rec k inp i hs n r)
    note line = endless_line [OF 1(4)]
    have "rec k endless (i + 4) hs n = Some r"
      using 1(2) line endless_after unfolding header_body 1(3) by simp
    then show ?case
      by (rule 1(1)) (use 1(4) in \<open>simp_all add: mod_add_self2\<close>)
  qed
  then show "i mod 4 = 0 \<Longrightarrow> live_headers k endless i hs n = None"
    by (metis option.exhaust)
qed



end
