(* ===== verification/Release.thy ===== *)
theory Release
  imports Disk
begin

text \<open>
  Component \<open>release.rs\<close>: the evidence files of a release, its signing key, the signed manifest of its
  artifacts, and the verification of all of it.
\<close>

section \<open>Data\<close>

datatype release_error =
    RlIo | RlJson | RlCanonicalJson ser_error | RlPkcs8 | RlSpki | RlSignature | RlBase64 | RlMessage string

record artifact_entry =
  ar_path :: string
  ar_sha256 :: string
  ar_size :: u64

record artifact_manifest =
  am_schema :: string
  am_project :: string
  am_version :: string
  am_created_at :: string
  am_source_digest :: "string option"
  am_public_key_sha256 :: string
  am_artifacts :: "artifact_entry list"

record release_signature =
  rs_mode :: string
  rs_manifest :: string
  rs_manifest_sha256 :: string
  rs_public_key_sha256 :: string
  rs_signature :: string
  rs_signed_at :: string

record release_check =
  rc_name :: string
  rc_status :: string
  rc_detail :: string

record release_verification =
  rv_passed :: bool
  rv_checks :: "release_check list"

record release_keygen_result =
  kg_private_key_path :: string
  kg_public_key_path :: string
  kg_public_key_sha256 :: string

record release_evidence =
  ev_output_dir :: string
  ev_source_digest :: string
  ev_signature_mode :: string

definition enc_artifact_entry :: "artifact_entry \<Rightarrow> json" where
  "enc_artifact_entry a = to_value
     [(''path'', JStr (ar_path a)), (''sha256'', JStr (ar_sha256 a)), (''size'', enc_u64 (ar_size a))]"

definition dec_artifact_entry :: "json \<Rightarrow> artifact_entry option" where
  "dec_artifact_entry v = do {
     m \<leftarrow> dec_obj v;
     path \<leftarrow> fld dec_str ''path'' m;
     sha \<leftarrow> fld dec_str ''sha256'' m;
     bytes \<leftarrow> fld dec_u64 ''size'' m;
     Some \<lparr>ar_path = path, ar_sha256 = sha, ar_size = bytes\<rparr>
   }"

definition manifest_fields :: "artifact_manifest \<Rightarrow> jmap" where
  "manifest_fields a =
     [(''schema'', JStr (am_schema a)), (''project'', JStr (am_project a)), (''version'', JStr (am_version a)),
      (''created_at'', JStr (am_created_at a)), (''source_digest'', enc_opt JStr (am_source_digest a)),
      (''public_key_sha256'', JStr (am_public_key_sha256 a)),
      (''artifacts'', enc_list enc_artifact_entry (am_artifacts a))]"

definition enc_artifact_manifest :: "artifact_manifest \<Rightarrow> json" where
  "enc_artifact_manifest a = to_value (manifest_fields a)"

definition dec_artifact_manifest :: "json \<Rightarrow> artifact_manifest option" where
  "dec_artifact_manifest v = do {
     m \<leftarrow> dec_obj v;
     schema \<leftarrow> fld dec_str ''schema'' m;
     project \<leftarrow> fld dec_str ''project'' m;
     version \<leftarrow> fld dec_str ''version'' m;
     created_at \<leftarrow> fld dec_str ''created_at'' m;
     digest \<leftarrow> fld_opt dec_str ''source_digest'' m;
     key \<leftarrow> fld dec_str ''public_key_sha256'' m;
     artifacts \<leftarrow> fld (dec_list dec_artifact_entry) ''artifacts'' m;
     Some \<lparr>am_schema = schema, am_project = project, am_version = version, am_created_at = created_at,
       am_source_digest = digest, am_public_key_sha256 = key, am_artifacts = artifacts\<rparr>
   }"

definition enc_release_signature :: "release_signature \<Rightarrow> json" where
  "enc_release_signature s = JObj
     [(''mode'', JStr (rs_mode s)), (''manifest'', JStr (rs_manifest s)),
      (''manifest_sha256'', JStr (rs_manifest_sha256 s)), (''public_key_sha256'', JStr (rs_public_key_sha256 s)),
      (''signature'', JStr (rs_signature s)), (''signed_at'', JStr (rs_signed_at s))]"

definition dec_release_signature :: "json \<Rightarrow> release_signature option" where
  "dec_release_signature v = do {
     m \<leftarrow> dec_obj v;
     mode \<leftarrow> fld dec_str ''mode'' m;
     manifest \<leftarrow> fld dec_str ''manifest'' m;
     sha \<leftarrow> fld dec_str ''manifest_sha256'' m;
     key \<leftarrow> fld dec_str ''public_key_sha256'' m;
     signature \<leftarrow> fld dec_str ''signature'' m;
     signed_at \<leftarrow> fld dec_str ''signed_at'' m;
     Some \<lparr>rs_mode = mode, rs_manifest = manifest, rs_manifest_sha256 = sha, rs_public_key_sha256 = key,
       rs_signature = signature, rs_signed_at = signed_at\<rparr>
   }"

interpretation artifact_codec: json_codec enc_artifact_entry dec_artifact_entry "\<lambda>_. True"
  by unfold_locales (simp add: dec_artifact_entry_def enc_artifact_entry_def to_value_def map_of_build_distinct)

interpretation manifest_codec: json_codec enc_artifact_manifest dec_artifact_manifest "\<lambda>_. True"
proof
  fix a :: artifact_manifest
  have "dec_list dec_artifact_entry (enc_list enc_artifact_entry (am_artifacts a)) = Some (am_artifacts a)"
    by (rule artifact_codec.dec_enc_list_of) simp
  then show "dec_artifact_manifest (enc_artifact_manifest a) = Some a"
    by (simp add: dec_artifact_manifest_def enc_artifact_manifest_def manifest_fields_def to_value_def map_of_build_distinct)
qed

interpretation release_signature_codec: json_codec enc_release_signature dec_release_signature "\<lambda>_. True"
  by unfold_locales (simp add: dec_release_signature_def enc_release_signature_def)

section \<open>Common parts\<close>

definition rl_io :: "('w, 'a, io_error) act \<Rightarrow> ('w, 'a, release_error) act" where
  "rl_io m = on_err (\<lambda>_. RlIo) m"

definition release_hex_sha256 :: "env \<Rightarrow> bytes \<Rightarrow> string" where
  "release_hex_sha256 E data = concat (map hex2 (e_sha256 E data))"

definition check :: "string \<Rightarrow> string \<Rightarrow> string \<Rightarrow> release_check" where
  "check name status detail = \<lparr>rc_name = name, rc_status = status, rc_detail = detail\<rparr>"

text \<open>What a failure of a library or of the system says of itself.\<close>

definition failure_text :: "env \<Rightarrow> ('z disk_scheme, string, 'e) act" where
  "failure_text E = (\<lambda>w. (Ok (x_message (e_host E) (tick w)), w\<lparr>tick := Suc (tick w)\<rparr>))"

definition write_pretty_json :: "env \<Rightarrow> string \<Rightarrow> json \<Rightarrow> ('z disk_scheme, unit, release_error) act" where
  "write_pretty_json E path v = rl_io (write_bytes E path (as_bytes (x_json_pretty (e_host E) v)))"

definition read_signature :: "env \<Rightarrow> string \<Rightarrow> ('z disk_scheme, release_signature, release_error) act" where
  "read_signature E path =
     bnd (rl_io (read_bytes E path)) (\<lambda>raw.
       lift_r (ok_or (parse_as E dec_release_signature (from_bytes raw)) RlJson))"

definition write_private_file :: "env \<Rightarrow> string \<Rightarrow> bytes \<Rightarrow> ('z disk_scheme, unit, release_error) act" where
  "write_private_file E path data =
     seq (case path_parent path of None \<Rightarrow> ret () | Some parent \<Rightarrow> rl_io (create_dir_all E parent))
    (seq (rl_io (open_truncated E path 384))
     (rl_io (write_content E path data)))"

section \<open>The digest of the sources\<close>

definition skipped_dirs :: "string list" where
  "skipped_dirs = [''.git'', ''.venv'', ''.pytest_cache'', ''__pycache__'', ''build'', ''dist'', ''release'', ''target'']"

fun collect_source_paths :: "string \<Rightarrow> dir_tree \<Rightarrow> string list option"
  and collect_entries :: "string \<Rightarrow> (string \<times> dir_tree) list \<Rightarrow> string list option" where
  "collect_source_paths current (Dir entries) = collect_entries current entries"
| "collect_source_paths current _ = None"
| "collect_entries current [] = Some []"
| "collect_entries current ((name, BadEntry) # entries) = None"
| "collect_entries current ((name, Leaf there) # entries) =
     map_option (\<lambda>ps. if there then path_join current name # ps else ps) (collect_entries current entries)"
| "collect_entries current ((name, t) # entries) =
     (if name \<in> set skipped_dirs then collect_entries current entries
      else do {
        ps \<leftarrow> collect_source_paths (path_join current name) t;
        qs \<leftarrow> collect_entries current entries;
        Some (ps @ qs)
      })"

text \<open>Paths are ordered by their components; a digest names them from the base on, with forward slashes.\<close>

definition sort_paths :: "string list \<Rightarrow> string list" where
  "sort_paths = sort_key (split_char (CHR ''/''))"

definition relative_path :: "string \<Rightarrow> string \<Rightarrow> string" where
  "relative_path base path =
     (case strip_prefix path base of None \<Rightarrow> path | Some r \<Rightarrow> dropWhile (\<lambda>c. c = CHR ''/'') r)"

definition forward_slashes :: "string \<Rightarrow> string" where
  "forward_slashes = map (\<lambda>c. if c = CHR 92 then CHR ''/'' else c)"

definition digest_part :: "env \<Rightarrow> string \<Rightarrow> string \<Rightarrow> ('z disk_scheme, bytes, release_error) act" where
  "digest_part E base path =
     bnd (rl_io (read_bytes E path)) (\<lambda>content.
       ret (as_bytes (forward_slashes (relative_path base path)) @ [0] @ content @ [0]))"

definition source_digest :: "env \<Rightarrow> string \<Rightarrow> ('z disk_scheme, string, release_error) act" where
  "source_digest E base = (\<lambda>w.
     bnd (lift_r (ok_or (collect_source_paths base (x_read_tree (e_host E) (tick w) base)) RlIo)) (\<lambda>paths.
     bnd (for_each (digest_part E base) (sort_paths paths)) (\<lambda>parts.
     ret (e_b64url E (e_sha256 E (concat parts))))) (w\<lparr>tick := Suc (tick w)\<rparr>))"

section \<open>Evidence\<close>

text \<open>The packages of a lock file: a name and a version before the next package starts.\<close>

definition library_component :: "string \<times> string \<Rightarrow> json" where
  "library_component = (\<lambda>(name, version).
     to_value [(''type'', JStr ''library''), (''name'', JStr name), (''version'', JStr version)])"

definition unquoted :: "string \<Rightarrow> string" where
  "unquoted s = rev (dropWhile (\<lambda>c. c = CHR 34) (rev (dropWhile (\<lambda>c. c = CHR 34) s)))"

definition package_of :: "string option \<Rightarrow> string option \<Rightarrow> (string \<times> string) list" where
  "package_of name version =
     (case (name, version) of (Some n, Some v) \<Rightarrow> [(n, v)] | _ \<Rightarrow> [])"

fun lock_packages :: "string option \<Rightarrow> string option \<Rightarrow> string list \<Rightarrow> (string \<times> string) list" where
  "lock_packages name version [] = package_of name version"
| "lock_packages name version (line # lines) =
     (let trimmed = trim line in
      if trimmed = ''[[package]]'' then package_of name version @ lock_packages None None lines
      else
        let name' = (case strip_prefix trimmed ''name = '' of None \<Rightarrow> name | Some v \<Rightarrow> Some (unquoted v));
            version' = (case strip_prefix trimmed ''version = '' of None \<Rightarrow> version | Some v \<Rightarrow> Some (unquoted v))
        in lock_packages name' version' lines)"

definition cargo_lock_components :: "env \<Rightarrow> string \<Rightarrow> ('z disk_scheme, json list, release_error) act" where
  "cargo_lock_components E path =
     bnd (rl_io (read_to_string E path)) (\<lambda>raw.
       ret (map library_component (lock_packages None None (str_lines raw))))"

definition rustc_version :: "env \<Rightarrow> ('z disk_scheme, string, release_error) act" where
  "rustc_version E = (\<lambda>w.
     (Ok (case fst (e_run E (tick w) ''rustc'' [''--version''] [] Map.empty) of
        Exited _ out _ \<Rightarrow>
          (let v = trim (from_bytes out) in if utf8_valid out \<and> v \<noteq> [] then v else ''unknown'')
      | _ \<Rightarrow> ''unknown''), w\<lparr>tick := Suc (tick w)\<rparr>))"

definition canonical_path :: "env \<Rightarrow> string \<Rightarrow> ('z disk_scheme, string option, 'e) act" where
  "canonical_path E path = (\<lambda>w. (Ok (x_canonical_path (e_host E) (tick w) path), w\<lparr>tick := Suc (tick w)\<rparr>))"

definition openapi_default :: json where
  "openapi_default = to_value
     [(''openapi'', JStr ''3.1.0''),
      (''info'', to_value [(''title'', JStr ''HBSE''), (''version'', JStr ''native-local'')]),
      (''paths'', JObj []),
      (''x-hbse-note'', JStr ''Native release evidence generated without REST OpenAPI export input.'')]"

fun openapi_from :: "env \<Rightarrow> string list \<Rightarrow> string \<Rightarrow> ('z disk_scheme, unit, release_error) act" where
  "openapi_from E [] destination = write_pretty_json E destination openapi_default"
| "openapi_from E (source # sources) destination =
     bnd (file_at source) (\<lambda>there.
     if there then
       bnd (canonical_path E source) (\<lambda>a. bnd (canonical_path E destination) (\<lambda>b.
       if a \<noteq> b then rl_io (copy_file E source destination) else ret ()))
     else openapi_from E sources destination)"

definition write_openapi_evidence :: "env \<Rightarrow> string \<Rightarrow> string \<Rightarrow> ('z disk_scheme, unit, release_error) act" where
  "write_openapi_evidence E base output =
     openapi_from E [path_join base ''release/openapi.json'', path_join base ''openapi.json'']
       (path_join output ''openapi.json'')"

definition proto_default :: string where
  "proto_default = ''syntax = '' @ CHR 34 # ''proto3'' @ CHR 34 # '';'' @ CHR 10 # ''package hbse.v1;'' @ [CHR 10]"

definition write_proto_evidence :: "env \<Rightarrow> string \<Rightarrow> string \<Rightarrow> ('z disk_scheme, unit, release_error) act" where
  "write_proto_evidence E base output =
     (let source = path_join base ''proto/hbse/v1/hbse.proto'';
          destination = path_join output ''proto/hbse/v1/hbse.proto''
      in seq (case path_parent destination of None \<Rightarrow> ret () | Some parent \<Rightarrow> rl_io (create_dir_all E parent))
        (bnd (file_at source) (\<lambda>there.
         if there then rl_io (copy_file E source destination)
         else rl_io (write_bytes E destination (as_bytes proto_default)))))"

definition evidence_checklist :: json where
  "evidence_checklist = to_value
     [(''crypto_tests'', JStr ''run-required''), (''policy_tests'', JStr ''run-required''),
      (''ticket_tests'', JStr ''run-required''), (''audit_tests'', JStr ''run-required''),
      (''redaction_tests'', JStr ''run-required''), (''backup_restore_tests'', JStr ''run-required''),
      (''external_security_review'', JStr ''required-for-A4-plus''),
      (''real_hardware_provider_matrix'', JStr ''required-for-A4-plus'')]"

definition unsigned_signature :: "string \<Rightarrow> json" where
  "unsigned_signature digest = to_value
     [(''mode'', JStr ''unsigned-development-evidence''), (''source_digest'', JStr digest),
      (''warning'', JStr ''Run hbse release sign with an Ed25519 release key for production.'')]"

definition generate_release_evidence ::
    "env \<Rightarrow> string \<Rightarrow> string \<Rightarrow> string \<Rightarrow> ('z disk_scheme, release_evidence, release_error) act" where
  "generate_release_evidence E output base version =
     seq (rl_io (create_dir_all E output))
    (bnd (source_digest E base) (\<lambda>digest.
     bnd (handle (cargo_lock_components E (path_join base ''Cargo.lock'')) ret (\<lambda>_ :: release_error.
       handle (cargo_lock_components E (path_join base ''rust/Cargo.lock'')) ret (\<lambda>_. ret []))) (\<lambda>components.
     let sbom = to_value
       [(''bomFormat'', JStr ''CycloneDX-lite''), (''specVersion'', JStr ''1.0-local''),
        (''metadata'', to_value [(''component'', to_value [(''name'', JStr ''hbse''), (''version'', JStr version)])]),
        (''components'', JArr components)] in
     seq (write_pretty_json E (path_join output ''sbom.json'') sbom)
    (bnd (now E) (\<lambda>time.
     bnd (rustc_version E) (\<lambda>rustc.
     let provenance = to_value
       [(''project'', JStr ''hbse''), (''version'', JStr version), (''created_at'', JStr (e_time_ms E time)),
        (''rustc'', JStr rustc), (''platform'', JStr (fst (x_platform (e_host E)))),
        (''arch'', JStr (snd (x_platform (e_host E)))), (''source_digest'', JStr digest)] in
     seq (write_pretty_json E (path_join output ''provenance.json'') provenance)
    (seq (write_pretty_json E (path_join output ''production_checklist.json'') evidence_checklist)
    (seq (write_pretty_json E (path_join output ''artifact.sig'') (unsigned_signature digest))
    (let lock = to_value
       [(''project'', JStr ''hbse''), (''version'', JStr version), (''source_digest'', JStr digest),
        (''components'', JArr components)] in
     seq (write_pretty_json E (path_join output ''dependency-lock.json'') lock)
    (seq (write_openapi_evidence E base output)
    (seq (write_proto_evidence E base output)
     (ret \<lparr>ev_output_dir = output, ev_source_digest = digest,
        ev_signature_mode = ''unsigned-development-evidence''\<rparr>))))))))))))"

section \<open>Keys and signing\<close>

definition generate_signing_keypair ::
    "env \<Rightarrow> string \<Rightarrow> string \<Rightarrow> string option \<Rightarrow> ('z disk_scheme, release_keygen_result, release_error) act" where
  "generate_signing_keypair E private_path public_path passphrase =
     bnd (random_bytes E 32) (\<lambda>seed.
     bnd (\<lambda>w. (ok_or (x_private_pem (e_host E) (tick w) seed passphrase) RlPkcs8, w\<lparr>tick := Suc (tick w)\<rparr>)) (\<lambda>private_pem.
     bnd (lift_r (ok_or (x_public_pem (e_host E) seed) RlSpki)) (\<lambda>public_pem.
     seq (write_private_file E private_path (as_bytes private_pem))
    (seq (case path_parent public_path of None \<Rightarrow> ret () | Some parent \<Rightarrow> rl_io (create_dir_all E parent))
    (seq (rl_io (write_bytes E public_path (as_bytes public_pem)))
     (ret \<lparr>kg_private_key_path = private_path, kg_public_key_path = public_path,
        kg_public_key_sha256 = release_hex_sha256 E (as_bytes public_pem)\<rparr>))))))"

definition make_artifact_entry :: "env \<Rightarrow> string \<Rightarrow> ('z disk_scheme, artifact_entry, release_error) act" where
  "make_artifact_entry E path =
     bnd (rl_io (read_bytes E path)) (\<lambda>data.
       ret \<lparr>ar_path = forward_slashes path, ar_sha256 = release_hex_sha256 E data, ar_size = of_nat (length data)\<rparr>)"

text \<open>Each file is listed once, under the first of the paths that lead to it.\<close>

fun artifact_entries ::
    "env \<Rightarrow> string list \<Rightarrow> string list \<Rightarrow> ('z disk_scheme, artifact_entry list, release_error) act" where
  "artifact_entries E seen [] = ret []"
| "artifact_entries E seen (path # paths) =
     bnd (file_at path) (\<lambda>there.
     if \<not> there then fail (RlMessage (path @ '' missing''))
     else
     bnd (canonical_path E path) (\<lambda>found.
     bnd (lift_r (ok_or found RlIo)) (\<lambda>resolved.
     if resolved \<in> set seen then artifact_entries E seen paths
     else
     bnd (make_artifact_entry E path) (\<lambda>entry.
     bnd (artifact_entries E (resolved # seen) paths) (\<lambda>entries.
     ret (entry # entries))))))"

definition evidence_files :: "string list" where
  "evidence_files =
     [''sbom.json'', ''dependency-lock.json'', ''provenance.json'', ''production_checklist.json'', ''openapi.json'',
      ''proto/hbse/v1/hbse.proto'']"

definition provenance_digest :: "env \<Rightarrow> string \<Rightarrow> ('z disk_scheme, string option, release_error) act" where
  "provenance_digest E release_dir =
     handle (read_to_string E (path_join release_dir ''provenance.json''))
       (\<lambda>raw. ret (do {
          v \<leftarrow> e_json_parse E raw;
          m \<leftarrow> dec_obj v;
          d \<leftarrow> map_of m ''source_digest'';
          dec_str d
        }))
       (\<lambda>_. ret None)"

definition build_artifact_manifest ::
    "env \<Rightarrow> string \<Rightarrow> string list \<Rightarrow> string \<Rightarrow> string \<Rightarrow> ('z disk_scheme, artifact_manifest, release_error) act" where
  "build_artifact_manifest E release_dir artifact_paths version public_key_sha256 =
     bnd (artifact_entries E [] (map (path_join release_dir) evidence_files @ artifact_paths)) (\<lambda>entries.
     bnd (provenance_digest E release_dir) (\<lambda>digest.
     bnd (now E) (\<lambda>time.
     ret \<lparr>am_schema = ''hbse.release.artifacts.v1'', am_project = ''hbse'', am_version = version,
       am_created_at = e_time_ms E time, am_source_digest = digest, am_public_key_sha256 = public_key_sha256,
       am_artifacts = entries\<rparr>)))"

definition public_path_of :: "string \<Rightarrow> string option \<Rightarrow> string" where
  "public_path_of release_dir public_key_path =
     (case public_key_path of Some p \<Rightarrow> p | None \<Rightarrow> path_join release_dir ''signing_public_key.pem'')"

definition sign_release_artifacts ::
    "env \<Rightarrow> string \<Rightarrow> string list \<Rightarrow> string \<Rightarrow> string option \<Rightarrow> string option \<Rightarrow> string
      \<Rightarrow> ('z disk_scheme, artifact_manifest \<times> release_signature, release_error) act" where
  "sign_release_artifacts E release_dir artifact_paths private_key_path public_key_path key_passphrase version =
     seq (rl_io (create_dir_all E release_dir))
    (bnd (rl_io (read_to_string E private_key_path)) (\<lambda>private_pem.
     bnd (lift_r (ok_or (x_load_private (e_host E) private_pem key_passphrase) RlPkcs8)) (\<lambda>signing_key.
     bnd (lift_r (ok_or (x_public_pem (e_host E) signing_key) RlSpki)) (\<lambda>public_pem.
     let public_path = public_path_of release_dir public_key_path in
     seq (case path_parent public_path of None \<Rightarrow> ret () | Some parent \<Rightarrow> rl_io (create_dir_all E parent))
    (seq (rl_io (write_bytes E public_path (as_bytes public_pem)))
    (bnd (build_artifact_manifest E release_dir artifact_paths version (release_hex_sha256 E (as_bytes public_pem)))
       (\<lambda>manifest.
     bnd (lift_r (map_err RlCanonicalJson (canonical E (enc_artifact_manifest manifest)))) (\<lambda>manifest_bytes.
     seq (rl_io (write_bytes E (path_join release_dir ''artifacts.json'') manifest_bytes))
    (bnd (now E) (\<lambda>time.
     let signature = \<lparr>rs_mode = ''ed25519'', rs_manifest = ''artifacts.json'',
       rs_manifest_sha256 = release_hex_sha256 E manifest_bytes,
       rs_public_key_sha256 = release_hex_sha256 E (as_bytes public_pem),
       rs_signature = e_b64url E (x_sign (e_host E) signing_key manifest_bytes),
       rs_signed_at = e_time_ms E time\<rparr> in
     seq (rl_io (write_bytes E (path_join release_dir ''artifact.sig'')
       (as_bytes (x_json_pretty (e_host E) (enc_release_signature signature)))))
     (ret (manifest, signature))))))))))))"

section \<open>Verification\<close>

definition artifact_check :: "env \<Rightarrow> artifact_entry \<Rightarrow> ('z disk_scheme, release_check, 'e) act" where
  "artifact_check E item =
     handle (read_bytes E (ar_path item))
       (\<lambda>data.
          let actual_sha = release_hex_sha256 E data;
              actual_size = (of_nat (length data) :: u64)
          in ret (check (''artifact:'' @ ar_path item)
               (if actual_sha = ar_sha256 item \<and> actual_size = ar_size item then ''pass'' else ''fail'')
               (''sha256='' @ actual_sha @ '' size='' @ nat_dec (unat actual_size))))
       (\<lambda>_. ret (check (''artifact:'' @ ar_path item) ''fail'' ''missing''))"

definition verify_manifest_artifact_hashes ::
    "env \<Rightarrow> artifact_manifest \<Rightarrow> ('z disk_scheme, release_check list, 'e) act" where
  "verify_manifest_artifact_hashes E manifest = for_each (artifact_check E) (am_artifacts manifest)"

text \<open>The closure that checks the signature itself.\<close>

definition verify_result :: "env \<Rightarrow> string \<Rightarrow> artifact_manifest \<Rightarrow> release_signature \<Rightarrow> (unit, release_error) result" where
  "verify_result E public_pem manifest signature =
     bind_r (ok_or (x_load_public (e_host E) public_pem) RlSpki) (\<lambda>verifying_key.
     bind_r (ok_or (e_b64url_dec E (rs_signature signature)) RlBase64) (\<lambda>signature_bytes.
     if length signature_bytes \<noteq> 64 then Err RlSignature
     else
     bind_r (map_err RlCanonicalJson (canonical E (enc_artifact_manifest manifest))) (\<lambda>message.
     if x_verify (e_host E) verifying_key message signature_bytes then Ok () else Err RlSignature)))"

text \<open>What follows once the manifest has been read: its artifacts, the public key, the signature.\<close>

definition verify_manifest ::
    "env \<Rightarrow> string \<Rightarrow> release_signature \<Rightarrow> release_check list \<Rightarrow> artifact_manifest
      \<Rightarrow> ('z disk_scheme, release_check list, 'e) act" where
  "verify_manifest E public_path signature checks manifest =
     bnd (verify_manifest_artifact_hashes E manifest) (\<lambda>artifacts.
     handle (read_to_string E public_path)
       (\<lambda>public_pem.
          let public_sha = release_hex_sha256 E (as_bytes public_pem);
              key_ok = (public_sha = rs_public_key_sha256 signature);
              checks = checks @ artifacts @ [check ''artifact.sig:public_key''
                (if key_ok then ''pass'' else ''fail'') public_sha]
          in if \<not> key_ok then ret checks
             else (case verify_result E public_pem manifest signature of
                 Ok _ \<Rightarrow> ret (checks @ [check ''artifact.sig:signature'' ''pass'' ''valid Ed25519 signature''])
               | Err _ \<Rightarrow> bnd (failure_text E) (\<lambda>e. ret (checks @ [check ''artifact.sig:signature'' ''fail'' e]))
               | Panic \<Rightarrow> lift_r Panic))
       (\<lambda>_. ret (checks @ artifacts @ [check ''artifact.sig:public_key'' ''fail'' (public_path @ '' missing'')])))"

definition verify_ed25519_signature ::
    "env \<Rightarrow> string \<Rightarrow> release_signature \<Rightarrow> string option \<Rightarrow> ('z disk_scheme, release_check list, 'e) act" where
  "verify_ed25519_signature E release_dir signature public_key_path =
     handle (read_bytes E (path_join release_dir (rs_manifest signature)))
      (\<lambda>manifest_bytes.
         let actual_sha = release_hex_sha256 E manifest_bytes;
             checks = [check ''artifacts.json:sha256''
               (if actual_sha = rs_manifest_sha256 signature then ''pass'' else ''fail'') actual_sha]
         in case parse_as E dec_artifact_manifest (from_bytes manifest_bytes) of
              None \<Rightarrow> bnd (failure_text E) (\<lambda>e. ret (checks @ [check ''artifacts.json:parse'' ''fail'' e]))
            | Some manifest \<Rightarrow>
                verify_manifest E (public_path_of release_dir public_key_path) signature checks manifest)
      (\<lambda>_. ret [check ''artifacts.json:signature'' ''fail'' ''manifest missing''])"

definition evidence_check :: "string \<Rightarrow> string \<Rightarrow> ('z disk_scheme, release_check, 'e) act" where
  "evidence_check base name =
     bnd (on_disk (path_join base name)) (\<lambda>there.
       ret (check name (if name = ''artifacts.json'' \<and> \<not> there then ''warn'' else if there then ''pass'' else ''fail'')
         (if there then ''exists'' else ''missing'')))"

definition json_check :: "env \<Rightarrow> string \<Rightarrow> string \<Rightarrow> ('z disk_scheme, release_check list, 'e) act" where
  "json_check E base name =
     bnd (on_disk (path_join base name)) (\<lambda>there.
     if \<not> there then ret []
     else
       let invalid = bnd (failure_text E) (\<lambda>e. ret [check (name @ '':json'') ''fail'' e]) in
       handle (read_to_string E (path_join base name))
         (\<lambda>raw. if e_json_parse E raw = None then invalid else ret [check (name @ '':json'') ''pass'' ''valid JSON''])
         (\<lambda>_. invalid))"

definition signature_checks ::
    "env \<Rightarrow> string \<Rightarrow> string option \<Rightarrow> ('z disk_scheme, release_check list, 'e) act" where
  "signature_checks E base public_key_path =
     (let signature_path = path_join base ''artifact.sig'' in
      bnd (on_disk signature_path) (\<lambda>there.
      if \<not> there then ret []
      else handle (read_signature E signature_path)
        (\<lambda>signature.
           if rs_mode signature = ''unsigned-development-evidence''
           then ret [check ''artifact.sig:mode'' ''warn'' ''unsigned-development-evidence'']
           else if rs_mode signature = ''ed25519''
           then bnd (verify_ed25519_signature E base signature public_key_path) (\<lambda>checks.
             ret (check ''artifact.sig:mode'' ''pass'' ''ed25519'' # checks))
           else ret [check ''artifact.sig:mode'' ''fail'' (''unsupported mode: '' @ rs_mode signature)])
        (\<lambda>_. bnd (failure_text E) (\<lambda>e. ret [check ''artifact.sig:parse'' ''fail'' e]))))"

definition required_files :: "string list" where
  "required_files =
     [''sbom.json'', ''provenance.json'', ''production_checklist.json'', ''artifact.sig'', ''dependency-lock.json'',
      ''openapi.json'', ''proto/hbse/v1/hbse.proto'', ''artifacts.json'']"

definition json_files :: "string list" where
  "json_files =
     [''sbom.json'', ''provenance.json'', ''production_checklist.json'', ''artifact.sig'', ''dependency-lock.json'',
      ''openapi.json'', ''artifacts.json'']"

definition verify_release_evidence ::
    "env \<Rightarrow> string \<Rightarrow> string option \<Rightarrow> ('z disk_scheme, release_verification, release_error) act" where
  "verify_release_evidence E base public_key_path =
     bnd (for_each (evidence_check base) required_files) (\<lambda>present.
     bnd (for_each (json_check E base) json_files) (\<lambda>parsed.
     bnd (signature_checks E base public_key_path) (\<lambda>signed.
     let checks = present @ concat parsed @ signed in
     ret \<lparr>rv_passed = list_all (\<lambda>item. rc_status item \<noteq> ''fail'') checks, rv_checks = checks\<rparr>)))"

end
