(* ===== verification/Release_Checks.thy ===== *)
theory Release_Checks
  imports Release
begin

text \<open>
  What the verification of a release decides.
\<close>

section \<open>The verdict, declaratively\<close>

text \<open>A file that reads as text, and one that reads as JSON.\<close>

definition reads_text :: "'z disk_scheme \<Rightarrow> string \<Rightarrow> string \<Rightarrow> bool" where
  "reads_text w p s \<longleftrightarrow> (\<exists>c m. d_files w p = Some (c, m) \<and> utf8_valid c \<and> s = from_bytes c)"

definition on_file :: "'z disk_scheme \<Rightarrow> string \<Rightarrow> bool" where
  "on_file w p \<longleftrightarrow> d_files w p \<noteq> None \<or> d_dirs w p \<noteq> None"

definition artifact_intact :: "env \<Rightarrow> 'z disk_scheme \<Rightarrow> artifact_entry \<Rightarrow> bool" where
  "artifact_intact E w a \<longleftrightarrow> (\<exists>data. says (ar_path a) data w \<and>
     release_hex_sha256 E data = ar_sha256 a \<and> of_nat (length data) = ar_size a)"

definition signature_holds :: "env \<Rightarrow> string \<Rightarrow> artifact_manifest \<Rightarrow> release_signature \<Rightarrow> bool" where
  "signature_holds E pem m s \<longleftrightarrow> (\<exists>key bs msg. x_load_public (e_host E) pem = Some key \<and>
     e_b64url_dec E (rs_signature s) = Some bs \<and> length bs = 64 \<and>
     canonical E (enc_artifact_manifest m) = Ok msg \<and> x_verify (e_host E) key msg bs)"

text \<open>
  A manifest signed under the key at hand: the signature names the manifest's hash and the key's, it is
  valid, and every artifact of the manifest is there unchanged.
\<close>

definition properly_signed :: "env \<Rightarrow> 'z disk_scheme \<Rightarrow> string \<Rightarrow> string option \<Rightarrow> release_signature \<Rightarrow> bool" where
  "properly_signed E w base public_key_path s \<longleftrightarrow> (\<exists>raw m pem.
     says (path_join base (rs_manifest s)) raw w \<and> release_hex_sha256 E raw = rs_manifest_sha256 s \<and>
     parse_as E dec_artifact_manifest (from_bytes raw) = Some m \<and>
     (\<forall>a. a \<in> set (am_artifacts m) \<longrightarrow> artifact_intact E w a) \<and>
     reads_text w (public_path_of base public_key_path) pem \<and>
     release_hex_sha256 E (as_bytes pem) = rs_public_key_sha256 s \<and> signature_holds E pem m s)"

definition release_sound :: "env \<Rightarrow> 'z disk_scheme \<Rightarrow> string \<Rightarrow> string option \<Rightarrow> bool" where
  "release_sound E w base public_key_path \<longleftrightarrow>
     (\<forall>n. n \<in> set required_files \<longrightarrow> n = ''artifacts.json'' \<or> on_file w (path_join base n)) \<and>
     (\<forall>n. n \<in> set json_files \<longrightarrow> on_file w (path_join base n) \<longrightarrow>
        (\<exists>s. reads_text w (path_join base n) s \<and> e_json_parse E s \<noteq> None)) \<and>
     (\<exists>raw s. says (path_join base ''artifact.sig'') raw w \<and> parse_as E dec_release_signature (from_bytes raw) = Some s \<and>
        (rs_mode s = ''unsigned-development-evidence'' \<or>
         rs_mode s = ''ed25519'' \<and> properly_signed E w base public_key_path s))"

section \<open>Checks that decide\<close>

text \<open>
  \<open>decides E w m ok S\<close>: from any state with the disk of \<open>w\<close>, \<open>m\<close> returns without touching the disk; a result
  that is \<open>ok\<close> means \<open>S\<close>, and where the machine lets reads through \<open>S\<close> means a result that is \<open>ok\<close>.
\<close>

definition same_disk :: "'z disk_scheme \<Rightarrow> 'z disk_scheme \<Rightarrow> bool" where
  "same_disk w v \<longleftrightarrow> d_files v = d_files w \<and> d_dirs v = d_dirs w"

definition decides :: "env \<Rightarrow> 'z disk_scheme \<Rightarrow> ('z disk_scheme, 'a, 'e) act \<Rightarrow> ('a \<Rightarrow> bool) \<Rightarrow> bool \<Rightarrow> bool" where
  "decides E w m ok S \<longleftrightarrow> triple (same_disk w) m
     (\<lambda>x v. same_disk w v \<and> (ok x \<longrightarrow> S) \<and> (all_allowed E \<and> S \<longrightarrow> ok x)) (\<lambda>_. False)"

lemma decidesI:
  assumes "\<And>v. same_disk w v \<Longrightarrow>
     \<exists>x v'. m v = (Ok x, v') \<and> same_disk w v' \<and> (ok x \<longrightarrow> S) \<and> (all_allowed E \<and> S \<longrightarrow> ok x)"
  shows "decides E w m ok S"
  unfolding decides_def triple_def
proof (intro allI impI)
  fix v assume "same_disk w v"
  from assms [OF this] show "case m v of (Ok x, v') \<Rightarrow> same_disk w v' \<and> (ok x \<longrightarrow> S) \<and> (all_allowed E \<and> S \<longrightarrow> ok x)
      | (Err e, v') \<Rightarrow> False | (Panic, v') \<Rightarrow> False"
    by auto
qed

lemma decidesE:
  assumes "decides E w m ok S" and "same_disk w v"
  obtains x v' where "m v = (Ok x, v')" and "same_disk w v'" and "ok x \<longrightarrow> S" and "all_allowed E \<and> S \<longrightarrow> ok x"
proof -
  obtain r v' where "m v = (r, v')"
    by fastforce
  with assms show thesis
    by (cases r) (auto simp: decides_def triple_def intro!: that dest!: spec [of _ v])
qed

lemma decides_ret: "ok x = S \<Longrightarrow> decides E w (ret x) ok S"
  by (simp add: decides_def triple_def ret_def)

lemma decides_bnd:
  assumes "decides E w m ok S" and "\<And>x. decides E w (f x) ok' (ok x \<and> T)"
  shows "decides E w (bnd m f) ok' (S \<and> T)"
proof (rule decidesI)
  fix v assume "same_disk w v"
  with assms(1) obtain x v1 where 1: "m v = (Ok x, v1)" "same_disk w v1" "ok x \<longrightarrow> S" "all_allowed E \<and> S \<longrightarrow> ok x"
    by (rule decidesE)
  obtain y v2 where 2: "f x v1 = (Ok y, v2)" "same_disk w v2" "ok' y \<longrightarrow> ok x \<and> T" "all_allowed E \<and> ok x \<and> T \<longrightarrow> ok' y"
    by (rule decidesE [OF assms(2) 1(2)])
  have "bnd m f v = (Ok y, v2)"
    using 1(1) 2(1) by (simp add: bnd_def)
  then show "\<exists>y v2. bnd m f v = (Ok y, v2) \<and> same_disk w v2 \<and> (ok' y \<longrightarrow> S \<and> T) \<and> (all_allowed E \<and> S \<and> T \<longrightarrow> ok' y)"
    using 1(3,4) 2(2-4) by blast
qed

lemma decides_any:
  assumes "\<And>x. decides E w (f x) ok S"
  shows "decides E w (bnd (failure_text E) f) ok S"
proof -
  have "decides E w (failure_text E) (\<lambda>_. True) True"
    by (rule decidesI) (simp add: failure_text_def same_disk_def)
  from decides_bnd [OF this, of f ok S] assms show ?thesis
    by simp
qed

lemma decides_for_each:
  assumes "\<And>x. x \<in> set xs \<Longrightarrow> decides E w (f x) ok (S x)"
  shows "decides E w (for_each f xs) (list_all ok) (\<forall>x. x \<in> set xs \<longrightarrow> S x)"
  using assms
proof (induction xs)
  case (Cons x xs)
  have rest: "decides E w (bnd (for_each f xs) (\<lambda>ys. ret (y # ys))) (list_all ok)
      ((\<forall>x. x \<in> set xs \<longrightarrow> S x) \<and> ok y)" for y
    by (rule decides_bnd [OF Cons.IH]) (use Cons.prems in \<open>auto intro!: decides_ret\<close>)
  have "decides E w (for_each f (x # xs)) (list_all ok) (S x \<and> (\<forall>x. x \<in> set xs \<longrightarrow> S x))"
    unfolding for_each.simps
    by (rule decides_bnd [where ok = ok]) (use Cons.prems rest in \<open>simp_all add: conj_commute\<close>)
  moreover have "(S x \<and> (\<forall>x. x \<in> set xs \<longrightarrow> S x)) = (\<forall>z. z \<in> set (x # xs) \<longrightarrow> S z)"
    by auto
  ultimately show ?case
    by simp
qed (simp add: decides_ret)

lemma on_file_same: "same_disk w v \<Longrightarrow> on_file v p = on_file w p"
  by (simp add: same_disk_def on_file_def)

lemma decides_there:
  assumes "on_file w p \<Longrightarrow> decides E w (f True) ok S" and "\<not> on_file w p \<Longrightarrow> decides E w (f False) ok S"
  shows "decides E w (bnd (on_disk p) f) ok S"
proof (rule decidesI)
  fix v assume v: "same_disk w v"
  have "bnd (on_disk p) f v = f (on_file w p) v"
    using on_file_same [OF v] by (simp add: bnd_def on_disk_def on_file_def)
  moreover have "decides E w (f (on_file w p)) ok S"
    using assms by (cases "on_file w p") simp_all
  ultimately show "\<exists>x v'. bnd (on_disk p) f v = (Ok x, v') \<and> same_disk w v' \<and> (ok x \<longrightarrow> S) \<and> (all_allowed E \<and> S \<longrightarrow> ok x)"
    using v by (auto elim: decidesE)
qed

lemma says_unique: "says p c w \<Longrightarrow> says p d w \<Longrightarrow> c = d"
  by (auto simp: says_def)

lemma same_disk_says: "same_disk w v \<Longrightarrow> says p c v = says p c w"
  by (simp add: same_disk_def says_def)

text \<open>A read that goes through, or fails for want of the file or of permission.\<close>

lemma decides_read_with:
  assumes "\<And>v. same_disk w v \<Longrightarrow>
      (\<exists>e v'. m v = (Err e, v') \<and> same_disk w v' \<and> \<not> (all_allowed E \<and> (\<exists>c. R c))) \<or>
      (\<exists>c v'. m v = (Ok c, v') \<and> same_disk w v' \<and> R c)"
    and "\<And>c d. R c \<Longrightarrow> R d \<Longrightarrow> c = d"
    and "\<And>c. decides E w (f c) ok (S c)" and "\<And>e. decides E w (g e) ok False"
  shows "decides E w (handle m f g) ok (\<exists>c. R c \<and> S c)"
proof (rule decidesI)
  fix v assume v: "same_disk w v"
  from assms(1) [OF v]
  show "\<exists>x v'. handle m f g v = (Ok x, v') \<and> same_disk w v' \<and> (ok x \<longrightarrow> (\<exists>c. R c \<and> S c)) \<and>
      (all_allowed E \<and> (\<exists>c. R c \<and> S c) \<longrightarrow> ok x)"
  proof (elim disjE exE conjE)
    fix e v' assume *: "m v = (Err e, v')" "same_disk w v'" "\<not> (all_allowed E \<and> (\<exists>c. R c))"
    obtain x u where "g e v' = (Ok x, u)" "same_disk w u" "ok x \<longrightarrow> False"
      by (rule decidesE [OF assms(4) *(2)])
    then show ?thesis
      using * by (auto simp: handle_def)
  next
    fix c v' assume *: "m v = (Ok c, v')" "same_disk w v'" "R c"
    obtain x u where u: "f c v' = (Ok x, u)" "same_disk w u" "ok x \<longrightarrow> S c" "all_allowed E \<and> S c \<longrightarrow> ok x"
      by (rule decidesE [OF assms(3) *(2)])
    have "handle m f g v = (Ok x, u)"
      using *(1) u(1) by (simp add: handle_def)
    moreover have "S d \<Longrightarrow> R d \<Longrightarrow> S c" for d
      using assms(2) [OF *(3)] by blast
    ultimately show ?thesis
      using u *(3) by blast
  qed
qed

lemma read_bytes_result:
  assumes "same_disk w v"
  shows "(\<exists>e v'. read_bytes E p v = (Err e, v') \<and> same_disk w v' \<and> \<not> (all_allowed E \<and> (\<exists>c. says p c w))) \<or>
     (\<exists>c v'. read_bytes E p v = (Ok c, v') \<and> same_disk w v' \<and> says p c w)"
  using assms
  by (cases "d_files v p"; cases "e_write_ok E (tick v) p")
    (auto simp: read_bytes_def seq_def bnd_def fs_permits_def same_disk_def all_allowed_def says_def)

lemma decides_read:
  "(\<And>c. decides E w (f c) ok (S c)) \<Longrightarrow> (\<And>e. decides E w (g e) ok False) \<Longrightarrow>
     decides E w (handle (read_bytes E p) f g) ok (\<exists>c. says p c w \<and> S c)"
  by (rule decides_read_with [OF read_bytes_result says_unique])

lemma read_text_result:
  assumes "same_disk w v"
  shows "(\<exists>e v'. read_to_string E p v = (Err e, v') \<and> same_disk w v' \<and> \<not> (all_allowed E \<and> (\<exists>s. reads_text w p s))) \<or>
     (\<exists>s v'. read_to_string E p v = (Ok s, v') \<and> same_disk w v' \<and> reads_text w p s)"
  using read_bytes_result [OF assms, of E p]
proof (elim disjE exE conjE)
  fix c v' assume "read_bytes E p v = (Ok c, v')" "same_disk w v'" "says p c w"
  then show ?thesis
    by (cases "utf8_valid c") (auto simp: read_to_string_def bnd_def ret_def fail_def reads_text_def says_def)
qed (auto simp: read_to_string_def bnd_def reads_text_def says_def)

lemma decides_read_text:
  "(\<And>s. decides E w (f s) ok (S s)) \<Longrightarrow> (\<And>e. decides E w (g e) ok False) \<Longrightarrow>
     decides E w (handle (read_to_string E p) f g) ok (\<exists>s. reads_text w p s \<and> S s)"
  by (rule decides_read_with [OF read_text_result]) (auto simp: reads_text_def)

lemma read_signature_result:
  fixes w v :: "'z disk_scheme" and E :: env and p :: string
  defines "R \<equiv> \<lambda>s. \<exists>raw. says p raw w \<and> parse_as E dec_release_signature (from_bytes raw) = Some s"
  assumes "same_disk w v"
  shows "(\<exists>e v'. read_signature E p v = (Err e, v') \<and> same_disk w v' \<and> \<not> (all_allowed E \<and> (\<exists>s. R s))) \<or>
     (\<exists>s v'. read_signature E p v = (Ok s, v') \<and> same_disk w v' \<and> R s)"
  using read_bytes_result [OF assms(2), of E p]
proof (elim disjE exE conjE)
  fix e v' assume *: "read_bytes E p v = (Err e, v')" "same_disk w v'" "\<not> (all_allowed E \<and> (\<exists>c. says p c w))"
  have "read_signature E p v = (Err RlIo, v')"
    using *(1) by (simp add: read_signature_def bnd_def rl_io_def on_err_map)
  moreover have "\<not> (all_allowed E \<and> (\<exists>s. R s))"
    using *(3) by (metis R_def)
  ultimately show ?thesis
    using *(2) by (metis (no_types))
next
  fix c v' assume *: "read_bytes E p v = (Ok c, v')" "same_disk w v'" "says p c w"
  have run: "read_signature E p v = (ok_or (parse_as E dec_release_signature (from_bytes c)) RlJson, v')"
    using *(1) by (simp add: read_signature_def bnd_def rl_io_def on_err_map lift_r_def)
  have R: "R s \<longleftrightarrow> parse_as E dec_release_signature (from_bytes c) = Some s" for s
    using *(3) says_unique [OF *(3)] unfolding R_def by metis
  show ?thesis
    using *(2) run R by (cases "parse_as E dec_release_signature (from_bytes c)") simp_all
qed

lemma decides_read_signature:
  "(\<And>s. decides E w (f s) ok (S s)) \<Longrightarrow> (\<And>e. decides E w (g e) ok False) \<Longrightarrow>
     decides E w (handle (read_signature E p) f g) ok
       (\<exists>s. (\<exists>raw. says p raw w \<and> parse_as E dec_release_signature (from_bytes raw) = Some s) \<and> S s)"
  by (rule decides_read_with [OF read_signature_result]) (use says_unique in fastforce)+

lemmas decides_steps = decides_ret decides_any decides_for_each decides_read decides_read_text decides_read_signature

section \<open>What verification decides\<close>

abbreviation fine :: "release_check \<Rightarrow> bool" where
  "fine c \<equiv> rc_status c \<noteq> ''fail''"

lemma check_status [simp]: "rc_status (check n s d) = s"
  by (simp add: check_def)

lemma decides_artifact: "decides E w (artifact_check E a) fine (artifact_intact E w a)"
proof -
  have "decides E w (artifact_check E a) fine (\<exists>c. says (ar_path a) c w \<and>
      (release_hex_sha256 E c = ar_sha256 a \<and> of_nat (length c) = ar_size a))"
    unfolding artifact_check_def Let_def by (rule decides_read; rule decides_ret) simp_all
  then show ?thesis
    by (simp add: artifact_intact_def)
qed

lemma verify_result_Ok: "(\<exists>u. verify_result E pem m s = Ok u) \<longleftrightarrow> signature_holds E pem m s"
  by (auto simp: verify_result_def signature_holds_def bind_r_Ok_iff)

lemma normalize_not_Panic:
  "normalize_value v \<noteq> Panic" "normalize_items xs \<noteq> Panic" "normalize_entries m acc \<noteq> Panic"
  by (induction v and xs and m acc rule: normalize_value_normalize_items_normalize_entries.induct)
    (auto simp: bind_r_def split: result.splits jnum.splits)

lemma canonical_not_Panic: "canonical E v \<noteq> Panic"
  using normalize_not_Panic(1) [of v]
  by (auto simp: canonical_def canonical_json_bytes_def bind_r_def split: result.splits json.splits)

lemma decides_signature:
  "decides E w (case verify_result E pem m s of
       Ok _ \<Rightarrow> ret (cs @ [check ''artifact.sig:signature'' ''pass'' ''valid Ed25519 signature''])
     | Err _ \<Rightarrow> bnd (failure_text E) (\<lambda>e. ret (cs @ [check ''artifact.sig:signature'' ''fail'' e]))
     | Panic \<Rightarrow> lift_r Panic) (list_all fine) (list_all fine cs \<and> signature_holds E pem m s)"
proof (cases "verify_result E pem m s")
  case (Ok u)
  then have "signature_holds E pem m s"
    using verify_result_Ok by blast
  with Ok show ?thesis
    by (auto intro: decides_ret)
next
  case (Err e)
  then have "\<not> signature_holds E pem m s"
    using verify_result_Ok [of E pem m s] by simp
  with Err show ?thesis
    by (auto intro!: decides_any decides_ret)
next
  case Panic
  then show ?thesis
    using canonical_not_Panic [of E "enc_artifact_manifest m"]
    by (simp add: verify_result_def bind_r_def map_err_def ok_or_def split: result.splits option.splits if_splits)
qed

lemma decides_manifest:
  "decides E w (verify_manifest E path s cs m) (list_all fine)
    ((\<forall>a. a \<in> set (am_artifacts m) \<longrightarrow> artifact_intact E w a) \<and>
     (\<exists>pem. reads_text w path pem \<and> (list_all fine cs \<and>
        release_hex_sha256 E (as_bytes pem) = rs_public_key_sha256 s \<and> signature_holds E pem m s)))"
  unfolding verify_manifest_def verify_manifest_artifact_hashes_def
proof (rule decides_bnd [OF decides_for_each [OF decides_artifact]])
  fix as
  let ?key = "\<lambda>pem. release_hex_sha256 E (as_bytes pem) = rs_public_key_sha256 s"
  show "decides E w (handle (read_to_string E path)
      (\<lambda>pem. let sha = release_hex_sha256 E (as_bytes pem); key_ok = (sha = rs_public_key_sha256 s);
          cs = cs @ as @ [check ''artifact.sig:public_key'' (if key_ok then ''pass'' else ''fail'') sha]
        in if \<not> key_ok then ret cs
           else (case verify_result E pem m s of
               Ok _ \<Rightarrow> ret (cs @ [check ''artifact.sig:signature'' ''pass'' ''valid Ed25519 signature''])
             | Err _ \<Rightarrow> bnd (failure_text E) (\<lambda>e. ret (cs @ [check ''artifact.sig:signature'' ''fail'' e]))
             | Panic \<Rightarrow> lift_r Panic))
      (\<lambda>_. ret (cs @ as @ [check ''artifact.sig:public_key'' ''fail'' (path @ '' missing'')]))) (list_all fine)
      (list_all fine as \<and> (\<exists>pem. reads_text w path pem \<and> (list_all fine cs \<and> ?key pem \<and> signature_holds E pem m s)))"
    (is "decides E w ?m _ (?as \<and> (\<exists>pem. ?reads pem \<and> ?S pem))")
  proof -
    have "decides E w ?m (list_all fine) (\<exists>pem. ?reads pem \<and> (?as \<and> ?S pem))"
    proof (rule decides_read_text)
      fix pem
      show "decides E w (let sha = release_hex_sha256 E (as_bytes pem); key_ok = (sha = rs_public_key_sha256 s);
          cs = cs @ as @ [check ''artifact.sig:public_key'' (if key_ok then ''pass'' else ''fail'') sha]
        in if \<not> key_ok then ret cs
           else (case verify_result E pem m s of
               Ok _ \<Rightarrow> ret (cs @ [check ''artifact.sig:signature'' ''pass'' ''valid Ed25519 signature''])
             | Err _ \<Rightarrow> bnd (failure_text E) (\<lambda>e. ret (cs @ [check ''artifact.sig:signature'' ''fail'' e]))
             | Panic \<Rightarrow> lift_r Panic)) (list_all fine) (?as \<and> ?S pem)"
      proof (cases "?key pem")
        case True
        let ?cs = "cs @ as @ [check ''artifact.sig:public_key'' ''pass'' (rs_public_key_sha256 s)]"
        have S: "(?as \<and> ?S pem) = (list_all fine ?cs \<and> signature_holds E pem m s)"
          using True by auto
        show ?thesis
          unfolding S using True decides_signature [where cs = ?cs and pem = pem and m = m and s = s and w = w and E = E] by (simp add: Let_def del: append_assoc)
      qed (simp add: decides_ret)
    qed (simp add: decides_ret)
    moreover have "(\<exists>pem. ?reads pem \<and> (?as \<and> ?S pem)) = (?as \<and> (\<exists>pem. ?reads pem \<and> ?S pem))"
      by blast
    ultimately show ?thesis
      by simp
  qed
qed

lemma decides_signed:
  "decides E w (verify_ed25519_signature E base s public_key_path) (list_all fine) (properly_signed E w base public_key_path s)"
proof -
  let ?path = "public_path_of base public_key_path"
  let ?hash = "\<lambda>raw. release_hex_sha256 E raw = rs_manifest_sha256 s"
  let ?T = "\<lambda>raw m. (\<forall>a. a \<in> set (am_artifacts m) \<longrightarrow> artifact_intact E w a) \<and>
     (\<exists>pem. reads_text w ?path pem \<and> (?hash raw \<and>
        release_hex_sha256 E (as_bytes pem) = rs_public_key_sha256 s \<and> signature_holds E pem m s))"
  have "decides E w (verify_ed25519_signature E base s public_key_path) (list_all fine)
    (\<exists>raw. says (path_join base (rs_manifest s)) raw w \<and>
      (\<exists>m. parse_as E dec_artifact_manifest (from_bytes raw) = Some m \<and> ?T raw m))"
    unfolding verify_ed25519_signature_def Let_def
  proof (rule decides_read)
    fix raw
    let ?cs = "[check ''artifacts.json:sha256'' (if ?hash raw then ''pass'' else ''fail'') (release_hex_sha256 E raw)]"
    show "decides E w (case parse_as E dec_artifact_manifest (from_bytes raw) of
        None \<Rightarrow> bnd (failure_text E) (\<lambda>e. ret (?cs @ [check ''artifacts.json:parse'' ''fail'' e]))
      | Some m \<Rightarrow> verify_manifest E ?path s ?cs m) (list_all fine)
      (\<exists>m. parse_as E dec_artifact_manifest (from_bytes raw) = Some m \<and> ?T raw m)"
    proof (cases "parse_as E dec_artifact_manifest (from_bytes raw)")
      case None
      then show ?thesis
        by (simp add: decides_any decides_ret)
    next
      case (Some m)
      have "list_all fine ?cs = ?hash raw"
        by simp
      then show ?thesis
        using Some decides_manifest [of E w ?path s ?cs m] by (simp only: option.case option.inject ex_simps simp_thms)
    qed
  qed (simp add: decides_ret)
  moreover have "(\<exists>raw. says (path_join base (rs_manifest s)) raw w \<and>
      (\<exists>m. parse_as E dec_artifact_manifest (from_bytes raw) = Some m \<and> ?T raw m)) = properly_signed E w base public_key_path s"
    unfolding properly_signed_def by blast
  ultimately show ?thesis
    by simp
qed

lemma decides_evidence:
  "decides E w (evidence_check base n) fine (n = ''artifacts.json'' \<or> on_file w (path_join base n))"
  unfolding evidence_check_def by (rule decides_there; rule decides_ret) auto

lemma decides_json:
  "decides E w (json_check E base n) (list_all fine)
    (on_file w (path_join base n) \<longrightarrow> (\<exists>s. reads_text w (path_join base n) s \<and> e_json_parse E s \<noteq> None))"
  unfolding json_check_def Let_def
proof (rule decides_there)
  let ?p = "path_join base n"
  let ?invalid = "bnd (failure_text E) (\<lambda>e. ret [check (n @ '':json'') ''fail'' e])"
  assume there: "on_file w ?p"
  have "decides E w (handle (read_to_string E ?p)
      (\<lambda>raw. if e_json_parse E raw = None then ?invalid else ret [check (n @ '':json'') ''pass'' ''valid JSON''])
      (\<lambda>_. ?invalid)) (list_all fine) (\<exists>s. reads_text w ?p s \<and> e_json_parse E s \<noteq> None)"
    by (rule decides_read_text) (auto intro!: decides_any decides_ret)
  then show "decides E w (if \<not> True then ret [] else handle (read_to_string E ?p)
      (\<lambda>raw. if e_json_parse E raw = None then ?invalid else ret [check (n @ '':json'') ''pass'' ''valid JSON''])
      (\<lambda>_. ?invalid)) (list_all fine) (on_file w ?p \<longrightarrow> (\<exists>s. reads_text w ?p s \<and> e_json_parse E s \<noteq> None))"
    using there by simp
qed (simp add: decides_ret)

lemma says_on_file: "says p c w \<Longrightarrow> on_file w p"
  by (auto simp: says_def on_file_def)

lemma decides_signature_checks:
  "decides E w (signature_checks E base public_key_path) (list_all fine)
    (on_file w (path_join base ''artifact.sig'') \<longrightarrow> (\<exists>s.
      (\<exists>raw. says (path_join base ''artifact.sig'') raw w \<and> parse_as E dec_release_signature (from_bytes raw) = Some s) \<and>
      (rs_mode s = ''unsigned-development-evidence'' \<or> rs_mode s = ''ed25519'' \<and> properly_signed E w base public_key_path s)))"
  unfolding signature_checks_def Let_def
proof (rule decides_there)
  let ?p = "path_join base ''artifact.sig''"
  let ?unsigned = "\<lambda>s. rs_mode s = ''unsigned-development-evidence''"
  let ?signed = "\<lambda>s. rs_mode s = ''ed25519'' \<and> properly_signed E w base public_key_path s"
  let ?found = "\<lambda>s. if ?unsigned s then ret [check ''artifact.sig:mode'' ''warn'' ''unsigned-development-evidence'']
     else if rs_mode s = ''ed25519'' then bnd (verify_ed25519_signature E base s public_key_path) (\<lambda>checks.
       ret (check ''artifact.sig:mode'' ''pass'' ''ed25519'' # checks))
     else ret [check ''artifact.sig:mode'' ''fail'' (''unsupported mode: '' @ rs_mode s)]"
  let ?bad = "\<lambda>_. bnd (failure_text E) (\<lambda>e. ret [check ''artifact.sig:parse'' ''fail'' e])"
  assume there: "on_file w ?p"
  have "decides E w (bnd (verify_ed25519_signature E base s public_key_path) (\<lambda>checks.
      ret (check ''artifact.sig:mode'' ''pass'' ''ed25519'' # checks))) (list_all fine)
      (properly_signed E w base public_key_path s \<and> True)" for s
    by (rule decides_bnd [OF decides_signed]) (simp add: decides_ret)
  then have "decides E w (?found s) (list_all fine) (?unsigned s \<or> ?signed s)" for s
    by (auto simp: decides_ret)
  then have "decides E w (handle (read_signature E ?p) ?found ?bad) (list_all fine)
      (\<exists>s. (\<exists>raw. says ?p raw w \<and> parse_as E dec_release_signature (from_bytes raw) = Some s) \<and> (?unsigned s \<or> ?signed s))"
    by (rule decides_read_signature) (simp add: decides_any decides_ret)
  then show "decides E w (if \<not> True then ret [] else handle (read_signature E ?p) ?found ?bad) (list_all fine)
      (on_file w ?p \<longrightarrow> (\<exists>s. (\<exists>raw. says ?p raw w \<and> parse_as E dec_release_signature (from_bytes raw) = Some s) \<and>
        (?unsigned s \<or> ?signed s)))"
    using there by simp
qed (simp add: decides_ret)

lemma list_all_concat: "list_all P (concat xss) = list_all (list_all P) xss"
  by (induction xss) simp_all

lemma decides_eq: "decides E w m ok S \<Longrightarrow> S = T \<Longrightarrow> decides E w m ok T"
  by simp

lemma decides_release:
  "decides E w (verify_release_evidence E base public_key_path) rv_passed (release_sound E w base public_key_path)"
proof -
  let ?sig = "path_join base ''artifact.sig''"
  let ?S1 = "\<forall>n. n \<in> set required_files \<longrightarrow> n = ''artifacts.json'' \<or> on_file w (path_join base n)"
  let ?S2 = "\<forall>n. n \<in> set json_files \<longrightarrow> on_file w (path_join base n) \<longrightarrow>
     (\<exists>s. reads_text w (path_join base n) s \<and> e_json_parse E s \<noteq> None)"
  let ?S3 = "\<exists>s. (\<exists>raw. says ?sig raw w \<and> parse_as E dec_release_signature (from_bytes raw) = Some s) \<and>
     (rs_mode s = ''unsigned-development-evidence'' \<or> rs_mode s = ''ed25519'' \<and> properly_signed E w base public_key_path s)"
  let ?answer = "\<lambda>present parsed signed. ret \<lparr>rv_passed = list_all fine (present @ concat parsed @ signed),
     rv_checks = present @ concat parsed @ signed\<rparr>"
  let ?fine = "\<lambda>parsed. list_all (list_all fine) parsed"
  have 3: "decides E w (bnd (signature_checks E base public_key_path) (?answer present parsed)) rv_passed
      ((on_file w ?sig \<longrightarrow> ?S3) \<and> (list_all fine present \<and> ?fine parsed))" for present parsed
    by (rule decides_bnd [OF decides_signature_checks]) (rule decides_ret, auto simp: list_all_concat)
  have 2: "decides E w (bnd (for_each (json_check E base) json_files) (\<lambda>parsed.
      bnd (signature_checks E base public_key_path) (?answer present parsed))) rv_passed
      (?S2 \<and> (list_all fine present \<and> (on_file w ?sig \<longrightarrow> ?S3)))" for present
    by (rule decides_bnd [OF decides_for_each [OF decides_json]])
      (rule decides_eq [OF 3], simp add: conj_ac)
  have "decides E w (verify_release_evidence E base public_key_path) rv_passed (?S1 \<and> (?S2 \<and> (on_file w ?sig \<longrightarrow> ?S3)))"
    unfolding verify_release_evidence_def Let_def
    by (rule decides_bnd [OF decides_for_each [OF decides_evidence]]) (rule decides_eq [OF 2], simp add: conj_ac)
  moreover have "(?S1 \<and> (?S2 \<and> (on_file w ?sig \<longrightarrow> ?S3))) = release_sound E w base public_key_path"
  proof -
    have "?S1 \<Longrightarrow> on_file w ?sig"
      by (drule spec [of _ "''artifact.sig''"]) (simp add: required_files_def)
    then show ?thesis
      unfolding release_sound_def by (simp only: ex_simps) blast
  qed
  ultimately show ?thesis
    by simp
qed

text \<open>
  C27: verification decides soundness. It always answers and leaves every file as it was. A release that
  passes has every evidence file, its JSON files parse, and its signature file either says that it is
  unsigned evidence or is a valid Ed25519 signature, under the public key at hand, of a manifest with the
  hash it names, all of whose artifacts are there unchanged; and where the machine lets files be read, a
  release of which this holds passes.
\<close>

theorem release_verdict_exact:
  shows "\<exists>v w'. verify_release_evidence E base public_key_path w = (Ok v, w') \<and>
    d_files w' = d_files w \<and> d_dirs w' = d_dirs w \<and>
    (rv_passed v \<longrightarrow> release_sound E w base public_key_path) \<and>
    (all_allowed E \<and> release_sound E w base public_key_path \<longrightarrow> rv_passed v)"
proof -
  have "same_disk w w"
    by (simp add: same_disk_def)
  from decidesE [OF decides_release this] show ?thesis
    unfolding same_disk_def by metis
qed

end
