(* ===== verification/Release_Signing.thy ===== *)
theory Release_Signing
  imports Release_Checks Sample
begin

text \<open>
  A release that was signed passes verification, and fresh evidence that was not signed does not.
\<close>

section \<open>A release that was signed passes\<close>

lemma release_passes:
  assumes "all_allowed E" and "release_sound E w base pk"
  shows "\<exists>v w'. verify_release_evidence E base pk w = (Ok v, w') \<and> rv_passed v"
proof -
  have "same_disk w w"
    by (simp add: same_disk_def)
  then obtain v w' where "verify_release_evidence E base pk w = (Ok v, w')"
      "all_allowed E \<and> release_sound E w base pk \<longrightarrow> rv_passed v"
    by (rule decidesE [OF decides_release])
  then show ?thesis
    using assms by blast
qed

text \<open>What the libraries print is a Rust string, that is UTF-8.\<close>

definition prints_utf8 :: "env \<Rightarrow> bool" where
  "prints_utf8 E \<longleftrightarrow>
     (\<forall>v. utf8_valid (as_bytes (e_json_print E v)) \<and> utf8_valid (as_bytes (x_json_pretty (e_host E) v))) \<and>
     (\<forall>seed pem. x_public_pem (e_host E) seed = Some pem \<longrightarrow> utf8_valid (as_bytes pem))"

text \<open>Ed25519: what was signed verifies under the signing key's public key.\<close>

definition ed25519_ok :: "env \<Rightarrow> bool" where
  "ed25519_ok E \<longleftrightarrow> (\<forall>seed pem. x_public_pem (e_host E) seed = Some pem \<longrightarrow>
     (\<exists>key. x_load_public (e_host E) pem = Some key \<and>
       (\<forall>msg. length (x_sign (e_host E) seed msg) = 64 \<and> x_verify (e_host E) key msg (x_sign (e_host E) seed msg))))"

lemma artifact_json_ok [simp]: "json_ok (enc_artifact_entry a)" "float_free (enc_artifact_entry a)"
  by (simp_all add: enc_artifact_entry_def to_value_ok)

lemma manifest_fields_ok:
  "\<forall>p \<in> set (manifest_fields m). json_ok (snd p)" "\<forall>p \<in> set (manifest_fields m). float_free (snd p)"
  by (simp_all add: manifest_fields_def)

lemma manifest_reads_back:
  assumes "json_text_ok E" and "canonical E (enc_artifact_manifest m) = Ok raw"
  shows "parse_as E dec_artifact_manifest (from_bytes raw) = Some m"
    and "raw = as_bytes (e_json_print E (enc_artifact_manifest m))"
proof -
  show raw: "raw = as_bytes (e_json_print E (enc_artifact_manifest m))"
    using assms(2) canonical_to_value [OF manifest_fields_ok [of m]]
    by (simp add: canonical_def enc_artifact_manifest_def)
  have "json_wf (enc_artifact_manifest m)"
    unfolding enc_artifact_manifest_def by (intro json_wf_of_ok to_value_ok manifest_fields_ok)
  then show "parse_as E dec_artifact_manifest (from_bytes raw) = Some m"
    using manifest_codec.dec_enc [of m] by (simp add: raw parse_as_print [OF assms(1)])
qed

lemma says_tick [says_intro]:
  "keeps (says p c) (now E)" "keeps (says p c) (canonical_path E q)" "keeps (says p c) (failure_text E)"
  "keeps (says p c) (rustc_version E)"
  by (simp_all add: keeps_def now_def canonical_path_def failure_text_def rustc_version_def says_def)

lemma says_rl_io [says_intro]: "keeps (says p c) m \<Longrightarrow> keeps (says p c) (rl_io m)"
  by (simp add: rl_io_def keeps_on_err)

lemma says_artifact [says_intro]: "keeps (says p c) (make_artifact_entry E q)"
  unfolding make_artifact_entry_def by (intro keeps_intro says_intro)

lemma says_artifacts [says_intro]: "keeps (says p c) (artifact_entries E seen ps)"
  by (induction E seen ps rule: artifact_entries.induct) (auto intro!: keeps_intro says_intro)

lemma says_manifest [says_intro]: "keeps (says p c) (build_artifact_manifest E base ps version key)"
  unfolding build_artifact_manifest_def provenance_digest_def by (intro keeps_intro says_intro)

lemma rl_io_Ok_iff [simp]: "rl_io m w = (Ok x, w') \<longleftrightarrow> m w = (Ok x, w')"
  by (simp add: rl_io_def)

lemma artifact_entries_step:
  assumes "artifact_entries E seen (p # ps) w = (Ok es, w')"
  shows "d_files w p \<noteq> None \<and> (artifact_entries E seen ps (w\<lparr>tick := Suc (tick w)\<rparr>) = (Ok es, w') \<or>
    (\<exists>found e w2 es'. make_artifact_entry E p (w\<lparr>tick := Suc (tick w)\<rparr>) = (Ok e, w2) \<and>
       artifact_entries E (found # seen) ps w2 = (Ok es', w') \<and> es = e # es'))"
  using assms by (auto simp: bnd_Ok_iff file_at_def canonical_path_def split: if_splits)

definition entry_of :: "env \<Rightarrow> 'z disk_scheme \<Rightarrow> artifact_entry \<Rightarrow> string \<Rightarrow> bool" where
  "entry_of E w a p \<longleftrightarrow> ar_path a = forward_slashes p \<and> (\<exists>data. says p data w \<and>
     release_hex_sha256 E data = ar_sha256 a \<and> of_nat (length data) = ar_size a)"

lemma entry_of_files: "d_files v = d_files w \<Longrightarrow> entry_of E v a p = entry_of E w a p"
  by (simp add: entry_of_def says_def)

lemma make_artifact_entry_Ok:
  "make_artifact_entry E p w = (Ok e, w') \<Longrightarrow> d_files w' = d_files w \<and> entry_of E w e p"
  by (auto simp: make_artifact_entry_def bnd_Ok_iff read_bytes_Ok_iff says_def entry_of_def)

lemma artifact_entries_Ok:
  "artifact_entries E seen ps w = (Ok es, w') \<Longrightarrow>
     (\<forall>p \<in> set ps. d_files w p \<noteq> None) \<and> (\<forall>a \<in> set es. \<exists>p \<in> set ps. entry_of E w a p)"
proof (induction ps arbitrary: seen w es)
  case (Cons p ps)
  let ?w1 = "w\<lparr>tick := Suc (tick w)\<rparr>"
  have same: "d_files ?w1 = d_files w" "entry_of E ?w1 a q = entry_of E w a q" for a q
    by simp (rule entry_of_files, simp)
  have step: "d_files w p \<noteq> None" "artifact_entries E seen ps ?w1 = (Ok es, w') \<or>
      (\<exists>found e w2 es'. make_artifact_entry E p ?w1 = (Ok e, w2) \<and> artifact_entries E (found # seen) ps w2 = (Ok es', w') \<and> es = e # es')"
    using artifact_entries_step [OF Cons.prems] by blast+
  from step(2) have "(\<forall>p \<in> set ps. d_files w p \<noteq> None) \<and> (\<forall>a \<in> set es. entry_of E w a p \<or> (\<exists>q \<in> set ps. entry_of E w a q))"
  proof (elim disjE exE conjE)
    assume "artifact_entries E seen ps ?w1 = (Ok es, w')"
    from Cons.IH [OF this] show ?thesis
      unfolding same by blast
  next
    fix found e w2 es'
    assume e: "make_artifact_entry E p ?w1 = (Ok e, w2)" "artifact_entries E (found # seen) ps w2 = (Ok es', w')" "es = e # es'"
    have w2: "d_files w2 = d_files w" and e': "entry_of E w e p"
      using make_artifact_entry_Ok [OF e(1)] unfolding same by blast+
    from Cons.IH [OF e(2)] e' show ?thesis
      unfolding e(3) w2 entry_of_files [OF w2] by simp
  qed
  then show ?case
    using step(1) by simp
qed simp

lemma path_join_inject:
  "\<not> starts_with a ''/'' \<Longrightarrow> \<not> starts_with b ''/'' \<Longrightarrow> path_join base a = path_join base b \<longleftrightarrow> a = b"
  by (simp add: path_join_def)

lemma names_differ:
  assumes "a \<in> set required_files" and "b \<in> set required_files"
  shows "path_join base a = path_join base b \<longleftrightarrow> a = b"
  using assms by (intro path_join_inject) (auto simp: required_files_def starts_with_def)

lemma signing_files: "''artifact.sig'' \<in> set required_files" "''artifacts.json'' \<in> set required_files"
  by (simp_all add: required_files_def)

lemma forward_slashes_join:
  "forward_slashes base = base \<Longrightarrow> forward_slashes p = p \<Longrightarrow> forward_slashes (path_join base p) = path_join base p"
  by (simp add: path_join_def forward_slashes_def)

lemma evidence_file_names: "n \<in> set evidence_files \<Longrightarrow> forward_slashes n = n \<and> n \<in> set required_files \<and>
    n \<noteq> ''artifacts.json'' \<and> n \<noteq> ''artifact.sig''"
  by (auto simp: evidence_files_def required_files_def forward_slashes_def)

text \<open>The run of a signature that succeeds.\<close>

definition signing_run where
  "signing_run E base paths pk version m s w w' seed pem w1 w2 w3 w4 raw \<longleftrightarrow>
     (\<forall>p c. says p c w \<longrightarrow> says p c w1) \<and> x_public_pem (e_host E) seed = Some pem \<and>
     write_bytes E (public_path_of base pk) (as_bytes pem) w1 = (Ok (), w2) \<and>
     build_artifact_manifest E base paths version (release_hex_sha256 E (as_bytes pem)) w2 = (Ok m, w3) \<and>
     canonical E (enc_artifact_manifest m) = Ok raw \<and>
     write_bytes E (path_join base ''artifacts.json'') raw w3 = (Ok (), w4) \<and>
     write_bytes E (path_join base ''artifact.sig'') (as_bytes (x_json_pretty (e_host E) (enc_release_signature s)))
       (w4\<lparr>tick := Suc (tick w4)\<rparr>) = (Ok (), w') \<and>
     rs_mode s = ''ed25519'' \<and> rs_manifest s = ''artifacts.json'' \<and> rs_manifest_sha256 s = release_hex_sha256 E raw \<and>
     rs_public_key_sha256 s = release_hex_sha256 E (as_bytes pem) \<and>
     rs_signature s = e_b64url E (x_sign (e_host E) seed raw)"

lemma sign_steps:
  assumes "sign_release_artifacts E base paths private_key pk pass version w = (Ok (m, s), w')"
  shows "\<exists>seed pem w1 w2 w3 w4 raw. signing_run E base paths pk version m s w w' seed pem w1 w2 w3 w4 raw"
proof -
  let ?pub = "public_path_of base pk"
  let ?parent = "case path_parent ?pub of None \<Rightarrow> ret () | Some parent \<Rightarrow> rl_io (create_dir_all E parent)"
  obtain u v0 private_text v1 seed pem v2 w2 w3 raw w4 where
    start: "create_dir_all E base w = (Ok u, v0)" "read_to_string E private_key v0 = (Ok private_text, v1)"
      "x_public_pem (e_host E) seed = Some pem" "?parent v1 = (Ok (), v2)"
    and rest: "write_bytes E ?pub (as_bytes pem) v2 = (Ok (), w2)"
      "build_artifact_manifest E base paths version (release_hex_sha256 E (as_bytes pem)) w2 = (Ok m, w3)"
      "canonical E (enc_artifact_manifest m) = Ok raw"
      "write_bytes E (path_join base ''artifacts.json'') raw w3 = (Ok (), w4)"
    and s: "s = \<lparr>rs_mode = ''ed25519'', rs_manifest = ''artifacts.json'', rs_manifest_sha256 = release_hex_sha256 E raw,
        rs_public_key_sha256 = release_hex_sha256 E (as_bytes pem), rs_signature = e_b64url E (x_sign (e_host E) seed raw),
        rs_signed_at = e_time_ms E (e_clock E (tick w4))\<rparr>"
      "write_bytes E (path_join base ''artifact.sig'') (as_bytes (x_json_pretty (e_host E) (enc_release_signature s)))
        (w4\<lparr>tick := Suc (tick w4)\<rparr>) = (Ok (), w')"
    using assms unfolding sign_release_artifacts_def Let_def
    by (auto simp: seq_Ok_iff bnd_Ok_iff)
  have "\<forall>p c. says p c w \<longrightarrow> says p c v2"
  proof (intro allI impI)
    fix p c assume "says p c w"
    then have "says p c v0"
      using keepsD [OF says_dir _ start(1)] by blast
    then have "says p c v1"
      using keepsD [OF says_read_to_string _ start(2)] by blast
    moreover have "keeps (says p c) ?parent"
      by (cases "path_parent ?pub") (simp_all add: keeps_ret says_rl_io says_dir)
    ultimately show "says p c v2"
      using start(4) by (rule_tac keepsD)
  qed
  then have "signing_run E base paths pk version m s w w' seed pem v2 w2 w3 w4 raw"
    using start(3) rest s(2) unfolding signing_run_def by (simp add: s(1))
  then show ?thesis
    by blast
qed

text \<open>What such a run leaves on the disk.\<close>

lemma signing_survives:
  assumes "signing_run E base paths pk version m s w w' seed pem w1 w2 w3 w4 raw"
    and "says p c w2" and "p \<noteq> path_join base ''artifacts.json''" and "p \<noteq> path_join base ''artifact.sig''"
  shows "says p c w'"
proof -
  note run = assms(1) [unfolded signing_run_def]
  have "says p c w3"
    by (rule keepsD [OF says_manifest assms(2)]) (use run in blast)
  then have "says p c w4"
    by (rule keepsD [OF says_write_bytes [OF assms(3)]]) (use run in blast)
  then have "says p c (w4\<lparr>tick := Suc (tick w4)\<rparr>)"
    by (simp add: says_def)
  then show ?thesis
    by (rule keepsD [OF says_write_bytes [OF assms(4)]]) (use run in blast)
qed

definition signature_text :: "env \<Rightarrow> release_signature \<Rightarrow> bytes" where
  "signature_text E s = as_bytes (x_json_pretty (e_host E) (enc_release_signature s))"

lemma signing_leaves:
  assumes "signing_run E base paths pk version m s w w' seed pem w1 w2 w3 w4 raw"
    and "\<forall>n. n \<in> set required_files \<longrightarrow> public_path_of base pk \<noteq> path_join base n"
  shows "says (path_join base ''artifacts.json'') raw w'" and "says (path_join base ''artifact.sig'') (signature_text E s) w'"
    and "says (public_path_of base pk) (as_bytes pem) w'"
proof -
  note run = assms(1) [unfolded signing_run_def]
  show "says (path_join base ''artifact.sig'') (signature_text E s) w'"
    unfolding signature_text_def by (rule write_bytes_says) (use run in blast)
  have "says (path_join base ''artifacts.json'') raw w4"
    by (rule write_bytes_says) (use run in blast)
  then have "says (path_join base ''artifacts.json'') raw (w4\<lparr>tick := Suc (tick w4)\<rparr>)"
    by (simp add: says_def)
  moreover have "path_join base ''artifacts.json'' \<noteq> path_join base ''artifact.sig''"
    using names_differ [OF signing_files(2,1)] by simp
  ultimately show "says (path_join base ''artifacts.json'') raw w'"
    by (rule_tac keepsD [OF says_write_bytes]) (use run in blast)+
  have "says (public_path_of base pk) (as_bytes pem) w2"
    by (rule write_bytes_says) (use run in blast)
  then show "says (public_path_of base pk) (as_bytes pem) w'"
    using signing_survives [OF assms(1)] assms(2) signing_files by blast
qed

lemma signing_keeps:
  assumes "signing_run E base paths pk version m s w w' seed pem w1 w2 w3 w4 raw" and "says p c w"
    and "p \<noteq> public_path_of base pk" and "p \<noteq> path_join base ''artifacts.json''" and "p \<noteq> path_join base ''artifact.sig''"
  shows "says p c w'"
proof -
  note run = assms(1) [unfolded signing_run_def]
  have "says p c w1"
    using run assms(2) by blast
  then have "says p c w2"
    by (rule keepsD [OF says_write_bytes [OF assms(3)]]) (use run in blast)
  then show ?thesis
    by (rule signing_survives [OF assms(1) _ assms(4,5)])
qed

text \<open>Every file of the manifest is there, as it was when its hash was taken.\<close>

definition listed_files :: "string \<Rightarrow> string list \<Rightarrow> string list" where
  "listed_files base paths = map (path_join base) evidence_files @ paths"

lemma listed_free:
  assumes "p \<in> set (listed_files base paths)" and "forward_slashes base = base"
    and "\<forall>p. p \<in> set paths \<longrightarrow> p \<noteq> path_join base ''artifact.sig'' \<and> p \<noteq> path_join base ''artifacts.json'' \<and>
      forward_slashes p = p"
  shows "p \<noteq> path_join base ''artifact.sig'' \<and> p \<noteq> path_join base ''artifacts.json'' \<and> forward_slashes p = p"
proof (cases "p \<in> set paths")
  case False
  then obtain n where n: "p = path_join base n" "n \<in> set evidence_files"
    using assms(1) by (auto simp: listed_files_def)
  from evidence_file_names [OF n(2)] show ?thesis
    using forward_slashes_join [OF assms(2), of n] n(1) signing_files names_differ by metis
qed (use assms(3) in blast)

lemma signing_listed:
  assumes "signing_run E base paths pk version m s w w' seed pem w1 w2 w3 w4 raw" and "forward_slashes base = base"
    and "\<forall>p. p \<in> set paths \<longrightarrow> p \<noteq> path_join base ''artifact.sig'' \<and> p \<noteq> path_join base ''artifacts.json'' \<and>
      forward_slashes p = p"
  shows "a \<in> set (am_artifacts m) \<Longrightarrow> artifact_intact E w' a"
    and "n \<in> set evidence_files \<Longrightarrow> on_file w' (path_join base n)"
proof -
  note run = assms(1) [unfolded signing_run_def]
  have "build_artifact_manifest E base paths version (release_hex_sha256 E (as_bytes pem)) w2 = (Ok m, w3)"
    using run by blast
  then have listed: "(\<forall>p \<in> set (listed_files base paths). d_files w2 p \<noteq> None) \<and>
      (\<forall>a \<in> set (am_artifacts m). \<exists>p \<in> set (listed_files base paths). entry_of E w2 a p)"
    using artifact_entries_Ok unfolding build_artifact_manifest_def listed_files_def by (fastforce simp: bnd_Ok_iff)
  note survives = signing_survives [OF assms(1)] and free = listed_free [OF _ assms(2,3)]
  show "artifact_intact E w' a" if "a \<in> set (am_artifacts m)" for a
  proof -
    obtain p where p: "p \<in> set (listed_files base paths)" "entry_of E w2 a p"
      using listed \<open>a \<in> _\<close> by blast
    then show ?thesis
      using survives free [OF p(1)] unfolding entry_of_def artifact_intact_def by metis
  qed
  show "on_file w' (path_join base n)" if "n \<in> set evidence_files" for n
  proof -
    have here: "path_join base n \<in> set (listed_files base paths)"
      using that by (simp add: listed_files_def)
    then obtain c where "says (path_join base n) c w2"
      using listed by (fastforce simp: says_def)
    then show ?thesis
      using survives free [OF here] says_on_file by blast
  qed
qed

text \<open>The signature that was made holds.\<close>

lemma signing_signed:
  assumes "signing_run E base paths pk version m s w w' seed pem w1 w2 w3 w4 raw"
    and "json_text_ok E" and "b64url_ok E" and "ed25519_ok E" and "utf8_valid (as_bytes pem)"
    and "says (path_join base ''artifacts.json'') raw w'" and "says (public_path_of base pk) (as_bytes pem) w'"
    and "\<And>a. a \<in> set (am_artifacts m) \<Longrightarrow> artifact_intact E w' a"
  shows "properly_signed E w' base pk s"
proof -
  have run: "x_public_pem (e_host E) seed = Some pem" "canonical E (enc_artifact_manifest m) = Ok raw"
      "rs_manifest s = ''artifacts.json''" "rs_manifest_sha256 s = release_hex_sha256 E raw"
      "rs_public_key_sha256 s = release_hex_sha256 E (as_bytes pem)" "rs_signature s = e_b64url E (x_sign (e_host E) seed raw)"
    using assms(1) unfolding signing_run_def by blast+
  show ?thesis
    unfolding properly_signed_def run(3)
  proof (intro exI conjI)
    show "says (path_join base ''artifacts.json'') raw w'"
      by (rule assms(6))
    show "parse_as E dec_artifact_manifest (from_bytes raw) = Some m"
      by (rule manifest_reads_back(1) [OF assms(2) run(2)])
    show "reads_text w' (public_path_of base pk) pem"
      using assms(5,7) by (auto simp: reads_text_def says_def)
    show "signature_holds E pem m s"
      using assms(3,4) run(1,2,6) unfolding signature_holds_def ed25519_ok_def by fastforce
  qed (use assms(8) run(4,5) in simp_all)
qed

lemma parses_reads: "says p c w \<Longrightarrow> utf8_valid c \<Longrightarrow> e_json_parse E (from_bytes c) \<noteq> None \<Longrightarrow>
    \<exists>t. reads_text w p t \<and> e_json_parse E t \<noteq> None"
  by (auto simp: reads_text_def says_def)

lemma signature_text_reads:
  "pretty_ok E \<Longrightarrow> parse_as E dec_release_signature (from_bytes (signature_text E s)) = Some s \<and>
     e_json_parse E (from_bytes (signature_text E s)) \<noteq> None"
  using release_signature_codec.dec_enc [of s]
  by (simp add: parse_as_def pretty_ok_def enc_release_signature_def signature_text_def)

lemma signed_release_sound:
  assumes "sign_release_artifacts E base paths private_key pk pass version w = (Ok (m, s), w')"
    and "all_allowed E" and "json_text_ok E" and "pretty_ok E" and "b64url_ok E" and "ed25519_ok E"
    and "\<forall>n. n \<in> set json_files - {''artifact.sig'', ''artifacts.json''} \<longrightarrow>
      (\<exists>c. says (path_join base n) c w \<and> utf8_valid c \<and> e_json_parse E (from_bytes c) \<noteq> None)"
    and "\<forall>n. n \<in> set required_files \<longrightarrow> public_path_of base pk \<noteq> path_join base n"
    and "\<forall>p. p \<in> set paths \<longrightarrow> p \<noteq> path_join base ''artifact.sig'' \<and> p \<noteq> path_join base ''artifacts.json'' \<and>
      forward_slashes p = p"
    and "forward_slashes base = base"
    and "prints_utf8 E"
  shows "release_sound E w' base pk"
proof -
  let ?pub = "public_path_of base pk" and ?sig = "path_join base ''artifact.sig''" and ?man = "path_join base ''artifacts.json''"
  obtain seed pem w1 w2 w3 w4 raw where run: "signing_run E base paths pk version m s w w' seed pem w1 w2 w3 w4 raw"
    using sign_steps [OF assms(1)] by blast
  note left = signing_leaves [OF run assms(8)] and listed = signing_listed [OF run assms(10,9)]
  have made: "canonical E (enc_artifact_manifest m) = Ok raw" "x_public_pem (e_host E) seed = Some pem"
    using run unfolding signing_run_def by blast+
  then have utf8: "utf8_valid raw" "utf8_valid (signature_text E s)" "utf8_valid (as_bytes pem)"
    using assms(11) manifest_reads_back(2) [OF assms(3) made(1)] by (simp_all add: prints_utf8_def signature_text_def)
  note signed = signing_signed [OF run assms(3,5,6) utf8(3) left(1,3) listed(1)]
  have mode: "rs_mode s = ''ed25519''" and raw: "canonical E (enc_artifact_manifest m) = Ok raw"
    using run unfolding signing_run_def by blast+
  have raw_parses: "e_json_parse E (from_bytes raw) \<noteq> None"
    using manifest_reads_back(1) [OF assms(3) raw] unfolding parse_as_def by (metis bind.bind_lzero option.distinct(1))
  note sig_reads = signature_text_reads [OF assms(4), of s]
  have json: "\<exists>t. reads_text w' (path_join base n) t \<and> e_json_parse E t \<noteq> None" if n: "n \<in> set json_files" for n
  proof (cases "n \<in> {''artifact.sig'', ''artifacts.json''}")
    case True
    then show ?thesis
      using parses_reads [OF left(1) utf8(1) raw_parses] parses_reads [OF left(2) utf8(2)] sig_reads by blast
  next
    case False
    then obtain c where c: "says (path_join base n) c w" "utf8_valid c" "e_json_parse E (from_bytes c) \<noteq> None"
      using assms(7) n by blast
    have n': "n \<in> set required_files"
      using n by (auto simp: json_files_def required_files_def)
    have other: "path_join base n \<noteq> ?man" "path_join base n \<noteq> ?sig"
      using False unfolding names_differ [OF n' signing_files(1)] names_differ [OF n' signing_files(2)] by blast+
    have "says (path_join base n) c w'"
      by (rule signing_keeps [OF run c(1) _ other]) (use assms(8) n' in metis)
    then show ?thesis
      using parses_reads c(2,3) by blast
  qed
  show ?thesis
    unfolding release_sound_def
  proof (intro conjI allI impI)
    fix n assume "n \<in> set required_files"
    then have "n \<in> set evidence_files \<or> n = ''artifact.sig'' \<or> n = ''artifacts.json''"
      by (auto simp: required_files_def evidence_files_def)
    then show "n = ''artifacts.json'' \<or> on_file w' (path_join base n)"
      using listed(2) left(2) says_on_file by blast
  qed (use json left(2) sig_reads mode signed in blast)+
qed


section \<open>Signing goes through\<close>

lemma artifact_entries_run:
  assumes "all_allowed E" and "\<And>n p. x_canonical_path (e_host E) n p \<noteq> None"
  shows "(\<forall>p \<in> set ps. d_files w p \<noteq> None) \<Longrightarrow>
    \<exists>es v. artifact_entries E seen ps w = (Ok es, v) \<and> d_files v = d_files w \<and> d_dirs v = d_dirs w"
proof (induction ps arbitrary: seen w)
  case (Cons p ps)
  let ?w1 = "w\<lparr>tick := Suc (tick w)\<rparr>" and ?w2 = "w\<lparr>tick := Suc (Suc (tick w))\<rparr>"
  obtain r where r: "x_canonical_path (e_host E) (tick w) p = Some r"
    using assms(2) by fastforce
  obtain c k where c: "d_files w p = Some (c, k)"
    using Cons.prems by auto
  have entry: "make_artifact_entry E p ?w1 = (Ok \<lparr>ar_path = forward_slashes p, ar_sha256 = release_hex_sha256 E c,
      ar_size = of_nat (length c)\<rparr>, ?w2)"
    using c assms(1) by (simp add: make_artifact_entry_def bnd_def rl_io_def on_err_map read_bytes_def seq_def
        fs_permits_def all_allowed_def ret_def)
  have run: "artifact_entries E seen (p # ps) w = (if r \<in> set seen then artifact_entries E seen ps ?w1
      else bnd (make_artifact_entry E p) (\<lambda>e. bnd (artifact_entries E (r # seen) ps) (\<lambda>es. ret (e # es))) ?w1)"
    using r c by (simp add: bnd_def file_at_def canonical_path_def lift_r_def)
  show ?case
  proof (cases "r \<in> set seen")
    case True
    then show ?thesis
      using Cons.IH [of ?w1 seen] Cons.prems run by simp
  next
    case False
    obtain es v where "artifact_entries E (r # seen) ps ?w2 = (Ok es, v)" "d_files v = d_files w" "d_dirs v = d_dirs w"
      using Cons.IH [of ?w2 "r # seen"] Cons.prems by auto
    moreover from this have "artifact_entries E seen (p # ps) w = (Ok (\<lparr>ar_path = forward_slashes p,
        ar_sha256 = release_hex_sha256 E c, ar_size = of_nat (length c)\<rparr> # es), v)"
      unfolding run if_not_P [OF False] bnd_step [where m = "make_artifact_entry E p", OF entry] by (simp add: bnd_def ret_def)
    ultimately show ?thesis
      by blast
  qed
qed (simp add: ret_def)

lemma manifest_run:
  assumes "all_allowed E" and "\<And>n p. x_canonical_path (e_host E) n p \<noteq> None"
    and "\<forall>p \<in> set (listed_files base paths). d_files w p \<noteq> None"
  shows "\<exists>m v. build_artifact_manifest E base paths version key w = (Ok m, v) \<and> d_dirs v = d_dirs w"
proof -
  obtain es v where run: "artifact_entries E [] (listed_files base paths) w = (Ok es, v)" "d_dirs v = d_dirs w"
    using artifact_entries_run [OF assms] by blast
  have "\<exists>d v'. provenance_digest E base v = (Ok d, v') \<and> d_dirs v' = d_dirs v"
    using read_text_result [of v v E "path_join base ''provenance.json''"]
    by (auto simp: provenance_digest_def handle_def ret_def same_disk_def)
  then obtain d v' where "provenance_digest E base v = (Ok d, v')" "d_dirs v' = d_dirs v"
    by blast
  then show ?thesis
    using run unfolding build_artifact_manifest_def listed_files_def [symmetric]
    by (simp add: bnd_def now_def ret_def)
qed

lemma canonical_manifest: "canonical E (enc_artifact_manifest m) = Ok (as_bytes (e_json_print E (enc_artifact_manifest m)))"
  using canonical_to_value [OF manifest_fields_ok [of m]] by (simp add: canonical_def enc_artifact_manifest_def)

lemma sign_run:
  assumes "all_allowed E" and "\<And>n p. x_canonical_path (e_host E) n p \<noteq> None"
    and "reads_text w private_key key_text" and "x_load_private (e_host E) key_text pass = Some seed"
    and "x_public_pem (e_host E) seed = Some pem"
    and "\<forall>p \<in> set (listed_files base paths). d_files w p \<noteq> None"
    and "base \<noteq> []" and "d_files w base = None" and "path_parent (public_path_of base pk) = Some base"
    and "\<forall>q \<in> {public_path_of base pk, path_join base ''artifacts.json'', path_join base ''artifact.sig''}.
      q \<noteq> [] \<and> q \<noteq> base \<and> \<not> prefix (q @ ''/'') base \<and> d_dirs w q = None"
  shows "\<exists>m s w'. sign_release_artifacts E base paths private_key pk pass version w = (Ok (m, s), w')"
proof -
  let ?pub = "public_path_of base pk" and ?man = "path_join base ''artifacts.json''" and ?sig = "path_join base ''artifact.sig''"
  let ?calm = "\<lambda>v :: 'a disk_scheme. \<forall>q \<in> {?pub, ?man, ?sig}. d_dirs v q = None"
  obtain v0 where v0: "create_dir_all E base w = (Ok (), v0)" "d_files v0 = d_files w" "?calm v0"
    using create_dir_all_run [OF assms(1,7,8)] assms(10) by auto
  have "(\<exists>v1. read_to_string E private_key v0 = (Ok key_text, v1) \<and> same_disk v0 v1)"
    using read_text_result [of v0 v0 E private_key] assms(1,3) v0(2) by (auto simp: reads_text_def same_disk_def)
  then obtain v1 where v1: "read_to_string E private_key v0 = (Ok key_text, v1)" "d_files v1 = d_files w" "?calm v1"
    using v0(2,3) by (auto simp: same_disk_def)
  obtain v2 where v2: "create_dir_all E base v1 = (Ok (), v2)" "d_files v2 = d_files w" "?calm v2"
    using create_dir_all_run [OF assms(1,7), of v1] assms(8,10) v1(2,3) by auto
  obtain v3 where v3: "write_bytes E ?pub (as_bytes pem) v2 = (Ok (), v3)" "?calm v3"
      "\<forall>q. d_files v2 q \<noteq> None \<longrightarrow> d_files v3 q \<noteq> None"
    using write_bytes_run [OF assms(1), of ?pub v2 "as_bytes pem"] assms(10) v2(3) by (metis (no_types, lifting) insertI1 option.distinct(1))
  obtain m v4 where v4: "build_artifact_manifest E base paths version (release_hex_sha256 E (as_bytes pem)) v3 = (Ok m, v4)" "?calm v4"
    using manifest_run [OF assms(1,2), of base paths v3 version "release_hex_sha256 E (as_bytes pem)"] assms(6) v2(2) v3(2,3) by fastforce
  let ?raw = "as_bytes (e_json_print E (enc_artifact_manifest m))"
  obtain v5 where v5: "write_bytes E ?man ?raw v4 = (Ok (), v5)" "?calm v5"
    using write_bytes_run [OF assms(1), of ?man v4 ?raw] assms(10) v4(2) by auto
  have "\<exists>v6. write_bytes E ?sig c (v5\<lparr>tick := Suc (tick v5)\<rparr>) = (Ok (), v6)" for c
    using write_bytes_run [OF assms(1), of ?sig "v5\<lparr>tick := Suc (tick v5)\<rparr>" c] assms(10) v5(2) by auto
  then show ?thesis
    using v0(1) v1(1) v2(1) v3(1) v4(1) v5(1) assms(4,5,9)
    unfolding sign_release_artifacts_def Let_def
    by (auto simp: seq_Ok_iff bnd_Ok_iff canonical_manifest)
qed

section \<open>Unsigned evidence\<close>

text \<open>A signature file that calls itself unsigned is taken at its word: no key and no artifact is looked at.\<close>

lemma unsigned_mode_passes:
  assumes "all_allowed E"
    and "\<forall>n. n \<in> set required_files \<longrightarrow> n = ''artifacts.json'' \<or> on_file w (path_join base n)"
    and "\<forall>n. n \<in> set json_files \<longrightarrow> on_file w (path_join base n) \<longrightarrow>
      (\<exists>t. reads_text w (path_join base n) t \<and> e_json_parse E t \<noteq> None)"
    and "says (path_join base ''artifact.sig'') raw w" and "parse_as E dec_release_signature (from_bytes raw) = Some s"
    and "rs_mode s = ''unsigned-development-evidence''"
  shows "\<exists>v w'. verify_release_evidence E base pk w = (Ok v, w') \<and> rv_passed v"
  using assms unfolding release_sound_def by (intro release_passes) (auto simp: release_sound_def)

lemma unsigned_signature_unreadable: "dec_release_signature (unsigned_signature d) = None"
  by (simp add: dec_release_signature_def unsigned_signature_def to_value_def map_of_build_distinct dec_obj_def fld_def)

lemma says_write_pretty [says_intro]: "p \<noteq> q \<Longrightarrow> keeps (says p c) (write_pretty_json E q v)"
  unfolding write_pretty_json_def by (intro says_intro)

lemma says_openapi: "p \<noteq> q \<Longrightarrow> keeps (says p c) (openapi_from E sources q)"
  by (induction E sources q rule: openapi_from.induct) (auto intro!: keeps_intro says_intro)

lemma says_proto: "p \<noteq> path_join out ''proto/hbse/v1/hbse.proto'' \<Longrightarrow> keeps (says p c) (write_proto_evidence E base out)"
  unfolding write_proto_evidence_def Let_def by (intro keeps_intro says_intro)

lemma evidence_signature:
  assumes "generate_release_evidence E out base version w = (Ok ev, w')"
  shows "\<exists>digest. says (path_join out ''artifact.sig'') (as_bytes (x_json_pretty (e_host E) (unsigned_signature digest))) w'"
proof -
  let ?sig = "path_join out ''artifact.sig''"
  obtain digest v0 v1 lock v2 v3 where run: "write_pretty_json E ?sig (unsigned_signature digest) v0 = (Ok (), v1)"
      "write_pretty_json E (path_join out ''dependency-lock.json'') lock v1 = (Ok (), v2)"
      "write_openapi_evidence E base out v2 = (Ok (), v3)" "write_proto_evidence E base out v3 = (Ok (), w')"
    using assms unfolding generate_release_evidence_def Let_def by (auto simp: seq_Ok_iff bnd_Ok_iff)
  let ?says = "says ?sig (as_bytes (x_json_pretty (e_host E) (unsigned_signature digest)))"
  have other: "?sig \<noteq> path_join out n" if "n \<in> set required_files" "n \<noteq> ''artifact.sig''" for n
    using names_differ [OF that(1) signing_files(1), of out] that(2) by metis
  have "?says v1"
    using run(1) write_bytes_says by (auto simp: write_pretty_json_def)
  moreover have "?sig \<noteq> path_join out ''dependency-lock.json''" "?sig \<noteq> path_join out ''openapi.json''"
      "?sig \<noteq> path_join out ''proto/hbse/v1/hbse.proto''"
    by (rule other; simp add: required_files_def)+
  note differ = this
  ultimately have "?says v2"
    using keepsD [OF says_write_pretty [OF differ(1)] _ run(2)] by blast
  then have "?says v3"
    using keepsD [OF says_openapi [OF differ(2)] _ run(3) [unfolded write_openapi_evidence_def]] by blast
  then have "?says w'"
    using keepsD [OF says_proto [OF differ(3)] _ run(4)] by blast
  then show ?thesis by blast
qed

text \<open>
  C29: fresh evidence is refused. The signature file that the generation of evidence writes lacks the fields
  that its reader requires, so a release whose signature file is still that one fails verification, where a
  warning about unsigned evidence is intended.
\<close>

theorem generated_evidence_fails:
  assumes "generate_release_evidence E out base version w = (Ok ev, w1)" and "pretty_ok E"
    and "d_files w2 (path_join out ''artifact.sig'') = d_files w1 (path_join out ''artifact.sig'')"
  shows "\<exists>v w'. verify_release_evidence E out pk w2 = (Ok v, w') \<and> \<not> rv_passed v"
proof -
  let ?sig = "path_join out ''artifact.sig''"
  obtain digest where "says ?sig (as_bytes (x_json_pretty (e_host E) (unsigned_signature digest))) w1"
    using evidence_signature [OF assms(1)] by blast
  then have sig: "says ?sig (as_bytes (x_json_pretty (e_host E) (unsigned_signature digest))) w2"
    using assms(3) by (simp add: says_def)
  have "json_wf (unsigned_signature digest)"
    unfolding unsigned_signature_def by (intro json_wf_of_ok to_value_ok) simp_all
  then have "parse_as E dec_release_signature (x_json_pretty (e_host E) (unsigned_signature digest)) = None"
    using assms(2) by (simp add: parse_as_def pretty_ok_def unsigned_signature_unreadable)
  then have "raw = as_bytes (x_json_pretty (e_host E) (unsigned_signature digest)) \<Longrightarrow>
      parse_as E dec_release_signature (from_bytes raw) \<noteq> Some s" for raw s
    by simp
  then have "\<not> release_sound E w2 out pk"
    using says_unique [OF _ sig] unfolding release_sound_def by blast
  moreover have "same_disk w2 w2"
    by (simp add: same_disk_def)
  ultimately show ?thesis
    using decidesE [OF decides_release, of w2 w2 E out pk] by metis
qed

section \<open>An example\<close>

text \<open>An environment whose printed texts are plain ASCII: each character as its eight bits.\<close>

fun bit_text :: "string \<Rightarrow> string" where
  "bit_text [] = []"
| "bit_text (Char b0 b1 b2 b3 b4 b5 b6 b7 # s) =
     map (\<lambda>b. if b then CHR ''1'' else CHR ''0'') [b0, b1, b2, b3, b4, b5, b6, b7] @ bit_text s"

fun text_bits :: "string \<Rightarrow> string" where
  "text_bits (c0 # c1 # c2 # c3 # c4 # c5 # c6 # c7 # s) =
     (let d = (\<lambda>c. c = CHR ''1'') in Char (d c0) (d c1) (d c2) (d c3) (d c4) (d c5) (d c6) (d c7) # text_bits s)"
| "text_bits s = []"

lemma text_bits_bit_text: "text_bits (bit_text s) = s"
  by (induction s rule: bit_text.induct) (simp_all add: Let_def)

lemma bit_text_utf8: "utf8_valid (as_bytes (bit_text s))"
proof (rule utf8_valid_ascii)
  have "set (bit_text s) \<subseteq> {CHR ''0'', CHR ''1''}"
    by (induction s rule: bit_text.induct) auto
  then show "\<forall>b \<in> set (as_bytes (bit_text s)). unat b < 128"
    by (auto simp: as_bytes_def unat_char_byte)
qed

definition release_env :: env where
  "release_env = sample_env
     \<lparr>e_json_print := bit_text \<circ> pr, e_json_parse := e_json_parse sample_env \<circ> text_bits,
      e_host := (e_host sample_env)\<lparr>x_json_pretty := bit_text \<circ> pr, x_public_pem := \<lambda>_. Some ''p'',
        x_load_public := \<lambda>_. Some [], x_sign := \<lambda>_. pad 64, x_verify := \<lambda>_ m s. s = pad 64 m\<rparr>\<rparr>"

definition release_disk :: disk where
  "release_disk = \<lparr>tick = 0, db_metadata = [], db_secrets = [], db_policies = [], db_tickets = [], db_audit = [],
     db_fingerprints = [], db_jobs = [],
     d_files = (\<lambda>p. if p = ''k'' \<or> p = ''a'' \<or> p \<in> set (map (path_join ''r'') evidence_files)
       then Some (as_bytes (bit_text (pr (JObj []))), 420) else None),
     d_dirs = (\<lambda>_. None), d_umask = 18\<rparr>"

lemma release_env_ok:
  "all_allowed release_env" "json_text_ok release_env" "pretty_ok release_env" "b64url_ok release_env"
  "ed25519_ok release_env" "prints_utf8 release_env" "x_canonical_path (e_host release_env) n p \<noteq> None"
proof -
  show "json_text_ok release_env" "pretty_ok release_env"
    using sample_ok(4) by (simp_all add: json_text_ok_def pretty_ok_def release_env_def text_bits_bit_text)
  show "prints_utf8 release_env"
    using bit_text_utf8 by (auto simp: prints_utf8_def release_env_def intro!: utf8_valid_ascii simp: as_bytes_def unat_char_byte)
qed (simp_all add: release_env_def sample_env_def sample_host_def all_allowed_def b64url_ok_def ed25519_ok_def)

lemma release_paths:
  "public_path_of ''r'' None = ''r/signing_public_key.pem''" "path_parent ''r/signing_public_key.pem'' = Some ''r''"
  "path_join ''r'' ''artifact.sig'' = ''r/artifact.sig''" "path_join ''r'' ''artifacts.json'' = ''r/artifacts.json''"
  by code_simp+

lemma release_disk_says: "p = ''k'' \<or> p = ''a'' \<or> p \<in> set (map (path_join ''r'') evidence_files) \<Longrightarrow>
    says p (as_bytes (bit_text (pr (JObj [])))) release_disk"
  by (auto simp: says_def release_disk_def)

lemma sample_signing:
  "\<exists>m s w'. sign_release_artifacts release_env ''r'' [''a''] ''k'' None None ''1'' release_disk = (Ok (m, s), w')"
proof (rule sign_run)
  show "reads_text release_disk ''k'' (bit_text (pr (JObj [])))"
    using release_disk_says [of "''k''"] bit_text_utf8 [of "pr (JObj [])"] unfolding reads_text_def says_def
    by (metis from_bytes_as_bytes)
  show "\<forall>p \<in> set (listed_files ''r'' [''a'']). d_files release_disk p \<noteq> None"
    by (auto simp: listed_files_def release_disk_def)
  show "d_files release_disk ''r'' = None"
    by (simp add: release_disk_def evidence_files_def path_join_def starts_with_def ends_with_def)
  show "path_parent (public_path_of ''r'' None) = Some ''r''"
    by (simp only: release_paths)
  show "x_load_private (e_host release_env) (bit_text (pr (JObj []))) None = Some (as_bytes (bit_text (pr (JObj []))))"
    "x_public_pem (e_host release_env) (as_bytes (bit_text (pr (JObj [])))) = Some ''p''"
    by (simp_all add: release_env_def sample_env_def sample_host_def)
  show "\<forall>q \<in> {public_path_of ''r'' None, path_join ''r'' ''artifacts.json'', path_join ''r'' ''artifact.sig''}.
      q \<noteq> [] \<and> q \<noteq> ''r'' \<and> \<not> prefix (q @ ''/'') ''r'' \<and> d_dirs release_disk q = None"
    unfolding release_paths by (simp add: release_disk_def)
  show "all_allowed release_env" "x_canonical_path (e_host release_env) n p \<noteq> None" for n p
    by (rule release_env_ok)+
qed simp

lemma sample_hyps:
  "\<forall>n. n \<in> set json_files - {''artifact.sig'', ''artifacts.json''} \<longrightarrow>
    (\<exists>c. says (path_join ''r'' n) c release_disk \<and> utf8_valid c \<and> e_json_parse release_env (from_bytes c) \<noteq> None)"
  "\<forall>n. n \<in> set required_files \<longrightarrow> public_path_of ''r'' None \<noteq> path_join ''r'' n"
  "\<forall>p. p \<in> set [''a''] \<longrightarrow> p \<noteq> path_join ''r'' ''artifact.sig'' \<and> p \<noteq> path_join ''r'' ''artifacts.json'' \<and>
    forward_slashes p = p"
  "forward_slashes ''r'' = ''r''"
proof -
  show "\<forall>n. n \<in> set json_files - {''artifact.sig'', ''artifacts.json''} \<longrightarrow>
      (\<exists>c. says (path_join ''r'' n) c release_disk \<and> utf8_valid c \<and> e_json_parse release_env (from_bytes c) \<noteq> None)"
  proof (intro allI impI)
    fix n assume "n \<in> set json_files - {''artifact.sig'', ''artifacts.json''}"
    then have "path_join ''r'' n \<in> set (map (path_join ''r'') evidence_files)"
      by (auto simp: json_files_def evidence_files_def)
    moreover have "e_json_parse release_env (bit_text (pr (JObj []))) = Some (JObj [])"
      using release_env_ok(2) by (simp add: json_text_ok_def release_env_def del: pr.simps)
    ultimately show "\<exists>c. says (path_join ''r'' n) c release_disk \<and> utf8_valid c \<and> e_json_parse release_env (from_bytes c) \<noteq> None"
      using release_disk_says bit_text_utf8 by (metis from_bytes_as_bytes option.distinct(1))
  qed
  show "\<forall>n. n \<in> set required_files \<longrightarrow> public_path_of ''r'' None \<noteq> path_join ''r'' n"
    unfolding release_paths by (simp add: required_files_def path_join_def starts_with_def ends_with_def)
  show "\<forall>p. p \<in> set [''a''] \<longrightarrow> p \<noteq> path_join ''r'' ''artifact.sig'' \<and> p \<noteq> path_join ''r'' ''artifacts.json'' \<and>
      forward_slashes p = p" "forward_slashes ''r'' = ''r''"
    unfolding release_paths by (simp_all add: forward_slashes_def)
qed


lemma release_verdict_exact_witness:
  "\<exists>m s w' v w''. sign_release_artifacts release_env ''r'' [''a''] ''k'' None None ''1'' release_disk = (Ok (m, s), w') \<and>
     release_sound release_env w' ''r'' None \<and> verify_release_evidence release_env ''r'' None w' = (Ok v, w'') \<and> rv_passed v"
proof -
  obtain m s w' where run: "sign_release_artifacts release_env ''r'' [''a''] ''k'' None None ''1'' release_disk = (Ok (m, s), w')"
    using sample_signing by blast
  have sound: "release_sound release_env w' ''r'' None"
    by (rule signed_release_sound [OF run release_env_ok(1-5) sample_hyps release_env_ok(6)])
  with release_verdict_exact [of release_env "''r''" None w'] run release_env_ok(1) show ?thesis
    by blast
qed

text \<open>An operation that goes through and keeps an invariant.\<close>

definition goes :: "('w \<Rightarrow> bool) \<Rightarrow> ('w, 'a, 'e) act \<Rightarrow> bool" where
  "goes I m \<longleftrightarrow> (\<forall>w. I w \<longrightarrow> (\<exists>x v. m w = (Ok x, v) \<and> I v))"

lemma goes_bnd: "goes I m \<Longrightarrow> (\<And>x. goes I (f x)) \<Longrightarrow> goes I (bnd m f)"
  unfolding goes_def by (metis bnd_step)

lemma goes_seq: "goes I m \<Longrightarrow> goes I n \<Longrightarrow> goes I (seq m n)"
  unfolding seq_def by (rule goes_bnd)

lemma goes_ret: "goes I (ret x)"
  by (simp add: goes_def ret_def)

text \<open>A directory \<open>o\<close> to write to, and no sources at \<open>s\<close>.\<close>

definition clear_at :: "disk \<Rightarrow> bool" where
  "clear_at v \<longleftrightarrow> (\<forall>n \<in> set required_files. d_dirs v (path_join ''o'' n) = None) \<and>
     (\<forall>p. (p = ''o'' \<or> p = ''o/proto/hbse/v1'' \<or> starts_with p ''s/'') \<longrightarrow> d_files v p = None)"

lemma path_o: "n \<in> set required_files \<Longrightarrow> path_join ''o'' n = ''o/'' @ n"
proof -
  assume "n \<in> set required_files"
  then have "\<not> starts_with n ''/''"
    by (auto simp: required_files_def starts_with_def)
  moreover have "\<not> ends_with ''o'' ''/''"
    by code_simp
  ultimately show ?thesis
    by (simp add: path_join_def)
qed

lemma goes_write:
  assumes "n \<in> set required_files"
  shows "goes clear_at (rl_io (write_bytes sample_env (path_join ''o'' n) c))"
  unfolding goes_def
proof (intro allI impI)
  fix w :: disk assume w: "clear_at w"
  have allowed: "all_allowed sample_env"
    by (simp add: all_allowed_def sample_env_def)
  note path = path_o [OF assms]
  have free: "path_join ''o'' n \<noteq> []"
    by (simp add: path)
  have unused: "d_dirs w (path_join ''o'' n) = None"
    using w assms unfolding clear_at_def by blast
  obtain v where "write_bytes sample_env (path_join ''o'' n) c w = (Ok (), v)" "d_dirs v = d_dirs w"
      "\<forall>q. q \<noteq> path_join ''o'' n \<longrightarrow> d_files v q = d_files w q"
    using write_bytes_run [OF allowed free unused, of c] by blast
  moreover have "p \<noteq> path_join ''o'' n" if "p = ''o'' \<or> p = ''o/proto/hbse/v1'' \<or> starts_with p ''s/''" for p
    using that assms unfolding path by (auto simp: required_files_def starts_with_def)
  ultimately show "\<exists>x v. rl_io (write_bytes sample_env (path_join ''o'' n) c) w = (Ok x, v) \<and> clear_at v"
    using w by (auto simp: clear_at_def)
qed

lemma goes_dir:
  assumes "d = ''o'' \<or> d = ''o/proto/hbse/v1''"
  shows "goes clear_at (rl_io (create_dir_all sample_env d))"
  unfolding goes_def
proof (intro allI impI)
  fix w :: disk assume w: "clear_at w"
  have allowed: "all_allowed sample_env"
    by (simp add: all_allowed_def sample_env_def)
  obtain v where v: "create_dir_all sample_env d w = (Ok (), v)" "d_files v = d_files w"
      "\<forall>q. d_dirs w q = None \<and> q \<noteq> d \<and> \<not> prefix (q @ ''/'') d \<longrightarrow> d_dirs v q = None"
    using create_dir_all_run [OF allowed, of d w] w assms by (auto simp: clear_at_def)
  have "d_dirs v (path_join ''o'' n) = None" if "n \<in> set required_files" for n
  proof -
    have "path_join ''o'' n \<noteq> d \<and> \<not> prefix (path_join ''o'' n @ ''/'') d"
      using that assms unfolding path_o [OF that] by (auto simp: required_files_def)
    then show ?thesis
      using v(3) w that by (auto simp: clear_at_def)
  qed
  then show "\<exists>x v. rl_io (create_dir_all sample_env d) w = (Ok x, v) \<and> clear_at v"
    using v(1,2) w by (auto simp: clear_at_def)
qed

lemma clear_at_tick [simp]: "clear_at (w\<lparr>tick := n\<rparr>) = clear_at w"
  by (simp add: clear_at_def)

lemma goes_no_lock:
  assumes "starts_with p ''s/''" and "goes clear_at m"
  shows "goes clear_at (handle (cargo_lock_components sample_env p) ret (\<lambda>_ :: release_error. m))"
  unfolding goes_def
proof (intro allI impI)
  fix w :: disk assume w: "clear_at w"
  then have "d_files w p = None"
    using assms(1) by (simp add: clear_at_def)
  then have "cargo_lock_components sample_env p w = (Err RlIo, w\<lparr>tick := Suc (tick w)\<rparr>)"
    by (simp add: cargo_lock_components_def rl_io_def read_to_string_def read_bytes_def fs_permits_def bnd_def seq_def
        on_err_map sample_env_def)
  then show "\<exists>x v. handle (cargo_lock_components sample_env p) ret (\<lambda>_ :: release_error. m) w = (Ok x, v) \<and> clear_at v"
    using assms(2) w by (simp add: handle_def goes_def)
qed

lemma goes_no_file:
  assumes "starts_with p ''s/''" and "goes clear_at (f False)"
  shows "goes clear_at (bnd (file_at p) f)"
  using assms by (auto simp: goes_def bnd_def file_at_def clear_at_def)

lemma goes_world: "goes clear_at (now sample_env)" "goes clear_at (rustc_version sample_env)"
  "goes clear_at (source_digest sample_env p)"
  by (simp_all add: goes_def now_def rustc_version_def source_digest_def sample_env_def sample_host_def sort_paths_def
      bnd_def lift_r_def ret_def)

lemma sample_sources: "path_join ''s'' ''Cargo.lock'' = ''s/Cargo.lock''" "path_join ''s'' ''rust/Cargo.lock'' = ''s/rust/Cargo.lock''"
  "path_join ''s'' ''release/openapi.json'' = ''s/release/openapi.json''" "path_join ''s'' ''openapi.json'' = ''s/openapi.json''"
  "path_join ''s'' ''proto/hbse/v1/hbse.proto'' = ''s/proto/hbse/v1/hbse.proto''"
  "path_parent (path_join ''o'' ''proto/hbse/v1/hbse.proto'') = Some ''o/proto/hbse/v1''"
  "starts_with ''s/Cargo.lock'' ''s/''" "starts_with ''s/rust/Cargo.lock'' ''s/''" "starts_with ''s/release/openapi.json'' ''s/''"
  "starts_with ''s/openapi.json'' ''s/''" "starts_with ''s/proto/hbse/v1/hbse.proto'' ''s/''"
  by code_simp+

lemma required_names:
  "''sbom.json'' \<in> set required_files" "''provenance.json'' \<in> set required_files"
  "''production_checklist.json'' \<in> set required_files" "''dependency-lock.json'' \<in> set required_files"
  "''openapi.json'' \<in> set required_files" "''proto/hbse/v1/hbse.proto'' \<in> set required_files"
  by (simp_all add: required_files_def)

lemma sample_generation: "goes clear_at (generate_release_evidence sample_env ''o'' ''s'' ''1'')"
proof -
  have json: "goes clear_at (write_pretty_json sample_env (path_join ''o'' n) v)" if "n \<in> set required_files" for n v
    unfolding write_pretty_json_def by (rule goes_write [OF that])
  have openapi: "goes clear_at (write_openapi_evidence sample_env ''s'' ''o'')"
    unfolding write_openapi_evidence_def sample_sources openapi_from.simps
    by (rule goes_no_file [OF sample_sources(9)], unfold if_False, rule goes_no_file [OF sample_sources(10)], unfold if_False)
      (rule json, rule required_names)
  have proto: "goes clear_at (write_proto_evidence sample_env ''s'' ''o'')"
    unfolding write_proto_evidence_def Let_def sample_sources option.case
    by (intro goes_seq goes_dir goes_no_file sample_sources) (simp_all add: goes_write required_names)
  show ?thesis
    unfolding generate_release_evidence_def Let_def sample_sources
    by (intro goes_seq goes_bnd goes_world goes_dir goes_no_lock goes_ret json openapi proto signing_files required_names
        sample_sources) simp
qed

lemma release_disk_clear: "clear_at release_disk"
  unfolding clear_at_def by (auto simp: release_disk_def evidence_files_def path_join_def starts_with_def ends_with_def)

lemma generated_evidence_fails_witness:
  "\<exists>ev w1 v w'. generate_release_evidence sample_env ''o'' ''s'' ''1'' release_disk = (Ok ev, w1) \<and>
     verify_release_evidence sample_env ''o'' None w1 = (Ok v, w') \<and> \<not> rv_passed v"
proof -
  obtain ev w1 where run: "generate_release_evidence sample_env ''o'' ''s'' ''1'' release_disk = (Ok ev, w1)"
    using sample_generation release_disk_clear unfolding goes_def by blast
  have "pretty_ok sample_env"
    using sample_ok(4) by (simp add: pretty_ok_def json_text_ok_def sample_env_def sample_host_def)
  from generated_evidence_fails [OF run this refl] run show ?thesis
    by blast
qed

end
