(* ===== verification/Ticket_Race.thy ===== *)
theory Ticket_Race
  imports Vault_Release
begin

text \<open>
  Tickets under contention (\<open>vault.rs\<close> with \<open>store.rs\<close>): several processes load one ticket, compute
  what becomes of it and write it back, in any order. A use is written back on condition that the row
  is still the one that was loaded; a revocation is written back unconditionally.
\<close>

section \<open>Races\<close>

text \<open>What a process carries between loading the ticket and writing it: the tickets it will write.\<close>

datatype errand = Spending secret_access_ticket secret_access_ticket | Voiding secret_access_ticket

datatype race_event = Spent | Voided

inductive ticket_race :: "env \<Rightarrow> bytes \<Rightarrow> string \<Rightarrow> 'z world_scheme \<Rightarrow> errand set \<Rightarrow> race_event list
    \<Rightarrow> 'z world_scheme \<Rightarrow> bool" for E k tid w where
  start: "ticket_race E k tid w {} [] w"
| load_use: "ticket_race E k tid w P es v \<Longrightarrow> load_text E dec_ticket (db_tickets v) tid = Ok (Some t) \<Longrightarrow>
     consume E k t r time = Ok t' \<Longrightarrow> ticket_race E k tid w (insert (Spending t t') P) es v"
| save_use: "ticket_race E k tid w P es v \<Longrightarrow> Spending t t' \<in> P \<Longrightarrow>
     save_ticket_if_current E t t' v = (Ok (), v') \<Longrightarrow> ticket_race E k tid w P (es @ [Spent]) v'"
| load_void: "ticket_race E k tid w P es v \<Longrightarrow> load_text E dec_ticket (db_tickets v) tid = Ok (Some t) \<Longrightarrow>
     revoke E k t = Ok t' \<Longrightarrow> ticket_race E k tid w (insert (Voiding t') P) es v"
| save_void: "ticket_race E k tid w P es v \<Longrightarrow> Voiding t' \<in> P \<Longrightarrow>
     save_ticket E t' v = (Ok (), v') \<Longrightarrow> ticket_race E k tid w P (es @ [Voided]) v'"
| others: "ticket_race E k tid w P es v \<Longrightarrow>
     map_of (db_tickets v') tid = map_of (db_tickets v) tid \<Longrightarrow> ticket_race E k tid w P es v'"

text \<open>How often the ticket was used.\<close>

definition uses_of :: "race_event list \<Rightarrow> nat" where
  "uses_of es = length (filter (\<lambda>e. e = Spent) es)"

lemma uses_of_simps [simp]: "uses_of [] = 0" "uses_of (es @ [Spent]) = Suc (uses_of es)" "uses_of (es @ [Voided]) = uses_of es"
  by (simp_all add: uses_of_def)

text \<open>No use follows a revocation.\<close>

definition void_stays :: "race_event list \<Rightarrow> bool" where
  "void_stays es \<longleftrightarrow> (\<forall>xs ys. es = xs @ Voided # ys \<longrightarrow> Spent \<notin> set ys)"

lemma void_stays_snoc:
  assumes "void_stays es" and "e = Spent \<Longrightarrow> Voided \<notin> set es"
  shows "void_stays (es @ [e])"
  unfolding void_stays_def
proof (intro allI impI)
  fix xs ys assume es: "es @ [e] = xs @ Voided # ys"
  show "Spent \<notin> set ys"
  proof (cases ys rule: rev_cases)
    case (snoc zs z)
    then have "es = xs @ Voided # zs" "z = e"
      using es by simp_all
    then show ?thesis
      using assms snoc by (auto simp: void_stays_def)
  qed simp
qed

section \<open>What holds throughout a race\<close>

definition errand_ok :: "env \<Rightarrow> bytes \<Rightarrow> string \<Rightarrow> errand \<Rightarrow> bool" where
  "errand_ok E k tid p \<longleftrightarrow>
     (case p of
        Spending t t' \<Rightarrow> tk_ticket_id t = tid \<and> \<not> tk_revoked t \<and> 0 < unat (tk_uses_remaining t) \<and> t' = spent E k t
      | Voiding t' \<Rightarrow> tk_ticket_id t' = tid \<and> tk_revoked t')"

definition race_inv :: "env \<Rightarrow> bytes \<Rightarrow> string \<Rightarrow> secret_access_ticket \<Rightarrow> errand set \<Rightarrow> race_event list
    \<Rightarrow> secret_access_ticket \<Rightarrow> bool" where
  "race_inv E k tid t0 P es t \<longleftrightarrow> tk_ticket_id t = tid \<and> (\<forall>p \<in> P. errand_ok E k tid p) \<and> void_stays es \<and>
     uses_of es \<le> unat (tk_uses_remaining t0) \<and>
     (Voided \<in> set es \<longrightarrow> tk_revoked t) \<and>
     (Voided \<notin> set es \<longrightarrow> uses_of es + unat (tk_uses_remaining t) = unat (tk_uses_remaining t0))"

lemma race_holds:
  assumes "ticket_race E k tid w P es v" and "json_text_ok E"
    and "load_text E dec_ticket (db_tickets w) tid = Ok (Some t0)" and "tk_ticket_id t0 = tid"
  shows "\<exists>t. load_text E dec_ticket (db_tickets v) tid = Ok (Some t) \<and> race_inv E k tid t0 P es t"
  using assms
proof induction
  case start
  then show ?case
    by (auto simp: race_inv_def void_stays_def)
next
  case (load_use P es v t r time t')
  then have inv: "race_inv E k tid t0 P es t"
    by auto
  then have "errand_ok E k tid (Spending t t')"
    using load_use.hyps(3) by (auto simp: errand_ok_def consume_Ok_iff live_at_iff race_inv_def)
  then show ?case
    using inv load_use.hyps(2) by (auto simp: race_inv_def)
next
  case (save_use P es v t t' v')
  then obtain u where u: "load_text E dec_ticket (db_tickets v) tid = Ok (Some u)" "race_inv E k tid t0 P es u"
    by auto
  have t: "tk_ticket_id t = tid" "\<not> tk_revoked t" "0 < unat (tk_uses_remaining t)" "t' = spent E k t"
    using u(2) save_use.hyps(2) by (auto simp: race_inv_def errand_ok_def)
  have row: "map_of (db_tickets v) tid = Some (e_json_print E (enc_ticket t))"
    and v': "db_tickets v' = tbl_put tid (e_json_print E (enc_ticket t')) (db_tickets v)"
    using save_use.hyps(3) t(1) by (auto simp: save_ticket_if_current_def split: if_splits)
  have dom: "ticket_domain E x" for x
    using save_use.prems(1) by (simp add: ticket_domain_def)
  have "u = t"
    using u(1) row ticket_table.reads [OF dom, of t] by (simp add: load_text_def)
  moreover have "tk_ticket_id t' = tid" "unat (tk_uses_remaining t') = unat (tk_uses_remaining t) - 1"
    using t by (auto simp: spent_def Let_def unat_minus_1 unat_gt_0)
  moreover have "load_text E dec_ticket (db_tickets v') tid = Ok (Some t')"
    using ticket_table.load_put [OF dom, of t' "db_tickets v" tid] v' calculation(2) by simp
  ultimately show ?case
    using u(2) t by (auto simp: race_inv_def intro!: void_stays_snoc)
next
  case (load_void P es v t t')
  then show ?case
    by (auto simp: race_inv_def errand_ok_def revoke_eq split: if_splits)
next
  case (save_void P es v t' v')
  then obtain u where u: "race_inv E k tid t0 P es u"
    by auto
  have t': "tk_ticket_id t' = tid" "tk_revoked t'"
    using u save_void.hyps(2) by (auto simp: race_inv_def errand_ok_def)
  moreover have "load_text E dec_ticket (db_tickets v') tid = Ok (Some t')"
    using save_void.hyps(3) save_void.prems(1) t'(1) ticket_table.load_put [of E t' "db_tickets v" tid]
    by (auto simp: save_ticket_def ticket_domain_def)
  ultimately show ?case
    using u by (auto simp: race_inv_def intro!: void_stays_snoc)
next
  case (others P es v v')
  then show ?case
    by (simp add: load_text_def)
qed

section \<open>The vault's own uses are races\<close>

lemma consume_is_race:
  fixes w :: "'z world_scheme"
  assumes "json_text_ok E" and "ticket_rows_ok E (db_tickets w)" and "consume_ticket_for_secret E tid r p w = (Ok pt, w')"
  shows "\<exists>k P. ticket_race E k tid w P [Spent] w'"
  using assms(3)
proof (rule consume_ticket_Ok)
  fix w0 h keys w1 t w2 k t' pol w3 w4 w5 rc w6 ev sev
  assume gate: "(if rq_raw_export_requested r then enforce_plaintext_export_allowed E (rq_mfa_verified r)
      else ret ()) w = (Ok (), w0)"
    and unlocked: "unlock E (Some p) w0 = (Ok (h, keys), w1)"
    and loaded: "vault_load_ticket E tid w1 = (Ok t, w2)"
    and used: "consume E k t r (e_clock E (tick w2)) = Ok t'"
    and pol: "check_ticket_policy E t (w2\<lparr>tick := Suc (tick w2)\<rparr>) = (Ok pol, w3)"
    and fresh: "ensure_ticket_secret_is_current E t w3 = (Ok (), w4)"
    and saved: "save_ticket_if_current E t t' w4 = (Ok (), w5)"
    and rc: "(if tk_secret_version t = 0 then load_latest_secret E (tk_secret_ref t)
       else load_secret_version E (tk_secret_ref t) (tk_secret_version t)) w5 = (Ok rc, w6)"
    and audit: "append_audit E h keys ''secret.materialized'' sev ''allow''
       (meta [(''secret_ref'', JStr (tk_secret_ref t)), (''ticket_id'', JStr (tk_ticket_id t)),
           (''consumer'', JStr (rq_consumer r)), (''purpose'', JStr (rq_purpose r)),
           (''delivery_mode'', JStr (delivery_mode_string (rq_delivery_mode r)))]) w6 = (Ok ev, w')"
  have load: "load_text E dec_ticket (db_tickets w) tid = Ok (Some t)"
    using loaded same_tablesD(1) [OF before_load [OF gate unlocked]]
    by (auto simp: vault_load_ticket_def bnd_Ok_iff load_ticket_def)
  note tf = same_tables_tick_free
  have 2: "same_tables w w2"
    by (rule reads_same_tables [where m = "vault_load_ticket E tid", OF loaded _ before_load [OF gate unlocked]])
      (intro frame_intro tf)
  have 3: "same_tables w w3"
    by (rule reads_same_tables [where m = "check_ticket_policy E t", OF pol])
      (intro frame_intro tf, rule tick_freeD [OF tf 2], simp)
  have 4: "same_tables w w4"
    by (rule reads_same_tables [where m = "ensure_ticket_secret_is_current E t", OF fresh _ 3]) (intro frame_intro tf)
  have "tk_ticket_id t' = tk_ticket_id t"
    using used by (auto simp: consume_Ok_iff spent_def Let_def)
  then have w': "db_tickets w' = db_tickets w5"
    by (rule consume_saves [OF assms(1) saved _ rc audit])
  have "ticket_race E k tid w {Spending t t'} [] w4"
    using ticket_race.others [OF ticket_race.load_use [OF ticket_race.start load used]] same_tablesD(1) [OF 4] by simp
  from ticket_race.save_use [OF this _ saved] have "ticket_race E k tid w {Spending t t'} [Spent] w5"
    by simp
  then show ?thesis
    using ticket_race.others w' by metis
qed

section \<open>Property\<close>

text \<open>
  C2: a ticket's uses are bounded however many processes race for it. In any interleaving of loads and
  conditional writes of uses, revocations, and other work on the database, the ticket is used at most
  as often as it had uses left, never after a revocation was written, and the uses left are those it
  had less those made; every release of a secret by the vault is such a use.
\<close>

theorem ticket_race_bounded:
  fixes w :: "'z world_scheme"
  assumes "json_text_ok E" and "ticket_rows_ok E (db_tickets w)"
    and "load_text E dec_ticket (db_tickets w) tid = Ok (Some t0)"
  shows "(\<forall>k P es v. ticket_race E k tid w P es v \<longrightarrow>
       uses_of es \<le> unat (tk_uses_remaining t0) \<and>
       (\<forall>xs ys. es = xs @ Voided # ys \<longrightarrow> Spent \<notin> set ys) \<and>
       (\<exists>t. load_text E dec_ticket (db_tickets v) tid = Ok (Some t) \<and>
         (if Voided \<in> set es then tk_revoked t
          else uses_of es + unat (tk_uses_remaining t) = unat (tk_uses_remaining t0)))) \<and>
    (\<forall>r p pt w'. consume_ticket_for_secret E tid r p w = (Ok pt, w') \<longrightarrow>
       (\<exists>k P. ticket_race E k tid w P [Spent] w'))"
proof -
  have tid: "tk_ticket_id t0 = tid"
    using assms(2,3) ticket_table.load_ok(2) unfolding ticket_rows_ok_def by blast
  note race = race_holds [OF _ assms(1,3) tid]
  have "uses_of es \<le> unat (tk_uses_remaining t0) \<and> void_stays es \<and>
      (\<exists>t. load_text E dec_ticket (db_tickets v) tid = Ok (Some t) \<and>
        (if Voided \<in> set es then tk_revoked t
         else uses_of es + unat (tk_uses_remaining t) = unat (tk_uses_remaining t0)))"
    if "ticket_race E k tid w P es v" for k P es v
    using race [OF that] by (auto simp: race_inv_def)
  then show ?thesis
    using consume_is_race [OF assms(1,2)] unfolding void_stays_def by blast
qed

section \<open>A race on the example ticket\<close>

definition race_world :: world where
  "race_world = \<lparr>tick = 0, db_metadata = [], db_secrets = [], db_policies = [],
     db_tickets = [(tk_ticket_id sample_ticket, e_json_print sample_env (enc_ticket sample_ticket))],
     db_audit = [], db_fingerprints = [], db_jobs = []\<rparr>"

lemma race_world_rows:
  "ticket_rows_ok sample_env (db_tickets race_world)"
  "load_text sample_env dec_ticket (db_tickets race_world) (tk_ticket_id sample_ticket) = Ok (Some sample_ticket)"
proof -
  show ok: "ticket_rows_ok sample_env (db_tickets race_world)"
    using sample_ok(4) by (auto simp: ticket_rows_ok_def text_table_def ticket_domain_def race_world_def simp del: sample_simps)
  show "load_text sample_env dec_ticket (db_tickets race_world) (tk_ticket_id sample_ticket) = Ok (Some sample_ticket)"
    using ticket_table.load_ok(2) [OF ok [unfolded ticket_rows_ok_def]] sample_ok(4)
    by (simp add: ticket_domain_def race_world_def del: sample_simps)
qed

text \<open>A revocation is under way when a use is written; then the revocation is written over it.\<close>

lemma ticket_race_bounded_witness:
  "\<exists>k P v t. ticket_race sample_env k (tk_ticket_id sample_ticket) race_world P [Spent, Voided] v \<and>
     load_text sample_env dec_ticket (db_tickets v) (tk_ticket_id sample_ticket) = Ok (Some t) \<and>
     uses_of [Spent, Voided] \<le> unat (tk_uses_remaining sample_ticket) \<and> tk_revoked t"
proof -
  let ?id = "tk_ticket_id sample_ticket" and ?race = "ticket_race sample_env [1] (tk_ticket_id sample_ticket) race_world"
  let ?t = "spent sample_env [1] sample_ticket"
  have "consume sample_env [1] sample_ticket sample_request 1000000000000 = Ok ?t"
    using sample_ticket_facts by (simp add: consume_Ok_iff live_at_iff)
  from ticket_race.load_use [OF ticket_race.start race_world_rows(2) this]
  have use: "?race {Spending sample_ticket ?t} [] race_world" .
  obtain u where u: "revoke sample_env [1] sample_ticket = Ok u" "tk_ticket_id u = ?id"
    using sample_ticket_facts(1) by (simp add: revoke_eq)
  from ticket_race.load_void [OF use race_world_rows(2) u(1)]
  have both: "?race {Voiding u, Spending sample_ticket ?t} [] race_world" .
  obtain w1 where "save_ticket_if_current sample_env sample_ticket ?t race_world = (Ok (), w1)"
    by (simp add: save_ticket_if_current_def race_world_def txn_def sample_env_def)
  from ticket_race.save_use [OF both _ this]
  have one: "?race {Voiding u, Spending sample_ticket ?t} [Spent] w1"
    by simp
  obtain w2 where "save_ticket sample_env u w1 = (Ok (), w2)"
    by (simp add: save_ticket_def txn_def sample_env_def update_def)
  from ticket_race.save_void [OF one _ this]
  have two: "?race {Voiding u, Spending sample_ticket ?t} [Spent, Voided] w2"
    by simp
  from ticket_race_bounded [OF sample_ok(4) race_world_rows, THEN conjunct1, rule_format, OF two] two
  show ?thesis
    by auto
qed

end
