(* ===== verification/Rotation_Life.thy ===== *)
theory Rotation_Life
  imports Vault_Release
begin

text \<open>
  Rotation jobs through the vault's operations (\<open>vault.rs\<close> with \<open>rotation.rs\<close> and \<open>store.rs\<close>): every
  operation moves every stored job along an edge of its life cycle, and a rotation that goes through
  delivers the new secret.
\<close>

section \<open>The life cycle\<close>

inductive rotation_edge :: "rotation_job option \<Rightarrow> rotation_job option \<Rightarrow> bool" where
  stays: "rotation_edge j j"
| starts: "rj_status j = JobStaged \<Longrightarrow> sr_status (rj_staged_record j) = Staged \<Longrightarrow> rotation_edge None (Some j)"
| verifies: "rj_status j = JobStaged \<Longrightarrow>
     rotation_edge (Some j) (Some (j\<lparr>rj_status := Verified, rj_updated_at := u, rj_failure_reason := None\<rparr>))"
| promotes: "rj_status j = Verified \<Longrightarrow>
     rotation_edge (Some j) (Some (j\<lparr>rj_status := Promoted, rj_updated_at := u, rj_failure_reason := None\<rparr>))"
| rolls_back: "rj_status j \<in> {JobStaged, Verified} \<Longrightarrow>
     rotation_edge (Some j) (Some (j\<lparr>rj_status := RolledBack, rj_updated_at := u, rj_failure_reason := None\<rparr>))"

inductive_cases rotation_edge_SomeE: "rotation_edge (Some j) x"

definition settled_status :: "rotation_job_status \<Rightarrow> bool" where
  "settled_status s \<longleftrightarrow> s \<in> {Promoted, RolledBack, Failed}"

lemma settled_edge: "rotation_edge (Some j) x \<Longrightarrow> settled_status (rj_status j) \<Longrightarrow> x = Some j"
  by (auto simp: settled_status_def elim!: rotation_edge_SomeE)

lemma edge_fixed:
  "rotation_edge (Some j) x \<Longrightarrow>
     \<exists>j'. x = Some j' \<and> rj_staged_record j' = rj_staged_record j \<and> rj_staged_version j' = rj_staged_version j \<and>
       rj_secret_ref j' = rj_secret_ref j \<and> rj_job_id j' = rj_job_id j"
  by (auto elim!: rotation_edge_SomeE)

definition job_at :: "env \<Rightarrow> 'z world_scheme \<Rightarrow> string \<Rightarrow> rotation_job option" where
  "job_at E w jid = Option.bind (map_of (job_texts w) jid) (parse_as E dec_job)"

definition jobs_ok :: "env \<Rightarrow> 'z world_scheme \<Rightarrow> bool" where
  "jobs_ok E w \<longleftrightarrow> text_table E enc_job (job_domain E) rj_job_id (job_texts w) \<and> ids_past E (tick w) (job_texts w) id"

section \<open>The table of jobs\<close>

lemma job_texts_put:
  "job_texts (w\<lparr>db_jobs := tbl_put key (a, b, s) (db_jobs w)\<rparr>) = tbl_put key s (job_texts w)"
proof -
  have "map (\<lambda>(k, _, _, text). (k, text)) (tbl_put key (a, b, s) tbl)
      = tbl_put key s (map (\<lambda>(k, _, _, text). (k, text)) tbl)" for tbl :: "(string \<times> string \<times> string \<times> string) list"
    by (induction tbl) auto
  then show ?thesis
    by (simp add: job_texts_def)
qed

lemma job_texts_frame [simp]:
  "job_texts (w\<lparr>tick := n\<rparr>) = job_texts w" "job_texts (w\<lparr>db_metadata := x1\<rparr>) = job_texts w"
  "job_texts (w\<lparr>db_secrets := x2\<rparr>) = job_texts w" "job_texts (w\<lparr>db_policies := x3\<rparr>) = job_texts w"
  "job_texts (w\<lparr>db_tickets := x4\<rparr>) = job_texts w" "job_texts (w\<lparr>db_audit := x5\<rparr>) = job_texts w"
  "job_texts (w\<lparr>db_fingerprints := x6\<rparr>) = job_texts w"
  by (simp_all add: job_texts_def)

text \<open>The table as it was, and the table after one write along an edge.\<close>

definition untouched :: "(string \<times> string) list \<Rightarrow> nat \<Rightarrow> 'z world_scheme \<Rightarrow> bool" where
  "untouched c n v \<longleftrightarrow> job_texts v = c \<and> n \<le> tick v"

definition advanced :: "env \<Rightarrow> (string \<times> string) list \<Rightarrow> nat \<Rightarrow> 'z world_scheme \<Rightarrow> bool" where
  "advanced E c n v \<longleftrightarrow> n \<le> tick v \<and>
     (job_texts v = c \<or>
      (\<exists>j. job_texts v = tbl_put (rj_job_id j) (e_json_print E (enc_job j)) c \<and>
        rotation_edge (Option.bind (map_of c (rj_job_id j)) (parse_as E dec_job)) (Some j) \<and>
        (rj_job_id j \<in> fst ` set c \<or> (\<exists>m. rj_job_id j = e_uuid E m \<and> n \<le> m \<and> m < tick v))))"

lemma untouched_indep:
  "tick_free (untouched c n)" "indep_metadata (untouched c n)" "indep_secrets (untouched c n)"
  "indep_policies (untouched c n)" "indep_tickets (untouched c n)" "indep_audit (untouched c n)"
  "indep_fingerprints (untouched c n)"
  by (auto simp: indep_defs untouched_def)

lemma advanced_indep:
  "tick_free (advanced E c n)" "indep_metadata (advanced E c n)" "indep_secrets (advanced E c n)"
  "indep_policies (advanced E c n)" "indep_tickets (advanced E c n)" "indep_audit (advanced E c n)"
  "indep_fingerprints (advanced E c n)"
proof -
  show "tick_free (advanced E c n)"
    unfolding tick_free_def advanced_def by (auto 0 4)
qed (simp_all add: indep_defs advanced_def)

lemma untouched_advanced: "untouched c n v \<Longrightarrow> advanced E c n v"
  by (auto simp: untouched_def advanced_def)

interpretation job_table_frame: audited E k "untouched c n :: world \<Rightarrow> bool" for E k c n
  by unfold_locales (rule untouched_indep(1), rule keeps_append_audit_other [OF untouched_indep(1,6)])

section \<open>Operations that write a job\<close>

abbreviation (input) moves_job :: "env \<Rightarrow> (string \<times> string) list \<Rightarrow> nat \<Rightarrow> ('z world_scheme \<Rightarrow> bool)
    \<Rightarrow> ('z world_scheme, 'a, 'e) act \<Rightarrow> bool" where
  "moves_job E c n P m \<equiv> triple P m (\<lambda>_. advanced E c n) (advanced E c n)"

lemma moves_job_then:
  assumes "keeps (untouched c n) m" and "\<And>x. moves_job E c n (untouched c n) (f x)"
  shows "moves_job E c n (untouched c n) (bnd m f)"
proof (rule triple_bnd [OF _ assms(2)])
  show "triple (untouched c n) m (\<lambda>_. untouched c n) (advanced E c n)"
    using assms(1) untouched_advanced unfolding keeps_def triple_def
    by (fastforce split: prod.splits result.splits)
qed

lemma moves_job_seq:
  "keeps (untouched c n) m \<Longrightarrow> moves_job E c n (untouched c n) f \<Longrightarrow> moves_job E c n (untouched c n) (seq m f)"
  unfolding seq_def by (rule moves_job_then)

lemma moves_job_stop: "keeps (untouched c n) m \<Longrightarrow> moves_job E c n (untouched c n) m"
  using untouched_advanced unfolding keeps_def triple_def by (fastforce split: prod.splits result.splits)

lemma moves_job_saved:
  assumes "keeps (advanced E c n) m"
    and "rotation_edge (Option.bind (map_of c (rj_job_id j)) (parse_as E dec_job)) (Some j)"
    and "\<And>v :: 'z world_scheme. P v \<Longrightarrow> untouched c n v \<and>
      (rj_job_id j \<in> fst ` set c \<or> (\<exists>i. rj_job_id j = e_uuid E i \<and> n \<le> i \<and> i < tick v))"
  shows "moves_job E c n P (seq (on_err VStore (save_rotation_job E j)) m)"
  unfolding triple_def
proof (intro allI impI)
  fix v :: "'z world_scheme" assume "P v"
  note v = assms(3) [OF this]
  have "advanced E c n (snd (save_rotation_job E j v))"
  proof (cases "e_fault E (tick v)")
    case None
    let ?v = "v\<lparr>tick := Suc (tick v)\<rparr>"
    have "snd (save_rotation_job E j v) = ?v\<lparr>db_jobs := tbl_put (rj_job_id j)
        (rj_secret_ref j, job_status_name (rj_status j), e_json_print E (enc_job j)) (db_jobs ?v)\<rparr>"
      using None by (simp add: save_rotation_job_def txn_run update_def)
    then have "job_texts (snd (save_rotation_job E j v)) = tbl_put (rj_job_id j) (e_json_print E (enc_job j)) c"
        "tick (snd (save_rotation_job E j v)) = Suc (tick v)"
      using v job_texts_put [where w = ?v] by (simp_all add: untouched_def)
    then show ?thesis
      using v assms(2,3) unfolding advanced_def untouched_def by (metis le_SucI less_SucI)
  next
    case (Some f)
    then have "snd (save_rotation_job E j v) = v\<lparr>tick := Suc (tick v)\<rparr>"
      by (cases f) (simp_all add: save_rotation_job_def txn_def)
    then show ?thesis
      using v by (simp add: advanced_def untouched_def)
  qed
  then have "advanced E c n (snd (on_err VStore (save_rotation_job E j) v))"
    by (simp add: on_err_map)
  then have "advanced E c n (snd (seq (on_err VStore (save_rotation_job E j)) m v))"
    unfolding seq_def by (rule keeps_bnd_after) (rule assms(1))
  then show "case seq (on_err VStore (save_rotation_job E j)) m v of (Ok x, w') \<Rightarrow> advanced E c n w'
      | (Err e, w') \<Rightarrow> advanced E c n w' | (Panic, w') \<Rightarrow> advanced E c n w'"
    by (auto split: prod.splits result.splits)
qed

lemma moves_job_save:
  assumes "\<And>x. keeps (advanced E c n) (g x)"
    and "\<And>u. rotation_edge (Option.bind (map_of c (rj_job_id j)) (parse_as E dec_job))
      (Some (j\<lparr>rj_status := st, rj_updated_at := u, rj_failure_reason := None\<rparr>))"
    and "rj_job_id j \<in> fst ` set c"
  shows "moves_job E c n (untouched c n)
    (bnd (transition E j st None) (\<lambda>j'. seq (on_err VStore (save_rotation_job E j')) (g j')))"
proof (rule triple_bnd)
  show "triple (untouched c n) (transition E j st None) (\<lambda>j' v. untouched c n v \<and>
      (\<exists>u. j' = j\<lparr>rj_status := st, rj_updated_at := u, rj_failure_reason := None\<rparr>)) (advanced E c n)"
    by (auto simp: triple_def transition_def bnd_def now_def ret_def untouched_def)
  show "moves_job E c n (\<lambda>v. untouched c n v \<and>
      (\<exists>u. j' = j\<lparr>rj_status := st, rj_updated_at := u, rj_failure_reason := None\<rparr>))
      (seq (on_err VStore (save_rotation_job E j')) (g j'))" for j'
  proof (cases "\<exists>u. j' = j\<lparr>rj_status := st, rj_updated_at := u, rj_failure_reason := None\<rparr>")
    case True
    then show ?thesis
      using assms by (intro moves_job_saved) (auto simp: rev_image_eqI)
  qed (simp add: triple_def)
qed

lemma moves_job_load:
  fixes f :: "rotation_job \<Rightarrow> ('z world_scheme, 'b, vault_error) act"
  assumes "text_table E enc_job (job_domain E) rj_job_id c"
    and "\<And>j. Option.bind (map_of c jid) (parse_as E dec_job) = Some j \<Longrightarrow> rj_job_id j = jid \<Longrightarrow> jid \<in> fst ` set c \<Longrightarrow>
      moves_job E c n (untouched c n) (f j)"
  shows "moves_job E c n (untouched c n) (bnd (load_job E jid) f)"
proof (rule triple_bnd)
  have kept: "untouched c n v'" if "untouched c n v" "load_job E jid v = (r, v')" for v v' :: "'z world_scheme" and r
    using keepsD [OF keeps_vault_parts(18) [OF untouched_indep(1)] that] .
  have loaded: "load_text E dec_job c jid = Ok (Some j)"
    if "untouched c n v" "load_job E jid v = (Ok j, v')" for j and v v' :: "'z world_scheme"
    using that by (auto simp: load_job_def bnd_Ok_iff load_rotation_job_def untouched_def)
  show "triple (untouched c n) (load_job E jid :: ('z world_scheme, _, _) act) (\<lambda>j v. untouched c n v \<and> load_text E dec_job c jid = Ok (Some j))
      (advanced E c n)"
    unfolding triple_def
    by (auto split: prod.splits result.splits intro: kept untouched_advanced [OF kept] dest: loaded)
  show "moves_job E c n (\<lambda>v. untouched c n v \<and> load_text E dec_job c jid = Ok (Some j)) (f j)" for j
  proof (cases "load_text E dec_job c jid = Ok (Some j)")
    case True
    then have row: "job_domain E j" "rj_job_id j = jid" "map_of c jid = Some (e_json_print E (enc_job j))"
      using job_table.load_ok(2) [OF assms(1)] by blast+
    then have "jid \<in> fst ` set c"
      by (metis map_of_eq_None_iff option.distinct(1))
    then show ?thesis
      using assms(2) row job_table.reads [OF row(1)] True by (auto simp: triple_def)
  qed (simp add: triple_def)
qed

lemma moves_job_create:
  fixes g :: "rotation_job \<Rightarrow> ('z world_scheme, 'b, vault_error) act"
  assumes "\<And>x. keeps (advanced E c n) (g x)" and "\<forall>m \<ge> n. e_uuid E m \<notin> fst ` set c" and "sr_status rc = Staged"
  shows "moves_job E c n (untouched c n)
    (bnd (create E vid rf ver rc) (\<lambda>j. seq (on_err VStore (save_rotation_job E j)) (g j)))"
proof (rule triple_bnd)
  let ?new = "\<lambda>j v. \<exists>i. rj_job_id j = e_uuid E i \<and> n \<le> i \<and> i < tick v \<and> rj_status j = JobStaged \<and> rj_staged_record j = rc"
  show "triple (untouched c n) (create E vid rf ver rc :: ('z world_scheme, _, _) act)
      (\<lambda>j v. untouched c n v \<and> ?new j v) (advanced E c n)"
    by (auto simp: triple_def create_def bnd_def now_def new_uuid_def ret_def untouched_def Let_def)
  show "moves_job E c n (\<lambda>v. untouched c n v \<and> ?new j v) (seq (on_err VStore (save_rotation_job E j)) (g j))" for j
  proof (cases "\<exists>v :: 'z world_scheme. ?new j v")
    case True
    then obtain i where "rj_job_id j = e_uuid E i" "n \<le> i" and j: "rj_status j = JobStaged" "rj_staged_record j = rc"
      by blast
    then have "map_of c (rj_job_id j) = None"
      using assms(2) unfolding map_of_eq_None_iff by simp
    then have edge: "rotation_edge (Option.bind (map_of c (rj_job_id j)) (parse_as E dec_job)) (Some j)"
      using j assms(3) by (simp add: rotation_edge.starts)
    show ?thesis
      by (rule moves_job_saved [OF assms(1) edge]) blast
  next
    case False
    then show ?thesis
      unfolding triple_def by blast
  qed
qed

lemmas untouched_rules = frame_intro frame_writes untouched_indep
lemmas advanced_rules = frame_intro frame_writes advanced_indep

lemma start_moves:
  assumes "\<forall>m \<ge> n. e_uuid E m \<notin> fst ` set c"
  shows "moves_job E c n (untouched c n) (start_rotation E rf pt p ty)"
  unfolding start_rotation_def Let_def split_def
  by (intro moves_job_then moves_job_create assms untouched_rules) (auto intro!: advanced_rules)

lemma moves_job_guard:
  "(b \<Longrightarrow> moves_job E c n (untouched c n) m) \<Longrightarrow> moves_job E c n (untouched c n) (if \<not> b then fail e else m)"
  by (simp add: moves_job_stop keeps_fail)

lemma job_op_moves:
  assumes "text_table E enc_job (job_domain E) rj_job_id c"
  shows "moves_job E c n (untouched c n) (verify_rotation E jid p)"
    and "moves_job E c n (untouched c n) (promote_rotation E jid p)"
    and "moves_job E c n (untouched c n) (rollback_rotation E jid p)"
proof -
  note moves = moves_job_then moves_job_seq moves_job_save moves_job_guard untouched_rules
  show "moves_job E c n (untouched c n) (verify_rotation E jid p)"
    unfolding verify_rotation_def split_def
    by (intro moves_job_load assms moves) (auto intro!: advanced_rules rotation_edge.verifies)
  show "moves_job E c n (untouched c n) (promote_rotation E jid p)"
    unfolding promote_rotation_def split_def Let_def
    by (intro moves_job_load assms moves) (auto intro!: advanced_rules rotation_edge.promotes)
  show "moves_job E c n (untouched c n) (rollback_rotation E jid p)"
    unfolding rollback_rotation_def split_def de_Morgan_disj [symmetric]
    by (intro moves_job_load assms moves) (auto intro!: advanced_rules rotation_edge.rolls_back)
qed

section \<open>Every step of the vault\<close>

lemma step_advances:
  assumes "vault_step E pw w w'" and "opens_to E pw k w"
    and "text_table E enc_job (job_domain E) rj_job_id (job_texts w)"
    and "\<forall>m \<ge> tick w. e_uuid E m \<notin> fst ` set (job_texts w)"
  shows "advanced E (job_texts w) (tick w) w'"
proof -
  let ?c = "job_texts w" and ?n = "tick w"
  have here: "untouched ?c ?n w"
    by (simp add: untouched_def)
  have moved: "advanced E ?c ?n (snd (m w))" if "moves_job E ?c ?n (untouched ?c ?n) m" for m :: "(world, 'x, 'y) act"
    using that here unfolding triple_def by (cases "m w"; cases "fst (m w)") auto
  note frame = job_table_frame.reads job_table_frame.provider_ops job_table_frame.config_op job_table_frame.secret_ops
    job_table_frame.policy_op job_table_frame.ticket_ops
  show ?thesis
    using assms(1,2)
    by (cases rule: vault_step.cases)
      (auto intro!: moved [OF start_moves [OF assms(4)]] moved [OF job_op_moves(1) [OF assms(3)]]
        moved [OF job_op_moves(2) [OF assms(3)]] moved [OF job_op_moves(3) [OF assms(3)]]
        frame [OF here, THEN untouched_advanced] frame_writes untouched_indep)
qed

lemma one_job_put:
  assumes "text_table E enc_job (job_domain E) rj_job_id c" and "ids_past E n c id" and "json_text_ok E" and "n \<le> n'"
    and "rj_job_id j \<in> fst ` set c \<or> (\<exists>m. rj_job_id j = e_uuid E m \<and> m < n')"
  defines "c' \<equiv> tbl_put (rj_job_id j) (e_json_print E (enc_job j)) c"
  shows "text_table E enc_job (job_domain E) rj_job_id c'" and "ids_past E n' c' id"
    and "Option.bind (map_of c' jid) (parse_as E dec_job)
      = (if jid = rj_job_id j then Some j else Option.bind (map_of c jid) (parse_as E dec_job))"
proof -
  have dom: "job_domain E j"
    using assms(3) by (simp add: job_domain_def)
  show "text_table E enc_job (job_domain E) rj_job_id c'"
    unfolding c'_def by (rule job_table.put_ok [OF assms(1) dom])
  have past: "\<exists>m < n'. x = e_uuid E m" if "x \<in> fst ` set c" for x
    using ids_past_mono [OF assms(2,4)] that by (auto simp: ids_past_def)
  have keys: "fst ` set c' = insert (rj_job_id j) (fst ` set c)"
    by (simp add: c'_def)
  have "\<exists>m < n'. id (fst row) = e_uuid E m" if "row \<in> set c'" for row
  proof (cases "fst row \<in> fst ` set c")
    case False
    then have "fst row = rj_job_id j"
      using keys that by (metis image_eqI insertE)
    then show ?thesis
      using assms(5) past by auto
  qed (simp add: past)
  then show "ids_past E n' c' id"
    by (simp add: ids_past_def)
  show "Option.bind (map_of c' jid) (parse_as E dec_job)
      = (if jid = rj_job_id j then Some j else Option.bind (map_of c jid) (parse_as E dec_job))"
    using job_table.reads [OF dom] by (simp add: c'_def)
qed

lemma advanced_edges:
  assumes "advanced E (job_texts w) (tick w) w'" and "jobs_ok E w" and "json_text_ok E"
  shows "jobs_ok E w'" and "rotation_edge (job_at E w jid) (job_at E w' jid)"
proof -
  let ?c = "job_texts w"
  have tick: "tick w \<le> tick w'"
    using assms(1) by (simp add: advanced_def)
  have table: "text_table E enc_job (job_domain E) rj_job_id ?c" "ids_past E (tick w) ?c id"
    using assms(2) unfolding jobs_ok_def by blast+
  consider "job_texts w' = ?c" | j where "job_texts w' = tbl_put (rj_job_id j) (e_json_print E (enc_job j)) ?c"
      "rotation_edge (Option.bind (map_of ?c (rj_job_id j)) (parse_as E dec_job)) (Some j)"
      "rj_job_id j \<in> fst ` set ?c \<or> (\<exists>m. rj_job_id j = e_uuid E m \<and> m < tick w')"
    using assms(1) unfolding advanced_def by blast
  then have "jobs_ok E w' \<and> rotation_edge (job_at E w jid) (job_at E w' jid)"
  proof cases
    case 1
    then show ?thesis
      using table ids_past_mono [OF table(2) tick] rotation_edge.stays unfolding jobs_ok_def job_at_def by metis
  next
    case 2
    note put = one_job_put [OF table assms(3) tick 2(3)]
    have "rotation_edge (job_at E w jid) (job_at E w' jid)"
      using 2(2) rotation_edge.stays unfolding job_at_def 2(1) put(3) by (cases "jid = rj_job_id j") simp_all
    then show ?thesis
      using put(1,2) unfolding jobs_ok_def 2(1) by blast
  qed
  then show "jobs_ok E w'" "rotation_edge (job_at E w jid) (job_at E w' jid)"
    by simp_all
qed

section \<open>A rotation that goes through\<close>

text \<open>A job that carries a version of a secret, and its row.\<close>

definition carries :: "env \<Rightarrow> key_hierarchy \<Rightarrow> string \<Rightarrow> u64 \<Rightarrow> bytes \<Rightarrow> rotation_job \<Rightarrow> bool" where
  "carries E keys rf v pt j \<longleftrightarrow> rj_secret_ref j = rf \<and> rj_staged_version j = v \<and> fits v \<and>
     sr_secret_ref (rj_staged_record j) = rf \<and> sr_secret_version (rj_staged_record j) = v \<and>
     holds E keys (rj_staged_record j) pt"

definition job_stored :: "env \<Rightarrow> 'z world_scheme \<Rightarrow> rotation_job \<Rightarrow> bool" where
  "job_stored E w j \<longleftrightarrow> load_text E dec_job (job_texts w) (rj_job_id j) = Ok (Some j)"

lemma holds_status [simp]: "holds E keys (rc\<lparr>sr_status := st\<rparr>) pt = holds E keys rc pt"
  by (simp add: holds_def aad_of_def wrap_aad_of_def kek_of_def secret_nonce_bytes_def dek_nonce_bytes_def
      ciphertext_bytes_def wrapped_dek_bytes_def)

lemma good_jobs: "good E p h keys w \<Longrightarrow> good E p h keys (w\<lparr>db_jobs := x\<rparr>)"
  by (simp add: good_def)

text \<open>Saving a job and recording it, the end of every operation on one.\<close>

lemma save_job_run:
  assumes "sound_env E" and "good E p h keys w" and "clean fs"
  shows "\<exists>w'. seq (on_err VStore (save_rotation_job E j)) (seq (append_audit E h keys ty sev dec (meta fs)) (ret j)) w
      = (Ok j, w') \<and> good E p h keys w' \<and> job_stored E w' j \<and> db_secrets w' = db_secrets w"
proof -
  note sound = sound_envD [OF assms(1)]
  let ?v = "w\<lparr>tick := Suc (tick w)\<rparr>"
  let ?w1 = "?v\<lparr>db_jobs := tbl_put (rj_job_id j)
    (rj_secret_ref j, job_status_name (rj_status j), e_json_print E (enc_job j)) (db_jobs ?v)\<rparr>"
  have saved: "on_err VStore (save_rotation_job E j) w = (Ok (), ?w1)"
    using sound(8) by (simp add: save_rotation_job_def)
  have "good E p h keys ?w1"
    by (rule good_jobs [OF good_tick [OF assms(2)]]) simp
  then obtain ev rows where audit: "append_audit E h keys ty sev dec (meta fs) ?w1
      = (Ok ev, ?w1\<lparr>tick := tick ?w1 + 4, db_audit := rows\<rparr>)"
      "good E p h keys (?w1\<lparr>tick := tick ?w1 + 4, db_audit := rows\<rparr>)"
    using good_audit [OF assms(1) _ assms(3)] by blast
  have "job_stored E (?w1\<lparr>tick := tick ?w1 + 4, db_audit := rows\<rparr>) j"
    using job_table.load_put [of E j "job_texts w"] sound(1) job_texts_put [where w = w]
    by (simp add: job_stored_def job_domain_def)
  moreover have "seq (on_err VStore (save_rotation_job E j)) (seq (append_audit E h keys ty sev dec (meta fs)) (ret j)) w
      = (Ok j, ?w1\<lparr>tick := tick ?w1 + 4, db_audit := rows\<rparr>)"
    unfolding seq_step [where m = "on_err VStore (save_rotation_job E j)", OF saved]
      seq_step [where m = "append_audit E h keys ty sev dec (meta fs)", OF audit(1)] by (simp add: ret_def)
  ultimately show ?thesis
    using audit(2) by (intro exI [of _ "?w1\<lparr>tick := tick ?w1 + 4, db_audit := rows\<rparr>"]) simp
qed

lemma load_job_run:
  assumes "sound_env E" and "job_stored E w j"
  shows "load_job E (rj_job_id j) w = (Ok j, w\<lparr>tick := Suc (tick w)\<rparr>)"
  using assms(2) sound_envD(8) [OF assms(1)]
  by (simp add: load_job_def bnd_Ok_iff load_rotation_job_def job_stored_def)

lemma job_stored_tick [simp]: "job_stored E (w\<lparr>tick := n\<rparr>) j = job_stored E w j"
  by (simp add: job_stored_def)

lemma transition_run:
  "\<exists>u. transition E j st None w = (Ok (j\<lparr>rj_status := st, rj_updated_at := u, rj_failure_reason := None\<rparr>)
     :: (_, vault_error) result, w\<lparr>tick := Suc (tick w)\<rparr>)"
  by (simp add: transition_def bnd_def now_def ret_def) blast

lemma start_rotation_run:
  assumes "sound_env E" and "good E p h keys w" and "starts_with rf ''secret://''"
    and "fits (opt_or (max_version w rf) 0 + 1)" and "length pt < 2 ^ 36"
  shows "\<exists>j w'. start_rotation E rf pt p ty w = (Ok j, w') \<and> good E p h keys w' \<and> rj_status j = JobStaged \<and>
    job_stored E w' j \<and> db_secrets w' = db_secrets w \<and> carries E keys rf (opt_or (max_version w rf) 0 + 1) pt j"
proof -
  let ?v = "opt_or (max_version w rf) 0 + 1"
  note sound = sound_envD [OF assms(1)]
  obtain sid where sid: "secret_id_from_ref E rf = Ok sid"
    using assms(3) by (simp add: secret_id_from_ref_def)
  let ?w2 = "w\<lparr>tick := tick w + 2\<rparr>" and ?w6 = "w\<lparr>tick := tick w + 6\<rparr>" and ?w8 = "w\<lparr>tick := tick w + 8\<rparr>"
  obtain rc where enc: "encrypt_secret E keys (vh_namespace_id h) sid rf ?v pt ty vault_policy_id
      vault_policy_hash (hash_bytes E (as_bytes rf)) vault_provider_policy_hash ?w2
        = (Ok rc :: (_, vault_error) result, ?w2\<lparr>tick := tick ?w2 + 4\<rparr>)"
    using encrypt_secret_total [OF sound(5,4,2) assms(5)] by blast
  note rec = encrypt_secret_Ok [OF sound(5,4,3) enc]
  have "latest_version E rf (w\<lparr>tick := Suc (tick w)\<rparr>) = (Ok (max_version w rf), ?w2)"
    using sound(8) by (simp add: latest_version_def txn_run query_def max_version_def versions_def)
  then have nv: "next_version E rf (w\<lparr>tick := Suc (tick w)\<rparr>) = (Ok ?v, ?w2)"
    by (simp add: next_version_def bnd_Ok_iff)
  have encrypted: "vault_encrypt E h keys rf ?v pt ty ?w2 = (Ok rc, ?w6)"
    using enc by (simp add: vault_encrypt_def sid add.commute)
  obtain j where made: "create E (vh_vault_id h) rf ?v (rc\<lparr>sr_status := Staged\<rparr>) ?w6 = (Ok j :: (_, vault_error) result, ?w8)"
      and j: "rj_status j = JobStaged" "rj_secret_ref j = rf" "rj_staged_version j = ?v"
        "rj_staged_record j = rc\<lparr>sr_status := Staged\<rparr>"
    by (simp add: create_def bnd_def now_def new_uuid_def ret_def Let_def)
  obtain w' where saved: "seq (on_err VStore (save_rotation_job E j)) (seq (append_audit E h keys ''rotation.started'' ''info'' ''allow''
      (meta [(''job_id'', JStr (rj_job_id j)), (''secret_ref'', JStr rf), (''staged_version'', enc_u64 ?v)])) (ret j)) ?w8
        = (Ok j, w')" "good E p h keys w'" "job_stored E w' j" "db_secrets w' = db_secrets ?w8"
    using save_job_run [OF assms(1) good_tick [OF assms(2), of "tick w + 8"],
        of "[(''job_id'', JStr (rj_job_id j)), (''secret_ref'', JStr rf), (''staged_version'', enc_u64 ?v)]"]
    by simp blast
  have "start_rotation E rf pt p ty w = (Ok j, w')"
    unfolding start_rotation_def bnd_step [where m = "unlock E (Some p)", OF good_unlock [OF assms(1,2)]] Let_def
      case_prod_conv bnd_step [where m = "next_version E rf", OF nv]
      bnd_step [where m = "vault_encrypt E h keys rf ?v pt ty", OF encrypted]
      bnd_step [where m = "create E (vh_vault_id h) rf ?v (rc\<lparr>sr_status := Staged\<rparr>)", OF made] saved(1) ..
  moreover have "carries E keys rf ?v pt j"
    using j rec(1,4) assms(4) by (simp add: carries_def identity_is_def)
  ultimately show ?thesis
    using saved(2-4) j(1) by auto
qed

lemma verify_rotation_run:
  assumes "sound_env E" and "good E p h keys w" and "job_stored E w j" and "rj_status j = JobStaged"
    and "carries E keys rf v pt j"
  shows "\<exists>j' w'. verify_rotation E (rj_job_id j) p w = (Ok j', w') \<and> good E p h keys w' \<and> rj_status j' = Verified \<and>
    rj_job_id j' = rj_job_id j \<and> job_stored E w' j' \<and> db_secrets w' = db_secrets w \<and> carries E keys rf v pt j'"
proof -
  note sound = sound_envD [OF assms(1)]
  let ?w1 = "w\<lparr>tick := Suc (tick w)\<rparr>" and ?w2 = "w\<lparr>tick := tick w + 2\<rparr>" and ?w3 = "w\<lparr>tick := tick w + 3\<rparr>"
  have load: "load_job E (rj_job_id j) ?w1 = (Ok j, ?w2)"
    using load_job_run [OF assms(1), of ?w1 j] assms(3) by simp
  have dec: "decrypt_secret E keys (rj_staged_record j) = Ok pt"
    using decrypt_holds [OF sound(2,5)] assms(5) by (simp add: carries_def)
  obtain u where tr: "transition E j Verified None ?w2
      = (Ok (j\<lparr>rj_status := Verified, rj_updated_at := u, rj_failure_reason := None\<rparr>) :: (_, vault_error) result, ?w3)"
    using transition_run [of E j Verified ?w2] by (auto simp: numeral_3_eq_3)
  let ?j = "j\<lparr>rj_status := Verified, rj_updated_at := u, rj_failure_reason := None\<rparr>"
  obtain w' where saved: "seq (on_err VStore (save_rotation_job E ?j)) (seq (append_audit E h keys ''rotation.verified'' ''info'' ''allow''
      (meta [(''job_id'', JStr (rj_job_id j)), (''secret_ref'', JStr (rj_secret_ref ?j))])) (ret ?j)) ?w3 = (Ok ?j, w')"
      "good E p h keys w'" "job_stored E w' ?j" "db_secrets w' = db_secrets ?w3"
    using save_job_run [OF assms(1) good_tick [OF assms(2), of "tick w + 3"],
        of "[(''job_id'', JStr (rj_job_id j)), (''secret_ref'', JStr (rj_secret_ref ?j))]"] by simp blast
  have "verify_rotation E (rj_job_id j) p w = (Ok ?j, w')"
    unfolding verify_rotation_def bnd_step [where m = "unlock E (Some p)", OF good_unlock [OF assms(1,2)]] case_prod_conv
      bnd_step [where m = "load_job E (rj_job_id j)", OF load] dec map_err_simps assms(4) if_neq_self
      seq_def [of "lift_r (Ok pt)"] lift_r_run
      bnd_step [where m = "transition E j Verified None", OF tr] saved(1) ..
  then show ?thesis
    using saved(2-4) assms(5) by (intro exI [of _ ?j] exI [of _ w']) (simp add: carries_def)
qed

lemma rollback_rotation_run:
  assumes "sound_env E" and "good E p h keys w" and "job_stored E w j" and "rj_status j \<in> {JobStaged, Verified}"
  shows "\<exists>j' w'. rollback_rotation E (rj_job_id j) p w = (Ok j', w') \<and> good E p h keys w' \<and> rj_status j' = RolledBack \<and>
    db_secrets w' = db_secrets w"
proof -
  let ?w1 = "w\<lparr>tick := Suc (tick w)\<rparr>" and ?w2 = "w\<lparr>tick := tick w + 2\<rparr>" and ?w3 = "w\<lparr>tick := tick w + 3\<rparr>"
  have load: "load_job E (rj_job_id j) ?w1 = (Ok j, ?w2)"
    using load_job_run [OF assms(1), of ?w1 j] assms(3) by simp
  obtain u where tr: "transition E j RolledBack None ?w2
      = (Ok (j\<lparr>rj_status := RolledBack, rj_updated_at := u, rj_failure_reason := None\<rparr>) :: (_, vault_error) result, ?w3)"
    using transition_run [of E j RolledBack ?w2] by (auto simp: numeral_3_eq_3)
  let ?j = "j\<lparr>rj_status := RolledBack, rj_updated_at := u, rj_failure_reason := None\<rparr>"
  obtain w' where saved: "seq (on_err VStore (save_rotation_job E ?j)) (seq (append_audit E h keys ''rotation.rolled_back'' ''critical'' ''allow''
      (meta [(''job_id'', JStr (rj_job_id j)), (''secret_ref'', JStr (rj_secret_ref ?j))])) (ret ?j)) ?w3 = (Ok ?j, w')"
      "good E p h keys w'" "job_stored E w' ?j" "db_secrets w' = db_secrets ?w3"
    using save_job_run [OF assms(1) good_tick [OF assms(2), of "tick w + 3"],
        of "[(''job_id'', JStr (rj_job_id j)), (''secret_ref'', JStr (rj_secret_ref ?j))]"] by simp blast
  have open_job: "\<not> (rj_status j \<noteq> JobStaged \<and> rj_status j \<noteq> Verified)"
    using assms(4) by blast
  have "rollback_rotation E (rj_job_id j) p w = (Ok ?j, w')"
    unfolding rollback_rotation_def bnd_step [where m = "unlock E (Some p)", OF good_unlock [OF assms(1,2)]] case_prod_conv
      bnd_step [where m = "load_job E (rj_job_id j)", OF load] if_not_P [OF open_job]
      bnd_step [where m = "transition E j RolledBack None", OF tr] saved(1) ..
  then show ?thesis
    using saved(2-4) by (intro exI [of _ ?j] exI [of _ w']) simp
qed

lemma promote_rotation_run:
  assumes "sound_env E" and "good E p h keys w" and "job_stored E w j" and "rj_status j = Verified"
    and "carries E keys rf v pt j" and "\<forall>u. max_version w rf = Some u \<longrightarrow> u \<le> v"
  shows "\<exists>j' w' rc. promote_rotation E (rj_job_id j) p w = (Ok j', w') \<and> good E p h keys w' \<and> rj_status j' = Promoted \<and>
    job_stored E w' j' \<and> current E keys w' rf v rc pt \<and>
    (\<forall>rf' u. (rf', u) \<noteq> (rf, v) \<longrightarrow> secret_at E w' rf' u = secret_at E w rf' u)"
proof -
  note sound = sound_envD [OF assms(1)]
  let ?w1 = "w\<lparr>tick := Suc (tick w)\<rparr>" and ?w2 = "w\<lparr>tick := tick w + 2\<rparr>"
  let ?rc = "(rj_staged_record j)\<lparr>sr_status := Active\<rparr>"
  have rc: "sr_secret_ref ?rc = rf" "sr_secret_version ?rc = v" "fits v" "holds E keys ?rc pt"
      "rj_secret_ref j = rf" "rj_staged_version j = v"
    using assms(5) by (simp_all add: carries_def)
  let ?tbl = "tbl_put (rf, v) (row_of E ?rc) (db_secrets w)"
  let ?fp = "redaction_fingerprint E (kdf E (kh_root_key keys) (vault_label keys ''redaction-fingerprint'')) pt"
  let ?w3 = "w\<lparr>tick := tick w + 3, db_secrets := ?tbl\<rparr>"
  let ?w4 = "w\<lparr>tick := tick w + 4, db_secrets := ?tbl, db_fingerprints := tbl_put (rf, v) ?fp (db_fingerprints w)\<rparr>"
  let ?w5 = "?w4\<lparr>tick := tick w + 5\<rparr>"
  have load: "load_job E (rj_job_id j) ?w1 = (Ok j, ?w2)"
    using load_job_run [OF assms(1), of ?w1 j] assms(3) by simp
  have dec: "decrypt_secret E keys (rj_staged_record j) = Ok pt"
    using decrypt_holds [OF sound(2,5)] assms(5) by (simp add: carries_def)
  have row: "map_of (db_metadata w) header_key \<noteq> None" and secs: "secrets_ok E (db_secrets w)"
    using assms(2) by (auto simp: good_def)
  have saved: "on_err VStore (save_secret_record E ?rc) ?w2 = (Ok (), ?w3)"
    using sound(8) row rc by (simp add: save_secret_record_Ok_iff)
  have fp: "on_err VStore (save_redaction_fingerprint E rf v ?fp) ?w3 = (Ok (), ?w4)"
    using sound(8) rc(3) by (simp add: save_redaction_fingerprint_def)
  obtain u where tr: "transition E j Promoted None ?w4
      = (Ok (j\<lparr>rj_status := Promoted, rj_updated_at := u, rj_failure_reason := None\<rparr>) :: (_, vault_error) result, ?w5)"
    using transition_run [of E j Promoted ?w4] by auto
  let ?j = "j\<lparr>rj_status := Promoted, rj_updated_at := u, rj_failure_reason := None\<rparr>"
  have good5: "good E p h keys ?w5"
    using good_tick [OF assms(2), of "tick w + 5"] secrets_ok_put [OF secs, of ?rc] rc by (simp add: good_def)
  obtain w' where done_run: "seq (on_err VStore (save_rotation_job E ?j)) (seq (append_audit E h keys ''rotation.promoted'' ''high'' ''allow''
      (meta [(''job_id'', JStr (rj_job_id j)), (''secret_ref'', JStr (rj_secret_ref ?j)),
        (''version'', enc_u64 (rj_staged_version ?j))])) (ret ?j)) ?w5 = (Ok ?j, w')"
      "good E p h keys w'" "job_stored E w' ?j" "db_secrets w' = db_secrets ?w5"
    using save_job_run [OF assms(1) good5,
        of "[(''job_id'', JStr (rj_job_id j)), (''secret_ref'', JStr (rj_secret_ref ?j)), (''version'', enc_u64 (rj_staged_version ?j))]"]
    by simp blast
  have "promote_rotation E (rj_job_id j) p w = (Ok ?j, w')"
    unfolding promote_rotation_def bnd_step [where m = "unlock E (Some p)", OF good_unlock [OF assms(1,2)]] case_prod_conv
      bnd_step [where m = "load_job E (rj_job_id j)", OF load] dec map_err_simps assms(4) if_neq_self lift_r_run Let_def
      seq_step [where m = "on_err VStore (save_secret_record E ?rc)", OF saved] good_keys(3) [OF assms(1)] rc(5,6)
      seq_step [where m = "on_err VStore (save_redaction_fingerprint E rf v ?fp)", OF fp]
      bnd_step [where m = "transition E j Promoted None", OF tr]
    using done_run(1) rc(5,6) by simp
  moreover have "max_version w' rf = Some v"
  proof -
    have "max_version w' rf = max_version (w\<lparr>db_secrets := ?tbl\<rparr>) rf"
      using done_run(4) by (simp add: max_version_def versions_def)
    then show ?thesis
      using max_version_put [OF assms(6)] by simp
  qed
  moreover have "secret_at E w' rf v = Some ?rc"
    using done_run(4) by (simp add: secret_at_def secret_row_reads sound(1))
  moreover have "secret_at E w' rf' u = secret_at E w rf' u" if "(rf', u) \<noteq> (rf, v)" for rf' u
    using that done_run(4) by (auto simp: secret_at_def)
  ultimately show ?thesis
    using done_run(2,3) rc(2) decrypt_holds [OF sound(2,5) rc(4)]
    by (intro exI [of _ ?j] exI [of _ w'] exI [of _ ?rc]) (simp add: current_def)
qed

section \<open>The life of a rotation\<close>

lemma run_advances:
  assumes "vault_run E k w w'" and "json_text_ok E" and "fresh_ok E" and "jobs_ok E w"
  shows "jobs_ok E w' \<and> (\<forall>jid. rotation_edge\<^sup>*\<^sup>* (job_at E w jid) (job_at E w' jid))"
  using assms(1,4)
proof (induction rule: vault_run.induct)
  case init
  then show ?case
    by simp
next
  case (more v pw v')
  then have ok: "jobs_ok E v" and before: "rotation_edge\<^sup>*\<^sup>* (job_at E w jid) (job_at E v jid)" for jid
    by blast+
  then have table: "text_table E enc_job (job_domain E) rj_job_id (job_texts v)" "ids_past E (tick v) (job_texts v) id"
    unfolding jobs_ok_def by blast+
  have "advanced E (job_texts v) (tick v) v'"
    using step_advances [OF more.hyps(3,2) table(1)] ids_past_fresh [OF assms(3) table(2)] by blast
  note edges = advanced_edges [OF this ok assms(2)]
  show ?case
    using edges(1) rtranclp.rtrancl_into_rtrancl [OF before edges(2)] by blast
qed

lemma edges_fixed:
  assumes "rotation_edge\<^sup>*\<^sup>* x y" and "x = Some j"
  shows "\<exists>j'. y = Some j' \<and> rj_staged_record j' = rj_staged_record j \<and> rj_staged_version j' = rj_staged_version j \<and>
    rj_secret_ref j' = rj_secret_ref j \<and> (settled_status (rj_status j) \<longrightarrow> j' = j)"
  using assms
proof (induction rule: rtranclp_induct)
  case (step y z)
  then obtain j' where j': "y = Some j'" "rj_staged_record j' = rj_staged_record j"
      "rj_staged_version j' = rj_staged_version j" "rj_secret_ref j' = rj_secret_ref j"
      "settled_status (rj_status j) \<longrightarrow> j' = j"
    by blast
  then show ?case
    using edge_fixed [of j' z] settled_edge [of j' z] step.hyps(2) by auto
qed simp

text \<open>
  C5: through any run of vault operations, each refused, cut short by a fault or successful, every stored
  rotation job only moves along its life cycle: it starts staged, is verified from staged, promoted from
  verified, rolled back from staged or verified. What it staged stays as it was, and a job that was
  promoted or rolled back never changes again.
\<close>

theorem rotation_refines_lifecycle:
  assumes "json_text_ok E" and "fresh_ok E" and "jobs_ok E w" and "vault_run E k w w'"
  shows "jobs_ok E w' \<and> (\<forall>jid. rotation_edge\<^sup>*\<^sup>* (job_at E w jid) (job_at E w' jid)) \<and>
    (\<forall>jid j. job_at E w jid = Some j \<longrightarrow>
      (\<exists>j'. job_at E w' jid = Some j' \<and> rj_staged_record j' = rj_staged_record j \<and>
        rj_staged_version j' = rj_staged_version j \<and> rj_secret_ref j' = rj_secret_ref j \<and>
        (settled_status (rj_status j) \<longrightarrow> j' = j)))"
  using run_advances [OF assms(4,1-3)] edges_fixed by blast

text \<open>
  C13: a rotation started with a new value for a secret can be verified, and until it is promoted every
  secret is stored as before. Promoting it makes the new value the one that is read and leaves every
  other version of every secret alone; rolling it back instead leaves all secrets as they were.
\<close>

theorem rotation_delivers:
  fixes w :: "'z world_scheme"
  assumes "sound_env E" and "good E p h keys w" and "starts_with rf ''secret://''"
    and "fits (opt_or (max_version w rf) 0 + 1)" and "length pt < 2 ^ 36"
  shows "\<exists>j w1 j2 w2. start_rotation E rf pt p ty w = (Ok j, w1) \<and>
    verify_rotation E (rj_job_id j) p w1 = (Ok j2, w2) \<and> db_secrets w1 = db_secrets w \<and> db_secrets w2 = db_secrets w \<and>
    (\<exists>j3 w3 w4. promote_rotation E (rj_job_id j) p w2 = (Ok j3, w3) \<and> get_secret E rf p w3 = (Ok pt, w4) \<and>
      (\<forall>rf' u. (rf', u) \<noteq> (rf, rj_staged_version j) \<longrightarrow> secret_at E w3 rf' u = secret_at E w rf' u)) \<and>
    (\<exists>j3 w3. rollback_rotation E (rj_job_id j) p w2 = (Ok j3, w3) \<and> db_secrets w3 = db_secrets w)"
proof -
  let ?v = "opt_or (max_version w rf) 0 + 1"
  obtain j w1 where start: "start_rotation E rf pt p ty w = (Ok j, w1)" "good E p h keys w1" "rj_status j = JobStaged"
      "job_stored E w1 j" "db_secrets w1 = db_secrets w" "carries E keys rf ?v pt j"
    using start_rotation_run [OF assms] by blast
  obtain j2 w2 where verify: "verify_rotation E (rj_job_id j) p w1 = (Ok j2, w2)" "good E p h keys w2"
      "rj_status j2 = Verified" "rj_job_id j2 = rj_job_id j" "job_stored E w2 j2" "db_secrets w2 = db_secrets w1"
      "carries E keys rf ?v pt j2"
    using verify_rotation_run [OF assms(1) start(2,4,3,6)] by blast
  have at: "max_version w2 = max_version w" "secret_at E w2 = secret_at E w"
    using verify(6) start(5) by (simp_all add: max_version_def versions_def secret_at_def fun_eq_iff)
  have newest: "\<forall>u. max_version w2 rf = Some u \<longrightarrow> u \<le> ?v"
    using next_version_past(2) [of E w rf] assms(2) unfolding at good_def by simp
  obtain j3 w3 rc where promote: "promote_rotation E (rj_job_id j2) p w2 = (Ok j3, w3)" "good E p h keys w3"
      "current E keys w3 rf ?v rc pt"
      "\<forall>rf' u. (rf', u) \<noteq> (rf, ?v) \<longrightarrow> secret_at E w3 rf' u = secret_at E w2 rf' u"
    using promote_rotation_run [OF assms(1) verify(2,5,3,7) newest] by blast
  obtain w4 where "get_secret E rf p w3 = (Ok pt, w4)"
    using get_secret_run [OF assms(1) promote(2,3)] by blast
  moreover obtain j5 w5 where "rollback_rotation E (rj_job_id j2) p w2 = (Ok j5, w5)" "db_secrets w5 = db_secrets w2"
    using rollback_rotation_run [OF assms(1) verify(2,5)] verify(3) by blast
  moreover have "rj_staged_version j = ?v"
    using start(6) by (simp add: carries_def)
  ultimately show ?thesis
    using start(1,5) verify(1,4,6) promote(1,4) unfolding at by metis
qed

section \<open>Examples\<close>

lemma sample_vault_jobs:
  "\<exists>h keys k w. good sample_env ''pw'' h keys (w :: world) \<and> opens_to sample_env (Some ''pw'') k w \<and>
     log_verifies sample_env k w \<and> db_jobs w = [] \<and> db_fingerprints w = [] \<and> max_version w ''secret://app/db'' = None"
proof -
  obtain h keys m a ps k where w: "let w = blank_world\<lparr>tick := 10, db_metadata := m, db_policies := ps, db_audit := a\<rparr> in
     good sample_env ''pw'' h keys w \<and> policies_in sample_env w [sample_policy] \<and>
     map_of m plaintext_export_config_key = None \<and>
     opens_to sample_env (Some ''pw'') k w \<and> log_verifies sample_env k w"
    using sample_vault_on [OF blank_world sample_policy_domain] by (elim exE) (rule that)
  let ?w = "blank_world\<lparr>tick := 10, db_metadata := m, db_policies := ps, db_audit := a\<rparr>"
  have "db_jobs ?w = []" "db_fingerprints ?w = []" "max_version ?w ''secret://app/db'' = None"
    by (simp_all add: max_version_def versions_def blank_world_def)
  then show ?thesis
    using w unfolding Let_def by (intro exI [of _ h] exI [of _ keys] exI [of _ k] exI [of _ ?w]) simp
qed

lemma job_stored_at:
  "jobs_ok E w \<Longrightarrow> job_stored E w j \<Longrightarrow> job_at E w (rj_job_id j) = Some j"
  unfolding jobs_ok_def job_stored_def job_at_def
  using job_table.load_ok(2) job_table.reads by (metis bind.bind_lunit)

lemma sample_rotation_run:
  "\<exists>k (w :: world) w' j. vault_run sample_env k w w' \<and> job_stored sample_env w' j \<and> opens_to sample_env (Some ''pw'') k w \<and>
     (\<exists>h keys. good sample_env ''pw'' h keys w) \<and> log_verifies sample_env k w \<and> db_jobs w = [] \<and> db_fingerprints w = []"
proof -
  obtain h keys k and w :: world where w: "good sample_env ''pw'' h keys w" "opens_to sample_env (Some ''pw'') k w"
      "log_verifies sample_env k w" "db_jobs w = []" "db_fingerprints w = []" "max_version w ''secret://app/db'' = None"
    using sample_vault_jobs by (elim exE conjE) (rule that)
  from start_rotation_run [OF sample_sound w(1) sample_request_facts(3) first_version_fits [OF w(6)]
      sample_request_facts(4), of ApiKey]
  obtain j w' where start: "start_rotation sample_env ''secret://app/db'' [1, 2] ''pw'' ApiKey w = (Ok j, w')"
      "job_stored sample_env w' j"
    by (elim exE conjE) (rule that)
  have "vault_step sample_env (Some ''pw'') w w'"
    using vault_step.start [of sample_env "''pw''" w "''secret://app/db''" "[1, 2]" ApiKey] start(1) by simp
  then have "vault_run sample_env k w w'"
    by (rule vault_run.more [OF vault_run.init w(2)])
  then show ?thesis
    using w start(2) by blast
qed

lemma rotation_refines_lifecycle_witness:
  "\<exists>k (w :: world) w' j. vault_run sample_env k w w' \<and> job_at sample_env w (rj_job_id j) = None \<and>
     job_at sample_env w' (rj_job_id j) = Some j \<and> rotation_edge\<^sup>*\<^sup>* None (Some j)"
proof -
  obtain k j and w w' :: world where run: "vault_run sample_env k w w'" "job_stored sample_env w' j" "db_jobs w = []"
    using sample_rotation_run by (elim exE conjE) (rule that)
  have none: "jobs_ok sample_env w" "job_at sample_env w (rj_job_id j) = None"
    using run(3) by (simp_all add: jobs_ok_def job_at_def job_texts_def text_table_def ids_past_def)
  note life = rotation_refines_lifecycle [OF sound_envD(1,4) [OF sample_sound] none(1) run(1)]
  have "job_at sample_env w' (rj_job_id j) = Some j"
    by (rule job_stored_at [OF conjunct1 [OF life] run(2)])
  moreover have "rotation_edge\<^sup>*\<^sup>* (job_at sample_env w (rj_job_id j)) (job_at sample_env w' (rj_job_id j))"
    using life by blast
  ultimately show ?thesis
    using run(1) none(2) by metis
qed

lemma rotation_delivers_witness:
  "\<exists>(w :: world) j w1 j2 w2 j3 w3 w4. start_rotation sample_env ''secret://app/db'' [1, 2] ''pw'' ApiKey w = (Ok j, w1) \<and>
     verify_rotation sample_env (rj_job_id j) ''pw'' w1 = (Ok j2, w2) \<and>
     promote_rotation sample_env (rj_job_id j) ''pw'' w2 = (Ok j3, w3) \<and>
     get_secret sample_env ''secret://app/db'' ''pw'' w3 = (Ok [1, 2], w4)"
proof -
  obtain h keys k and w :: world where w: "good sample_env ''pw'' h keys w" "max_version w ''secret://app/db'' = None"
    using sample_vault_jobs by (elim exE conjE) (rule that)
  from rotation_delivers [OF sample_sound w(1) sample_request_facts(3) first_version_fits [OF w(2)]
      sample_request_facts(4), of ApiKey]
  show ?thesis
    by (elim exE conjE) (intro exI conjI, assumption+)
qed

end
