(* ===== verification/Vault_Types.thy ===== *)
theory Vault_Types
  imports Rotation_Life
begin

text \<open>
  The types of the vault's tables (\<open>store.rs\<close>, \<open>vault.rs\<close>): every row holds the text of a record of its
  table's type, under that record's key and with its columns. Every operation of the vault keeps the
  tables typed, and in typed tables no stored text fails to be read.
\<close>

section \<open>Typed tables\<close>

definition header_typed :: "env \<Rightarrow> 'z world_scheme \<Rightarrow> bool" where
  "header_typed E w \<longleftrightarrow>
     (\<exists>h. header_domain h \<and> map_of (db_metadata w) header_key = Some (e_json_print E (enc_header h)))"

definition policies_typed :: "env \<Rightarrow> (string \<times> string) list \<Rightarrow> bool" where
  "policies_typed E tbl \<longleftrightarrow> text_table E (enc_policy E) (\<lambda>_. True) ap_policy_id tbl"

definition jobs_typed :: "env \<Rightarrow> (string \<times> string \<times> string \<times> string) list \<Rightarrow> bool" where
  "jobs_typed E tbl \<longleftrightarrow> distinct (map fst tbl) \<and>
     (\<forall>row \<in> set tbl. \<exists>j. row = (rj_job_id j, rj_secret_ref j, job_status_name (rj_status j), e_json_print E (enc_job j)))"

definition tables_typed :: "env \<Rightarrow> 'z world_scheme \<Rightarrow> bool" where
  "tables_typed E w \<longleftrightarrow> json_text_ok E \<and> header_typed E w \<and> secrets_ok E (db_secrets w) \<and>
     policies_typed E (db_policies w) \<and> ticket_rows_ok E (db_tickets w) \<and> jobs_typed E (db_jobs w) \<and>
     distinct (map fst (db_fingerprints w))"

lemma tables_typed_frame:
  "tick_free (tables_typed E)" "indep_audit (tables_typed E)"
  by (simp_all add: indep_defs tables_typed_def header_typed_def)

section \<open>Writes\<close>

lemma set_tbl_put: "set (tbl_put key v tbl) \<subseteq> insert (key, v) (set tbl)"
  by (induction key v tbl rule: tbl_put.induct) auto

lemma typed_puts:
  "policies_typed E tbl \<Longrightarrow> policies_typed E (tbl_put (ap_policy_id pol) (e_json_print E (enc_policy E pol)) tbl)"
  "json_text_ok E \<Longrightarrow> ticket_rows_ok E tt \<Longrightarrow> tk_ticket_id u = tid \<Longrightarrow>
     ticket_rows_ok E (tbl_put tid (e_json_print E (enc_ticket u)) tt)"
  "jobs_typed E jt \<Longrightarrow>
     jobs_typed E (tbl_put (rj_job_id j) (rj_secret_ref j, job_status_name (rj_status j), e_json_print E (enc_job j)) jt)"
proof -
  show "policies_typed E (tbl_put (ap_policy_id pol) (e_json_print E (enc_policy E pol)) tbl)" if "policies_typed E tbl"
    using that set_tbl_put [of "ap_policy_id pol" "e_json_print E (enc_policy E pol)" tbl]
    by (auto simp: policies_typed_def text_table_def distinct_tbl_put)
  show "ticket_rows_ok E (tbl_put tid (e_json_print E (enc_ticket u)) tt)"
    if "json_text_ok E" "ticket_rows_ok E tt" "tk_ticket_id u = tid"
    using ticket_table.put_ok that unfolding ticket_rows_ok_def ticket_domain_def by blast
  show "jobs_typed E (tbl_put (rj_job_id j) (rj_secret_ref j, job_status_name (rj_status j), e_json_print E (enc_job j)) jt)"
    if "jobs_typed E jt"
    using that set_tbl_put [of "rj_job_id j" "(rj_secret_ref j, job_status_name (rj_status j), e_json_print E (enc_job j))" jt]
    unfolding jobs_typed_def by (simp add: distinct_tbl_put) blast
qed

lemma typed_writes:
  fixes E :: env
  shows "header_domain h \<Longrightarrow> keeps (tables_typed E) (update_header E h)"
    and "keeps (tables_typed E) (set_metadata E plaintext_export_config_key val)"
    and "keeps (tables_typed E) (save_secret_record E rc)"
    and "keeps (tables_typed E) (save_policy E pol)"
    and "keeps (tables_typed E) (save_ticket E t)"
    and "tk_ticket_id u = tk_ticket_id t \<Longrightarrow> keeps (tables_typed E) (save_ticket_if_current E t u)"
    and "keeps (tables_typed E) (save_rotation_job E j)"
    and "keeps (tables_typed E) (save_redaction_fingerprint E rf v fp)"
proof -
  have key: "header_key \<noteq> plaintext_export_config_key"
    by (simp add: header_key_def plaintext_export_config_key_def)
  note defs = keeps_def update_def tables_typed_def header_typed_def typed_puts secrets_ok_put distinct_tbl_put
  note txn = keeps_txn [OF tables_typed_frame(1)]
  show "keeps (tables_typed E) (update_header E h)" if "header_domain h"
    unfolding update_header_def by (rule txn) (use that in \<open>auto simp: defs\<close>)
  show "keeps (tables_typed E) (set_metadata E plaintext_export_config_key val)"
    unfolding set_metadata_def by (rule txn) (use key in \<open>simp add: defs\<close>)
  show "keeps (tables_typed E) (save_secret_record E rc)"
    unfolding save_secret_record_def by (rule txn) (simp add: defs)
  show "keeps (tables_typed E) (save_policy E pol)"
    unfolding save_policy_def by (rule txn) (simp add: defs)
  show "keeps (tables_typed E) (save_ticket E t)"
    unfolding save_ticket_def by (rule txn) (simp add: defs)
  show "keeps (tables_typed E) (save_ticket_if_current E t u)" if "tk_ticket_id u = tk_ticket_id t"
    unfolding save_ticket_if_current_def by (rule txn) (use that in \<open>simp add: defs\<close>)
  show "keeps (tables_typed E) (save_rotation_job E j)"
    unfolding save_rotation_job_def by (rule txn) (simp add: defs)
  show "keeps (tables_typed E) (save_redaction_fingerprint E rf v fp)"
    unfolding save_redaction_fingerprint_def by (rule txn) (simp add: defs)
qed

interpretation typed_tables: audited E k "tables_typed E :: world \<Rightarrow> bool" for E k
  by unfold_locales (rule tables_typed_frame, rule keeps_append_audit_other [OF tables_typed_frame])

lemma step_keeps_types:
  assumes "vault_step E pw w w'" and "opens_to E pw k w" and "tables_typed E w"
  shows "tables_typed E w'"
proof -
  note kept = typed_tables.reads typed_tables.provider_ops typed_tables.config_op typed_tables.secret_ops
    typed_tables.policy_op typed_tables.ticket_ops typed_tables.rotation_ops
  have rebound: "keeps (tables_typed E) (update_header E (h\<lparr>vh_provider_binding := b\<rparr>))"
    if "json_ok b" "float_free b" for h b
    using that by (intro typed_writes(1)) (simp add: header_domain_def)
  show ?thesis
    using assms(1,2)
    by (cases rule: vault_step.cases) (auto intro!: kept [OF assms(3)] rebound typed_writes(2-))
qed

section \<open>Reads\<close>

lemma read_not_malformed:
  "f (w\<lparr>tick := Suc (tick w)\<rparr>) \<noteq> Err StoreJson \<Longrightarrow> fst (txn E (query f) w) \<noteq> Err StoreJson"
  by (auto simp: txn_def query_def Let_def split: option.split store_fault.split)

lemma jobs_typed_texts:
  assumes "jobs_typed E (db_jobs w)" and "json_text_ok E"
  shows "text_table E enc_job (job_domain E) rj_job_id (job_texts w)"
proof -
  have "map fst (job_texts w) = map fst (db_jobs w)"
    by (auto simp: job_texts_def)
  moreover have "\<exists>j. p = (rj_job_id j, e_json_print E (enc_job j))" if "p \<in> set (job_texts w)" for p
    using that assms(1) by (fastforce simp: job_texts_def jobs_typed_def)
  ultimately show ?thesis
    using assms unfolding text_table_def jobs_typed_def job_domain_def by simp
qed

lemma typed_secret_reads:
  assumes "json_text_ok E" and "secrets_ok E (db_secrets w)"
  shows "fst (load_latest_secret E rf w) \<noteq> Err StoreJson" and "fst (load_secret_version E rf v w) \<noteq> Err StoreJson"
proof -
  have row: "parse_as E dec_secret_record (row_record_json row) \<noteq> None"
    if "map_of (db_secrets w) key = Some row" for key row
    using map_of_SomeD [OF that] assms secret_row_reads by (fastforce simp: secrets_ok_def)
  have "max_version (w\<lparr>tick := n\<rparr>) = max_version w" for n
    by (simp add: max_version_def versions_def fun_eq_iff)
  then show "fst (load_latest_secret E rf w) \<noteq> Err StoreJson"
    unfolding load_latest_secret_def
    by (intro read_not_malformed) (auto simp: ok_or_def bind_r_def bind_eq_Some_conv split: option.splits dest!: row)
  show "fst (load_secret_version E rf v w) \<noteq> Err StoreJson"
    unfolding load_secret_version_def
    by (intro read_not_malformed) (auto simp: ok_or_def bind_r_def split: option.splits dest!: row)
qed

lemma typed_text_reads:
  assumes "json_text_ok E" and "tables_typed E w"
  shows "fst (load_header E w) \<noteq> Err StoreJson"
    and "fst (load_ticket E tid w) \<noteq> Err StoreJson" and "fst (list_tickets E w) \<noteq> Err StoreJson"
    and "fst (load_rotation_job E jid w) \<noteq> Err StoreJson" and "fst (list_rotation_jobs E w) \<noteq> Err StoreJson"
proof -
  have tickets: "text_table E enc_ticket (ticket_domain E) tk_ticket_id (db_tickets w)"
    and jobs: "text_table E enc_job (job_domain E) rj_job_id (job_texts w)"
    and header: "header_typed E w"
    using assms jobs_typed_texts by (auto simp: tables_typed_def ticket_rows_ok_def)
  show "fst (load_header E w) \<noteq> Err StoreJson"
    using header assms(1) unfolding load_header_def
    by (intro read_not_malformed) (auto simp: header_typed_def ok_or_def bind_r_def parse_as_print enc_header_wf header_codec.dec_enc)
  show "fst (load_ticket E tid w) \<noteq> Err StoreJson" "fst (load_rotation_job E jid w) \<noteq> Err StoreJson"
    unfolding load_ticket_def load_rotation_job_def
    using ticket_table.load_ok(1) [OF tickets] job_table.load_ok(1) [OF jobs] by (intro read_not_malformed; simp)+
  show "fst (list_tickets E w) \<noteq> Err StoreJson" "fst (list_rotation_jobs E w) \<noteq> Err StoreJson"
    unfolding list_tickets_def list_rotation_jobs_def
    using ticket_table.list_ok [OF tickets] job_table.list_ok [OF jobs] by (intro read_not_malformed; auto)+
qed

lemma typed_policy_reads:
  assumes "json_text_ok E" and "time_ok E" and "policies_typed E (db_policies w)"
    and "\<forall>pol. (ap_policy_id pol, e_json_print E (enc_policy E pol)) \<in> set (db_policies w) \<longrightarrow>
      pred_option rfc3339_time (ap_expires_at pol)"
  shows "fst (list_policies E w) \<noteq> Err StoreJson"
proof -
  have "text_table E (enc_policy E) (stored_policy_domain E) ap_policy_id (db_policies w)"
    using assms by (fastforce simp: policies_typed_def text_table_def stored_policy_domain_def policy_domain_def)
  then show ?thesis
    unfolding list_policies_def using policy_table.list_ok [of E "db_policies w"] by (intro read_not_malformed) auto
qed

lemma typed_log_reads:
  "json_text_ok E \<Longrightarrow> log_verifies E k w \<Longrightarrow> fst (list_audit_events E w) \<noteq> Err StoreJson"
  unfolding list_audit_events_def by (intro read_not_malformed) (auto simp: log_verifies_def parse_log)



end
